theory Spec2Isabelle
  imports Complex_Main "HOL-Library.Log_Nat"
begin

section \<open>Strings and characters of the host language\<close>

text \<open>
  The parser in \<^verbatim>\<open>mediainfo.ts\<close> works on JavaScript strings.  A string is modelled as
  a \<^typ>\<open>string\<close>, every \<^typ>\<open>char\<close> standing for the code unit of the same number
  (0 to 255).  The character classes below are the ones the source's regular expressions
  and built-ins use, cut down to that range:
  \<^item> \<open>\s\<close>, \<open>trim\<close>, and the leading blanks skipped by \<open>parseInt\<close> and \<open>parseFloat\<close>:
    TAB, LF, VT, FF, CR, SPACE and NBSP;
  \<^item> the line terminators that \<open>.\<close> refuses: LF and CR;
  \<^item> \<open>\d\<close>: the ten ASCII digits; \<open>[A-Za-z]\<close>: the ASCII letters.
\<close>

definition js_space :: "char \<Rightarrow> bool" where
  "js_space c = (c \<in> set [CHR 0x09, CHR 0x0A, CHR 0x0B, CHR 0x0C, CHR 0x0D, CHR 0x20, CHR 0xA0])"

definition line_terminator :: "char \<Rightarrow> bool" where
  "line_terminator c = (c = CHR 0x0A \<or> c = CHR 0x0D)"

definition is_digit :: "char \<Rightarrow> bool" where
  "is_digit c = (c \<in> set ''0123456789'')"

definition is_alpha :: "char \<Rightarrow> bool" where
  "is_alpha c = (c \<in> set ''ABCDEFGHIJKLMNOPQRSTUVWXYZabcdefghijklmnopqrstuvwxyz'')"

definition digit_val :: "char \<Rightarrow> nat" where
  "digit_val c = of_char c - 48"

definition nat_of_digits :: "string \<Rightarrow> nat" where
  "nat_of_digits ds = foldl (\<lambda>acc c. 10 * acc + digit_val c) 0 ds"

text \<open>\<open>String.prototype.toLowerCase\<close> on the code units 0 to 255: the ASCII capitals and
  the Latin-1 capitals (0xC0 to 0xDE without the multiplication sign 0xD7) move up by 32.\<close>

definition lower_char :: "char \<Rightarrow> char" where
  "lower_char c =
     (let n = (of_char c :: nat)
      in if (65 \<le> n \<and> n \<le> 90) \<or> (192 \<le> n \<and> n \<le> 222 \<and> n \<noteq> 215)
         then char_of (n + 32) else c)"

definition toLowerCase :: "string \<Rightarrow> string" where
  "toLowerCase s = map lower_char s"

definition trim :: "string \<Rightarrow> string" where
  "trim s = rev (dropWhile js_space (rev (dropWhile js_space s)))"

definition startsWith :: "string \<Rightarrow> string \<Rightarrow> bool" where
  \<comment> \<open>\<open>startsWith p s\<close> is the source's \<open>s.startsWith(p)\<close>\<close>
  "startsWith p s = (take (length p) s = p)"

fun js_includes :: "string \<Rightarrow> string \<Rightarrow> bool" where
  \<comment> \<open>\<open>js_includes p s\<close> is the source's \<open>s.includes(p)\<close>\<close>
  "js_includes p [] = (p = [])"
| "js_includes p (c # cs) = (startsWith p (c # cs) \<or> js_includes p cs)"

text \<open>\<open>s.split(sep)\<close> for a one-character separator: never an empty list, and
  \<open>"".split(sep)\<close> is \<open>[""]\<close>.\<close>

fun split :: "char \<Rightarrow> string \<Rightarrow> string list" where
  "split sep [] = [[]]"
| "split sep (c # cs) =
     (if c = sep then [] # split sep cs
      else (case split sep cs of p # ps \<Rightarrow> (c # p) # ps | [] \<Rightarrow> [[c]]))"

text \<open>\<open>xs[i]\<close> on an array: \<open>undefined\<close> (here \<open>None\<close>) out of range.\<close>

fun nth_opt :: "'a list \<Rightarrow> nat \<Rightarrow> 'a option" where
  "nth_opt [] i = None"
| "nth_opt (x # xs) 0 = Some x"
| "nth_opt (x # xs) (Suc i) = nth_opt xs i"

section \<open>Numbers\<close>

text \<open>
  A JavaScript number is an IEEE-754 double: \<open>NaN\<close>, \<open>Infinity\<close>, \<open>-Infinity\<close>, or a
  finite value, kept here as the rational it denotes.  Every operation that produces a
  number computes the exact result and rounds it with \<open>to_double\<close>: to the nearest
  double, a tie going to the double with the even significand, above the largest double to
  an infinity.  A finite double is \<open>m * 2^p\<close> with \<open>|m| < 2^53\<close> and
  \<open>-1074 \<le> p \<le> 971\<close>; for a positive rational \<open>a\<close> with \<open>2^e \<le> a < 2^(e+1)\<close> the spacing of
  the doubles around \<open>a\<close> is \<open>2^p\<close> with \<open>p = max (e - 52) (-1074)\<close>.  The sign of zero is
  not kept: \<open>-0\<close> and \<open>0\<close> are both \<open>Num 0\<close>.
\<close>

datatype jsnum = NaN | Num rat | PosInf | NegInf

definition ilog2 :: "rat \<Rightarrow> int" where
  \<comment> \<open>for \<open>0 < a\<close>, the \<open>e\<close> with \<open>2^e \<le> a < 2^(e+1)\<close>\<close>
  "ilog2 a =
     (let (n, d) = quotient_of a;
          e0 = int (floorlog 2 (nat n)) - int (floorlog 2 (nat d))
      in if a < 2 powi e0 then e0 - 1 else e0)"

definition round_even :: "rat \<Rightarrow> int" where
  \<comment> \<open>the nearest integer, a tie going to the even one\<close>
  "round_even x =
     (let f = \<lfloor>x\<rfloor>; d = x - of_int f
      in if d < 1 / 2 then f else if 1 / 2 < d then f + 1 else if even f then f else f + 1)"

definition to_double :: "rat \<Rightarrow> jsnum" where
  "to_double q =
     (if q = 0 then Num 0
      else
        (let a = \<bar>q\<bar>;
             p = max (ilog2 a - 52) (- 1074);
             r = of_int (round_even (a / 2 powi p)) * 2 powi p
         in if 2 ^ 1024 \<le> r then (if 0 < q then PosInf else NegInf)
            else Num (if 0 < q then r else - r)))"

text \<open>The operators \<open>*\<close> and \<open>+\<close> on doubles.\<close>

fun js_mul :: "jsnum \<Rightarrow> jsnum \<Rightarrow> jsnum" where
  "js_mul (Num a) (Num b) = to_double (a * b)"
| "js_mul NaN y = NaN"
| "js_mul x NaN = NaN"
| "js_mul (Num a) PosInf = (if a = 0 then NaN else if 0 < a then PosInf else NegInf)"
| "js_mul (Num a) NegInf = (if a = 0 then NaN else if 0 < a then NegInf else PosInf)"
| "js_mul PosInf (Num b) = (if b = 0 then NaN else if 0 < b then PosInf else NegInf)"
| "js_mul NegInf (Num b) = (if b = 0 then NaN else if 0 < b then NegInf else PosInf)"
| "js_mul PosInf PosInf = PosInf"
| "js_mul NegInf NegInf = PosInf"
| "js_mul PosInf NegInf = NegInf"
| "js_mul NegInf PosInf = NegInf"

fun js_add :: "jsnum \<Rightarrow> jsnum \<Rightarrow> jsnum" where
  "js_add (Num a) (Num b) = to_double (a + b)"
| "js_add NaN y = NaN"
| "js_add x NaN = NaN"
| "js_add PosInf NegInf = NaN"
| "js_add NegInf PosInf = NaN"
| "js_add PosInf y = PosInf"
| "js_add NegInf y = NegInf"
| "js_add (Num a) y = y"

text \<open>\<open>Math.round\<close>: the nearest integer, a tie going up.  On a double the result is
  again a double (a double of magnitude \<open>2^52\<close> or more is an integer), so nothing is
  rounded a second time.\<close>

fun js_round :: "jsnum \<Rightarrow> jsnum" where
  "js_round (Num a) = Num (of_int \<lfloor>a + 1 / 2\<rfloor>)"
| "js_round x = x"

text \<open>\<open>parseInt(s, 10)\<close>: leading blanks, an optional sign, then the longest run of
  digits; \<open>NaN\<close> when that run is empty, else the double nearest to the integer the
  digits write.  (Past the twentieth significant digit the standard lets an implementation
  read further digits as zeros; the model takes the digits as written.)\<close>

definition strip_sign :: "string \<Rightarrow> bool \<times> string" where
  "strip_sign t =
     (case t of
        [] \<Rightarrow> (False, [])
      | c # r \<Rightarrow> if c = CHR ''-'' then (True, r)
                 else if c = CHR ''+'' then (False, r) else (False, t))"

definition signed :: "bool \<Rightarrow> rat \<Rightarrow> rat" where
  "signed neg q = (if neg then - q else q)"

definition parseInt10 :: "string \<Rightarrow> jsnum" where
  "parseInt10 s =
     (let (neg, u) = strip_sign (dropWhile js_space s);
          ds = takeWhile is_digit u
      in if ds = [] then NaN else to_double (signed neg (of_nat (nat_of_digits ds))))"

text \<open>\<open>parseInt(x)\<close> with no radix, on a value that may be \<open>undefined\<close>: the argument
  is first turned into a string (\<open>undefined\<close> into \<open>"undefined"\<close>); after blanks and sign
  a prefix \<open>0x\<close> or \<open>0X\<close> selects radix 16, anything else radix 10.\<close>

definition is_hex_digit :: "char \<Rightarrow> bool" where
  "is_hex_digit c = (c \<in> set ''0123456789abcdefABCDEF'')"

definition hex_val :: "char \<Rightarrow> nat" where
  "hex_val c =
     (if is_digit c then of_char c - 48
      else if c \<in> set ''abcdef'' then of_char c - 87 else of_char c - 55)"

definition nat_of_hex :: "string \<Rightarrow> nat" where
  "nat_of_hex ds = foldl (\<lambda>acc c. 16 * acc + hex_val c) 0 ds"

definition parseInt :: "string option \<Rightarrow> jsnum" where
  "parseInt x =
     (let s = (case x of None \<Rightarrow> ''undefined'' | Some s \<Rightarrow> s);
          (neg, u) = strip_sign (dropWhile js_space s)
      in if startsWith ''0x'' u \<or> startsWith ''0X'' u
         then (let ds = takeWhile is_hex_digit (drop 2 u)
               in if ds = [] then NaN else to_double (signed neg (of_nat (nat_of_hex ds))))
         else (let ds = takeWhile is_digit u
               in if ds = [] then NaN else to_double (signed neg (of_nat (nat_of_digits ds)))))"

text \<open>\<open>parseFloat(s)\<close>: leading blanks, an optional sign, then the longest prefix that is
  \<open>Infinity\<close> or a decimal literal (digits, an optional fraction, an optional exponent
  that counts only when it has a digit); \<open>NaN\<close> when there is no such prefix, else the
  double nearest to the number the literal writes, an infinity when that is out of range.
  (As for \<open>parseInt\<close>, digits past the twentieth significant one are taken as written.)\<close>

definition exponent_of :: "string \<Rightarrow> int" where
  "exponent_of r =
     (case r of
        [] \<Rightarrow> 0
      | c # r' \<Rightarrow>
          if c = CHR ''e'' \<or> c = CHR ''E''
          then (let (eneg, r'') = strip_sign r'; ds = takeWhile is_digit r''
                in if ds = [] then 0
                   else if eneg then - int (nat_of_digits ds) else int (nat_of_digits ds))
          else 0)"

definition pow10 :: "int \<Rightarrow> rat" where
  "pow10 e = (if 0 \<le> e then 10 ^ nat e else 1 / 10 ^ nat (- e))"

definition decimal_value :: "string \<Rightarrow> string \<Rightarrow> rat" where
  \<comment> \<open>the number written \<open>ip.fp\<close>, both digit strings\<close>
  "decimal_value ip fp = of_nat (nat_of_digits ip) + of_nat (nat_of_digits fp) / 10 ^ length fp"

definition parseFloat :: "string \<Rightarrow> jsnum" where
  "parseFloat s =
     (let (neg, u) = strip_sign (dropWhile js_space s)
      in if startsWith ''Infinity'' u then (if neg then NegInf else PosInf)
         else
           (let ip = takeWhile is_digit u;
                r1 = dropWhile is_digit u;
                (fp, r2) = (case r1 of
                              [] \<Rightarrow> ([], [])
                            | c # r \<Rightarrow> if c = CHR ''.''
                                       then (takeWhile is_digit r, dropWhile is_digit r)
                                       else ([], r1))
            in if ip = [] \<and> fp = [] then NaN
               else to_double (signed neg (decimal_value ip fp * pow10 (exponent_of r2)))))"


section \<open>Unit normalizers\<close>

subsection \<open>\<open>parseSize\<close>\<close>

text \<open>
  The lookup \<open>powers[unit] || 0\<close> reads a property of an object literal.  For the nine
  keys of the literal it yields the stored power.  For a name the literal does not hold it
  yields \<open>undefined\<close>, hence \<open>0\<close>, except for the two all-lower-case names that every object
  inherits (\<open>constructor\<close> and \<open>__proto__\<close>): there the lookup yields an object, which is
  truthy and is not a number, so the power is \<open>NaN\<close> (here \<open>None\<close>).  An absent
  \<open>parts[1]\<close> makes \<open>unit\<close> \<open>undefined\<close>, which is looked up as the name \<open>undefined\<close>.
  The operator \<open>**\<close> is applied to 1000 or 1024 and an exponent from 0 to 4 only, where
  its result is exact.
\<close>

definition powers :: "(string \<times> nat) list" where
  "powers = [(''b'', 0), (''kib'', 1), (''mib'', 2), (''gib'', 3), (''tib'', 4),
             (''kb'', 1), (''mb'', 2), (''gb'', 3), (''tb'', 4)]"

definition power_of :: "string option \<Rightarrow> nat option" where
  "power_of unit =
     (case unit of
        None \<Rightarrow> Some 0
      | Some u \<Rightarrow>
          (case map_of powers u of
             Some n \<Rightarrow> Some n
           | None \<Rightarrow> if u = ''constructor'' \<or> u = ''__proto__'' then None else Some 0))"

definition js_pow :: "rat \<Rightarrow> nat option \<Rightarrow> jsnum" where
  "js_pow b p = (case p of None \<Rightarrow> NaN | Some n \<Rightarrow> to_double (b ^ n))"

definition parseSize :: "string \<Rightarrow> jsnum" where
  "parseSize sizeStr =
     (let parts = split (CHR '' '') sizeStr;
          value = parseFloat (filter (\<lambda>c. c \<noteq> CHR '','') (hd parts));
          unit = map_option toLowerCase (nth_opt parts 1);
          power = power_of unit;
          multiplier = (case unit of None \<Rightarrow> 1000
                        | Some u \<Rightarrow> if js_includes ''ib'' u then 1024 else 1000)
      in js_round (js_mul value (js_pow multiplier power)))"

subsection \<open>\<open>parseDuration\<close>\<close>

text \<open>The loop \<open>for (i = 0; i < parts.length; i += 2)\<close> reads \<open>parts[i]\<close> and
  \<open>parts[i + 1]\<close>; the latter is \<open>undefined\<close> on a last, unpaired element, and then no
  branch is taken.\<close>

fun durationLoop :: "string list \<Rightarrow> jsnum \<Rightarrow> jsnum" where
  "durationLoop (p # unit # rest) totalMs =
     durationLoop rest
       (let value = parseInt10 p
        in if startsWith ''h'' unit then js_add totalMs (js_mul value (Num 3600000))
           else if startsWith ''min'' unit then js_add totalMs (js_mul value (Num 60000))
           else if startsWith ''s'' unit then js_add totalMs (js_mul value (Num 1000))
           else if startsWith ''ms'' unit then js_add totalMs value
           else totalMs)"
| "durationLoop [p] totalMs = totalMs"
| "durationLoop [] totalMs = totalMs"

definition parseDuration :: "string \<Rightarrow> jsnum" where
  "parseDuration durationStr = durationLoop (split (CHR '' '') durationStr) (Num 0)"

subsection \<open>\<open>parseBitRate\<close>, \<open>parseFrequency\<close>, \<open>parseDate\<close>\<close>

definition parseBitRate :: "string \<Rightarrow> jsnum" where
  "parseBitRate bitrateStr =
     (let cleanStr = toLowerCase (filter (\<lambda>c. \<not> js_space c) bitrateStr);
          value = parseFloat cleanStr
      in if js_includes ''mb/s'' cleanStr then js_round (js_mul (js_mul value (Num 1000)) (Num 1000))
         else if js_includes ''kb/s'' cleanStr then js_round (js_mul value (Num 1000))
         else if js_includes ''b/s'' cleanStr then js_round value
         else js_round value)"

definition parseFrequency :: "string \<Rightarrow> jsnum" where
  "parseFrequency frequencyStr =
     (let value = parseFloat (filter (\<lambda>c. \<not> js_space c) frequencyStr)
      in if js_includes ''khz'' (toLowerCase frequencyStr) then js_round (js_mul value (Num 1000))
         else if js_includes ''mhz'' (toLowerCase frequencyStr)
         then js_round (js_mul (js_mul value (Num 1000)) (Num 1000))
         else js_round value)"

text \<open>\<open>new Date(dateStr)\<close> is a built-in of the host; the object it builds is kept as
  the string it was built from.\<close>

datatype jsdate = Date string

definition parseDate :: "string \<Rightarrow> jsdate" where
  "parseDate dateStr = Date dateStr"

section \<open>Line classifier\<close>

subsection \<open>Section headers\<close>

text \<open>The pattern \<^verbatim>\<open>/^(General|Video|Audio|Text|Menu)(?: #\d+)?$/\<close>: the whole line is
  one of the five names, or a name followed by a space, a hash and one or more digits.
  The result is the first group.\<close>

definition section_names :: "string list" where
  "section_names = [''General'', ''Video'', ''Audio'', ''Text'', ''Menu'']"

definition ordinal_suffix :: "string \<Rightarrow> bool" where
  "ordinal_suffix s =
     (s = [] \<or> (take 2 s = '' #'' \<and> drop 2 s \<noteq> [] \<and> list_all is_digit (drop 2 s)))"

definition sectionMatch :: "string \<Rightarrow> string option" where
  "sectionMatch line =
     List.find (\<lambda>n. startsWith n line \<and> ordinal_suffix (drop (length n) line)) section_names"

subsection \<open>Chapter lines\<close>

text \<open>
  The pattern \<^verbatim>\<open>/(\d{2}:\d{2}:\d{2}.\d{3})\s+:\s+.*?:(.*)/\<close> is not anchored: the match is
  the leftmost one.  At a given start it needs twelve characters of the shape
  \<open>dd:dd:dd?ddd\<close>, where \<open>?\<close> is the unescaped dot of the pattern (any character but a line
  terminator); then a run of blanks, which has to be the whole run since a colon follows;
  a colon; a run of blanks; then the lazy \<open>.*?\<close> stops at the first colon, which it
  reaches only over characters that are not line terminators; the second group is what
  follows that colon up to the next line terminator.  Giving back blanks of the second run
  cannot help, since they would only be put in front of what \<open>.*?\<close> has to cross.
\<close>

definition timestamp_pattern :: "(char \<Rightarrow> bool) list" where
  "timestamp_pattern =
     [is_digit, is_digit, (\<lambda>c. c = CHR '':''),
      is_digit, is_digit, (\<lambda>c. c = CHR '':''),
      is_digit, is_digit, (\<lambda>c. \<not> line_terminator c),
      is_digit, is_digit, is_digit]"

definition timestamp_shape :: "string \<Rightarrow> bool" where
  "timestamp_shape t = list_all2 (\<lambda>p c. p c) timestamp_pattern t"

definition chapterAt :: "string \<Rightarrow> (string \<times> string) option" where
  "chapterAt s =
     (let g1 = take 12 s;
          r1 = dropWhile js_space (drop 12 s)
      in if timestamp_shape g1 \<and> takeWhile js_space (drop 12 s) \<noteq> [] \<and> startsWith '':'' r1
         then
           (let r2 = drop 1 r1;
                r3 = dropWhile js_space r2;
                pre = takeWhile (\<lambda>c. c \<noteq> CHR '':'') r3;
                r4 = dropWhile (\<lambda>c. c \<noteq> CHR '':'') r3
            in if takeWhile js_space r2 \<noteq> [] \<and> r4 \<noteq> [] \<and> \<not> list_ex line_terminator pre
               then Some (g1, takeWhile (\<lambda>c. \<not> line_terminator c) (drop 1 r4))
               else None)
         else None)"

fun chapterMatch :: "string \<Rightarrow> (string \<times> string) option" where
  "chapterMatch [] = None"
| "chapterMatch (c # cs) =
     (case chapterAt (c # cs) of Some m \<Rightarrow> Some m | None \<Rightarrow> chapterMatch cs)"

text \<open>\<open>chapterMatch[1].split(/[:.]/)\<close>: the pieces between colons and full stops.\<close>

fun split_time :: "string \<Rightarrow> string list" where
  "split_time [] = [[]]"
| "split_time (c # cs) =
     (if c = CHR '':'' \<or> c = CHR ''.'' then [] # split_time cs
      else (case split_time cs of p # ps \<Rightarrow> (c # p) # ps | [] \<Rightarrow> [[c]]))"

subsection \<open>Key-value lines\<close>

text \<open>
  The pattern \<^verbatim>\<open>/^\s*([^:]+?)\s+:\s+(.*)$/\<close> is anchored at both ends.  Nothing before its
  colon can be a colon, so that colon is the first one of the line.  The text before it
  is blanks, the first group (at least one character), and at least one blank: it has at
  least two characters and ends in a blank.  Whichever way the blanks are shared out, the
  first group trimmed is that text trimmed.  After the colon come at least one blank and
  the second group, which runs to the end of the line and holds no line terminator; a blank
  given back to the group keeps its trimmed value.  The results are the two groups trimmed,
  as the source trims them right after the match.
\<close>

definition keyValueMatch :: "string \<Rightarrow> (string \<times> string) option" where
  "keyValueMatch line =
     (let front = takeWhile (\<lambda>c. c \<noteq> CHR '':'') line;
          rest = dropWhile (\<lambda>c. c \<noteq> CHR '':'') line;
          back = drop 1 rest;
          group2 = dropWhile js_space back
      in if rest \<noteq> [] \<and> 2 \<le> length front \<and> js_space (last front)
            \<and> takeWhile js_space back \<noteq> [] \<and> \<not> list_ex line_terminator group2
         then Some (trim front, trim group2)
         else None)"

subsection \<open>Stream sizes\<close>

text \<open>
  The pattern \<^verbatim>\<open>/(\d+\.?\d*\s+[A-Za-z]+)/\<close>, leftmost match: digits, an optional full stop,
  digits, blanks, letters.  Every run is taken whole: a shorter run of digits or of blanks
  leaves a character that the next part of the pattern refuses.
\<close>

definition sizeAt :: "string \<Rightarrow> string option" where
  "sizeAt s =
     (let d1 = takeWhile is_digit s;
          r1 = dropWhile is_digit s;
          dot = (if startsWith ''.'' r1 then ''.'' else []);
          r2 = drop (length dot) r1;
          d2 = takeWhile is_digit r2;
          r3 = dropWhile is_digit r2;
          w = takeWhile js_space r3;
          l = takeWhile is_alpha (dropWhile js_space r3)
      in if d1 \<noteq> [] \<and> w \<noteq> [] \<and> l \<noteq> [] then Some (d1 @ dot @ d2 @ w @ l) else None)"

fun sizeMatch :: "string \<Rightarrow> string option" where
  "sizeMatch [] = None"
| "sizeMatch (c # cs) =
     (case sizeAt (c # cs) of Some m \<Rightarrow> Some m | None \<Rightarrow> sizeMatch cs)"

section \<open>Data model\<close>

text \<open>Every field of the source's interfaces is optional; \<open>None\<close> is an absent
  property.  Field names carry the initial of their interface.\<close>

datatype error = TypeError

record GeneralTrack =
  g_uniqueId :: "string option"
  g_completeName :: "string option"
  g_format :: "string option"
  g_formatVersion :: "string option"
  g_fileSize :: "jsnum option"
  g_duration :: "jsnum option"
  g_overallBitRateMode :: "string option"
  g_overallBitRate :: "jsnum option"
  g_frameRate :: "jsnum option"
  g_frameCount :: "jsnum option"
  g_streamSize :: "jsnum option"
  g_encodedDate :: "jsdate option"
  g_writingApplication :: "string option"
  g_writingLibrary :: "string option"
  g_attachments :: "string option"

record VideoTrack =
  v_id :: "jsnum option"
  v_format :: "string option"
  v_formatInfo :: "string option"
  v_formatProfile :: "string option"
  v_formatSettings :: "string option"
  v_formatSettingsCabac :: "string option"
  v_formatSettingsReferenceFrames :: "string option"
  v_codecId :: "string option"
  v_duration :: "jsnum option"
  v_bitRateMode :: "string option"
  v_bitRate :: "jsnum option"
  v_maximumBitRate :: "jsnum option"
  v_width :: "jsnum option"
  v_height :: "jsnum option"
  v_displayAspectRatio :: "string option"
  v_frameRateMode :: "string option"
  v_frameRate :: "jsnum option"
  v_colorSpace :: "string option"
  v_chromaSubsampling :: "string option"
  v_bitDepth :: "jsnum option"
  v_scanType :: "string option"
  v_bitsPerPixelFrame :: "jsnum option"
  v_streamSize :: "jsnum option"
  v_default :: "bool option"
  v_forced :: "bool option"

record AudioTrack =
  a_id :: "jsnum option"
  a_format :: "string option"
  a_formatSettings :: "string option"
  a_codecId :: "string option"
  a_duration :: "jsnum option"
  a_bitRateMode :: "string option"
  a_bitRate :: "jsnum option"
  a_channels :: "jsnum option"
  a_samplingRate :: "jsnum option"
  a_frameRate :: "jsnum option"
  a_bitDepth :: "jsnum option"
  a_streamSize :: "jsnum option"
  a_language :: "string option"
  a_title :: "string option"
  a_default :: "bool option"
  a_forced :: "bool option"

record TextTrack =
  t_id :: "jsnum option"
  t_format :: "string option"
  t_codecId :: "string option"
  t_codecIdInfo :: "string option"
  t_duration :: "jsnum option"
  t_bitRate :: "jsnum option"
  t_frameRate :: "jsnum option"
  t_countOfElements :: "jsnum option"
  t_compressionMode :: "string option"
  t_streamSize :: "jsnum option"
  t_language :: "string option"
  t_title :: "string option"
  t_default :: "bool option"
  t_forced :: "bool option"

record Chapter =
  c_timestamp :: jsnum
  c_title :: string

record MediaInfo =
  general :: GeneralTrack
  video :: "VideoTrack list"
  audio :: "AudioTrack list"
  text_tracks :: "TextTrack list"
  menu :: "Chapter list"

definition emptyGeneral :: GeneralTrack where
  "emptyGeneral = \<lparr>g_uniqueId = None, g_completeName = None, g_format = None,
     g_formatVersion = None, g_fileSize = None, g_duration = None,
     g_overallBitRateMode = None, g_overallBitRate = None, g_frameRate = None,
     g_frameCount = None, g_streamSize = None, g_encodedDate = None,
     g_writingApplication = None, g_writingLibrary = None, g_attachments = None\<rparr>"

definition emptyVideo :: VideoTrack where
  "emptyVideo = \<lparr>v_id = None, v_format = None, v_formatInfo = None, v_formatProfile = None,
     v_formatSettings = None, v_formatSettingsCabac = None,
     v_formatSettingsReferenceFrames = None, v_codecId = None, v_duration = None,
     v_bitRateMode = None, v_bitRate = None, v_maximumBitRate = None, v_width = None,
     v_height = None, v_displayAspectRatio = None, v_frameRateMode = None,
     v_frameRate = None, v_colorSpace = None, v_chromaSubsampling = None,
     v_bitDepth = None, v_scanType = None, v_bitsPerPixelFrame = None,
     v_streamSize = None, v_default = None, v_forced = None\<rparr>"

definition emptyAudio :: AudioTrack where
  "emptyAudio = \<lparr>a_id = None, a_format = None, a_formatSettings = None, a_codecId = None,
     a_duration = None, a_bitRateMode = None, a_bitRate = None, a_channels = None,
     a_samplingRate = None, a_frameRate = None, a_bitDepth = None, a_streamSize = None,
     a_language = None, a_title = None, a_default = None, a_forced = None\<rparr>"

definition emptyText :: TextTrack where
  "emptyText = \<lparr>t_id = None, t_format = None, t_codecId = None, t_codecIdInfo = None,
     t_duration = None, t_bitRate = None, t_frameRate = None, t_countOfElements = None,
     t_compressionMode = None, t_streamSize = None, t_language = None, t_title = None,
     t_default = None, t_forced = None\<rparr>"

section \<open>Section-scoped field mappers\<close>

text \<open>
  Each \<open>switch (key)\<close> of the source is a function from the key and the value to the
  assignment it performs on \<open>target\<close>, or \<open>None\<close> when no assignment is performed
  (no \<open>case\<close> for the key, or a \<open>Stream size\<close> whose value the size pattern refuses).
\<close>

definition generalAssign :: "string \<Rightarrow> string \<Rightarrow> (GeneralTrack \<Rightarrow> GeneralTrack) option" where
  "generalAssign key value =
    (if key = ''Unique ID'' then Some (\<lambda>target. target\<lparr>g_uniqueId := Some value\<rparr>)
     else if key = ''Complete name'' then Some (\<lambda>target. target\<lparr>g_completeName := Some value\<rparr>)
     else if key = ''Format'' then Some (\<lambda>target. target\<lparr>g_format := Some value\<rparr>)
     else if key = ''Format version'' then Some (\<lambda>target. target\<lparr>g_formatVersion := Some value\<rparr>)
     else if key = ''File size'' then Some (\<lambda>target. target\<lparr>g_fileSize := Some (parseSize value)\<rparr>)
     else if key = ''Duration'' then Some (\<lambda>target. target\<lparr>g_duration := Some (parseDuration value)\<rparr>)
     else if key = ''Overall bit rate mode'' then Some (\<lambda>target. target\<lparr>g_overallBitRateMode := Some value\<rparr>)
     else if key = ''Overall bit rate'' then Some (\<lambda>target. target\<lparr>g_overallBitRate := Some (parseBitRate value)\<rparr>)
     else if key = ''Frame rate'' then Some (\<lambda>target. target\<lparr>g_frameRate := Some (parseFloat value)\<rparr>)
     else if key = ''Encoded date'' then Some (\<lambda>target. target\<lparr>g_encodedDate := Some (parseDate value)\<rparr>)
     else if key = ''Writing application'' then Some (\<lambda>target. target\<lparr>g_writingApplication := Some value\<rparr>)
     else if key = ''Writing library'' then Some (\<lambda>target. target\<lparr>g_writingLibrary := Some value\<rparr>)
     else if key = ''Attachments'' then Some (\<lambda>target. target\<lparr>g_attachments := Some value\<rparr>)
     else None)"

definition videoAssign :: "string \<Rightarrow> string \<Rightarrow> (VideoTrack \<Rightarrow> VideoTrack) option" where
  "videoAssign key value =
    (if key = ''ID'' then Some (\<lambda>target. target\<lparr>v_id := Some (parseInt10 value)\<rparr>)
     else if key = ''Format'' then Some (\<lambda>target. target\<lparr>v_format := Some value\<rparr>)
     else if key = ''Format/Info'' then Some (\<lambda>target. target\<lparr>v_formatInfo := Some value\<rparr>)
     else if key = ''Format profile'' then Some (\<lambda>target. target\<lparr>v_formatProfile := Some value\<rparr>)
     else if key = ''Format settings'' then Some (\<lambda>target. target\<lparr>v_formatSettings := Some value\<rparr>)
     else if key = ''Format settings, CABAC'' then Some (\<lambda>target. target\<lparr>v_formatSettingsCabac := Some value\<rparr>)
     else if key = ''Format settings, Reference frames'' then Some (\<lambda>target. target\<lparr>v_formatSettingsReferenceFrames := Some value\<rparr>)
     else if key = ''Codec ID'' then Some (\<lambda>target. target\<lparr>v_codecId := Some value\<rparr>)
     else if key = ''Duration'' then Some (\<lambda>target. target\<lparr>v_duration := Some (parseDuration value)\<rparr>)
     else if key = ''Bit rate mode'' then Some (\<lambda>target. target\<lparr>v_bitRateMode := Some value\<rparr>)
     else if key = ''Bit rate'' then Some (\<lambda>target. target\<lparr>v_bitRate := Some (parseBitRate value)\<rparr>)
     else if key = ''Maximum bit rate'' then Some (\<lambda>target. target\<lparr>v_maximumBitRate := Some (parseBitRate value)\<rparr>)
     else if key = ''Width'' then Some (\<lambda>target. target\<lparr>v_width := Some (parseInt10 (filter (\<lambda>c. \<not> js_space c) value))\<rparr>)
     else if key = ''Height'' then Some (\<lambda>target. target\<lparr>v_height := Some (parseInt10 (filter (\<lambda>c. \<not> js_space c) value))\<rparr>)
     else if key = ''Display aspect ratio'' then Some (\<lambda>target. target\<lparr>v_displayAspectRatio := Some value\<rparr>)
     else if key = ''Frame rate mode'' then Some (\<lambda>target. target\<lparr>v_frameRateMode := Some value\<rparr>)
     else if key = ''Frame rate'' then Some (\<lambda>target. target\<lparr>v_frameRate := Some (parseFloat value)\<rparr>)
     else if key = ''Color space'' then Some (\<lambda>target. target\<lparr>v_colorSpace := Some value\<rparr>)
     else if key = ''Chroma subsampling'' then Some (\<lambda>target. target\<lparr>v_chromaSubsampling := Some value\<rparr>)
     else if key = ''Bit depth'' then Some (\<lambda>target. target\<lparr>v_bitDepth := Some (parseInt10 value)\<rparr>)
     else if key = ''Scan type'' then Some (\<lambda>target. target\<lparr>v_scanType := Some value\<rparr>)
     else if key = ''Bits/(Pixel*Frame)'' then Some (\<lambda>target. target\<lparr>v_bitsPerPixelFrame := Some (parseFloat value)\<rparr>)
     else if key = ''Stream size'' then
       (case sizeMatch value of
          None \<Rightarrow> None
        | Some m \<Rightarrow> Some (\<lambda>target. target\<lparr>v_streamSize := Some (parseSize m)\<rparr>))
     else if key = ''Default'' then Some (\<lambda>target. target\<lparr>v_default := Some (toLowerCase value = ''yes'')\<rparr>)
     else if key = ''Forced'' then Some (\<lambda>target. target\<lparr>v_forced := Some (toLowerCase value = ''yes'')\<rparr>)
     else None)"

definition audioAssign :: "string \<Rightarrow> string \<Rightarrow> (AudioTrack \<Rightarrow> AudioTrack) option" where
  "audioAssign key value =
    (if key = ''ID'' then Some (\<lambda>target. target\<lparr>a_id := Some (parseInt10 value)\<rparr>)
     else if key = ''Format'' then Some (\<lambda>target. target\<lparr>a_format := Some value\<rparr>)
     else if key = ''Format settings'' then Some (\<lambda>target. target\<lparr>a_formatSettings := Some value\<rparr>)
     else if key = ''Codec ID'' then Some (\<lambda>target. target\<lparr>a_codecId := Some value\<rparr>)
     else if key = ''Duration'' then Some (\<lambda>target. target\<lparr>a_duration := Some (parseDuration value)\<rparr>)
     else if key = ''Bit rate mode'' then Some (\<lambda>target. target\<lparr>a_bitRateMode := Some value\<rparr>)
     else if key = ''Bit rate'' then Some (\<lambda>target. target\<lparr>a_bitRate := Some (parseBitRate value)\<rparr>)
     else if key = ''Channel(s)'' then Some (\<lambda>target. target\<lparr>a_channels := Some (parseInt10 value)\<rparr>)
     else if key = ''Sampling rate'' then Some (\<lambda>target. target\<lparr>a_samplingRate := Some (parseFrequency value)\<rparr>)
     else if key = ''Frame rate'' then Some (\<lambda>target. target\<lparr>a_frameRate := Some (parseFloat value)\<rparr>)
     else if key = ''Bit depth'' then Some (\<lambda>target. target\<lparr>a_bitDepth := Some (parseInt10 value)\<rparr>)
     else if key = ''Stream size'' then
       (case sizeMatch value of
          None \<Rightarrow> None
        | Some m \<Rightarrow> Some (\<lambda>target. target\<lparr>a_streamSize := Some (parseSize m)\<rparr>))
     else if key = ''Title'' then Some (\<lambda>target. target\<lparr>a_title := Some value\<rparr>)
     else if key = ''Language'' then Some (\<lambda>target. target\<lparr>a_language := Some value\<rparr>)
     else if key = ''Default'' then Some (\<lambda>target. target\<lparr>a_default := Some (toLowerCase value = ''yes'')\<rparr>)
     else if key = ''Forced'' then Some (\<lambda>target. target\<lparr>a_forced := Some (toLowerCase value = ''yes'')\<rparr>)
     else None)"

definition textAssign :: "string \<Rightarrow> string \<Rightarrow> (TextTrack \<Rightarrow> TextTrack) option" where
  "textAssign key value =
    (if key = ''ID'' then Some (\<lambda>target. target\<lparr>t_id := Some (parseInt10 value)\<rparr>)
     else if key = ''Format'' then Some (\<lambda>target. target\<lparr>t_format := Some value\<rparr>)
     else if key = ''Codec ID'' then Some (\<lambda>target. target\<lparr>t_codecId := Some value\<rparr>)
     else if key = ''Codec ID/Info'' then Some (\<lambda>target. target\<lparr>t_codecIdInfo := Some value\<rparr>)
     else if key = ''Duration'' then Some (\<lambda>target. target\<lparr>t_duration := Some (parseDuration value)\<rparr>)
     else if key = ''Bit rate'' then Some (\<lambda>target. target\<lparr>t_bitRate := Some (parseBitRate value)\<rparr>)
     else if key = ''Frame rate'' then Some (\<lambda>target. target\<lparr>t_frameRate := Some (parseFloat value)\<rparr>)
     else if key = ''Count of elements'' then Some (\<lambda>target. target\<lparr>t_countOfElements := Some (parseInt10 value)\<rparr>)
     else if key = ''Compression mode'' then Some (\<lambda>target. target\<lparr>t_compressionMode := Some value\<rparr>)
     else if key = ''Stream size'' then
       (case sizeMatch value of
          None \<Rightarrow> None
        | Some m \<Rightarrow> Some (\<lambda>target. target\<lparr>t_streamSize := Some (parseSize m)\<rparr>))
     else if key = ''Title'' then Some (\<lambda>target. target\<lparr>t_title := Some value\<rparr>)
     else if key = ''Language'' then Some (\<lambda>target. target\<lparr>t_language := Some value\<rparr>)
     else if key = ''Default'' then Some (\<lambda>target. target\<lparr>t_default := Some (toLowerCase value = ''yes'')\<rparr>)
     else if key = ''Forced'' then Some (\<lambda>target. target\<lparr>t_forced := Some (toLowerCase value = ''yes'')\<rparr>)
     else None)"

section \<open>Parse driver\<close>

record scan =
  result :: MediaInfo
  currentSection :: string
  trackIndex :: int

definition initial :: scan where
  "initial = \<lparr>result = \<lparr>general = emptyGeneral, video = [], audio = [], text_tracks = [],
                 menu = []\<rparr>, currentSection = [], trackIndex = - 1\<rparr>"

text \<open>The body of \<open>for (const line of lines)\<close>.  An assignment to a property of
  \<open>result.video[trackIndex]\<close> raises a \<open>TypeError\<close> when that element is \<open>undefined\<close>;
  this is the only place where the body can raise.\<close>

definition headerLine :: "scan \<Rightarrow> string \<Rightarrow> scan" where
  "headerLine s name =
     (let sec = toLowerCase name;
          r = result s;
          r' = (if sec = ''video'' then r\<lparr>video := video r @ [emptyVideo]\<rparr>
                else if sec = ''audio'' then r\<lparr>audio := audio r @ [emptyAudio]\<rparr>
                else if sec = ''text'' then r\<lparr>text_tracks := text_tracks r @ [emptyText]\<rparr>
                else r);
          idx = (if sec = ''general'' \<or> sec = ''menu'' then - 1
                 else if sec = ''video'' then int (length (video r')) - 1
                 else if sec = ''audio'' then int (length (audio r')) - 1
                 else int (length (text_tracks r')) - 1)
      in \<lparr>result = r', currentSection = sec, trackIndex = idx\<rparr>)"

definition chapterLine :: "scan \<Rightarrow> string \<Rightarrow> scan" where
  "chapterLine s line =
     (case chapterMatch line of
        None \<Rightarrow> s
      | Some (g1, g2) \<Rightarrow>
          (let timeParts = split_time g1;
               timestamp =
                 js_add (js_add (js_add
                   (js_mul (parseInt (nth_opt timeParts 0)) (Num 3600000))
                   (js_mul (parseInt (nth_opt timeParts 1)) (Num 60000)))
                   (js_mul (parseInt (nth_opt timeParts 2)) (Num 1000)))
                   (parseInt (nth_opt timeParts 3));
               r = result s
           in s\<lparr>result := r\<lparr>menu := menu r @ [\<lparr>c_timestamp = timestamp, c_title = trim g2\<rparr>]\<rparr>\<rparr>))"

definition assignAt :: "'a list \<Rightarrow> int \<Rightarrow> ('a \<Rightarrow> 'a) \<Rightarrow> error + 'a list" where
  "assignAt tracks i f =
     (case nth_opt tracks (nat i) of
        None \<Rightarrow> Inl TypeError
      | Some target \<Rightarrow> Inr (tracks[nat i := f target]))"

definition keyValueLine :: "scan \<Rightarrow> string \<Rightarrow> string \<Rightarrow> error + scan" where
  "keyValueLine s key value =
     (let r = result s in
      if currentSection s = ''general'' then
        (case generalAssign key value of
           None \<Rightarrow> Inr s
         | Some f \<Rightarrow> Inr (s\<lparr>result := r\<lparr>general := f (general r)\<rparr>\<rparr>))
      else if currentSection s = ''video'' \<and> 0 \<le> trackIndex s then
        (case videoAssign key value of
           None \<Rightarrow> Inr s
         | Some f \<Rightarrow>
             (case assignAt (video r) (trackIndex s) f of
                Inl e \<Rightarrow> Inl e
              | Inr ts \<Rightarrow> Inr (s\<lparr>result := r\<lparr>video := ts\<rparr>\<rparr>)))
      else if currentSection s = ''audio'' \<and> 0 \<le> trackIndex s then
        (case audioAssign key value of
           None \<Rightarrow> Inr s
         | Some f \<Rightarrow>
             (case assignAt (audio r) (trackIndex s) f of
                Inl e \<Rightarrow> Inl e
              | Inr ts \<Rightarrow> Inr (s\<lparr>result := r\<lparr>audio := ts\<rparr>\<rparr>)))
      else if currentSection s = ''text'' \<and> 0 \<le> trackIndex s then
        (case textAssign key value of
           None \<Rightarrow> Inr s
         | Some f \<Rightarrow>
             (case assignAt (text_tracks r) (trackIndex s) f of
                Inl e \<Rightarrow> Inl e
              | Inr ts \<Rightarrow> Inr (s\<lparr>result := r\<lparr>text_tracks := ts\<rparr>\<rparr>)))
      else Inr s)"

definition parseLine :: "scan \<Rightarrow> string \<Rightarrow> error + scan" where
  "parseLine s line =
     (if trim line = [] then Inr (s\<lparr>currentSection := []\<rparr>)
      else
        (case sectionMatch line of
           Some name \<Rightarrow> Inr (headerLine s name)
         | None \<Rightarrow>
             if currentSection s = ''menu'' then Inr (chapterLine s line)
             else
               (case keyValueMatch line of
                  None \<Rightarrow> Inr s
                | Some (key, value) \<Rightarrow> keyValueLine s key value)))"

fun parseLines :: "scan \<Rightarrow> string list \<Rightarrow> error + scan" where
  "parseLines s [] = Inr s"
| "parseLines s (line # lines) =
     (case parseLine s line of Inl e \<Rightarrow> Inl e | Inr s' \<Rightarrow> parseLines s' lines)"

definition parseMediaInfo :: "string \<Rightarrow> error + MediaInfo" where
  "parseMediaInfo text =
     (case parseLines initial (split (CHR 0x0A) text) of
        Inl e \<Rightarrow> Inl e
      | Inr s \<Rightarrow> Inr (result s))"

section \<open>Sample inputs\<close>

text \<open>\<open>unlines\<close> writes a report down line by line, each line closed by LF.\<close>

definition unlines :: "string list \<Rightarrow> string" where
  "unlines ls = concat (map (\<lambda>l. l @ [CHR 0x0A]) ls)"

definition sample_text :: string where
  "sample_text = unlines
     [''General'',
      ''Complete name : /path/to/video.mp4'',
      ''File size : 1.50 GiB'',
      ''Duration : 1 h 45 min 30 s'',
      [],
      ''Video'',
      ''Width : 1 920 pixels'',
      ''Height : 1 080 pixels'',
      ''Frame rate : 23.976 FPS'']"

section \<open>Notions used in the statements\<close>

text \<open>The keys each \<open>switch\<close> of the source has a \<open>case\<close> for.\<close>

definition general_keys :: "string list" where
  "general_keys = [''Unique ID'', ''Complete name'', ''Format'', ''Format version'',
     ''File size'', ''Duration'', ''Overall bit rate mode'', ''Overall bit rate'',
     ''Frame rate'', ''Encoded date'', ''Writing application'', ''Writing library'',
     ''Attachments'']"

definition video_keys :: "string list" where
  "video_keys = [''ID'', ''Format'', ''Format/Info'', ''Format profile'',
     ''Format settings'', ''Format settings, CABAC'',
     ''Format settings, Reference frames'', ''Codec ID'', ''Duration'', ''Bit rate mode'',
     ''Bit rate'', ''Maximum bit rate'', ''Width'', ''Height'', ''Display aspect ratio'',
     ''Frame rate mode'', ''Frame rate'', ''Color space'', ''Chroma subsampling'',
     ''Bit depth'', ''Scan type'', ''Bits/(Pixel*Frame)'', ''Stream size'', ''Default'',
     ''Forced'']"

definition audio_keys :: "string list" where
  "audio_keys = [''ID'', ''Format'', ''Format settings'', ''Codec ID'', ''Duration'',
     ''Bit rate mode'', ''Bit rate'', ''Channel(s)'', ''Sampling rate'', ''Frame rate'',
     ''Bit depth'', ''Stream size'', ''Title'', ''Language'', ''Default'', ''Forced'']"

definition text_keys :: "string list" where
  "text_keys = [''ID'', ''Format'', ''Codec ID'', ''Codec ID/Info'', ''Duration'',
     ''Bit rate'', ''Frame rate'', ''Count of elements'', ''Compression mode'',
     ''Stream size'', ''Title'', ''Language'', ''Default'', ''Forced'']"

text \<open>The scan state is consistent when, inside a track section, the track index points
  at the last track of that section's sequence.\<close>

definition wf_scan :: "scan \<Rightarrow> bool" where
  "wf_scan s =
     ((currentSection s = ''video'' \<longrightarrow>
         video (result s) \<noteq> [] \<and> trackIndex s = int (length (video (result s))) - 1) \<and>
      (currentSection s = ''audio'' \<longrightarrow>
         audio (result s) \<noteq> [] \<and> trackIndex s = int (length (audio (result s))) - 1) \<and>
      (currentSection s = ''text'' \<longrightarrow>
         text_tracks (result s) \<noteq> [] \<and>
         trackIndex s = int (length (text_tracks (result s))) - 1))"

text \<open>The keys recognised in a section, and the section in effect after some lines of a
  report have been scanned.\<close>

definition vocabulary :: "string \<Rightarrow> string list" where
  "vocabulary sec =
     (if sec = ''general'' then general_keys
      else if sec = ''video'' then video_keys
      else if sec = ''audio'' then audio_keys
      else if sec = ''text'' then text_keys
      else [])"

definition sectionAt :: "string list \<Rightarrow> string" where
  "sectionAt pre = (case parseLines initial pre of Inl e \<Rightarrow> [] | Inr s \<Rightarrow> currentSection s)"

text \<open>The text after the last colon of a line.\<close>

definition after_last_colon :: "string \<Rightarrow> string" where
  "after_last_colon s = rev (takeWhile (\<lambda>c. c \<noteq> CHR '':'') (rev s))"

text \<open>Durations and sizes as the specification words them: the factor of a unit token,
  the duration string written from its tokens, and base and power of a size unit.\<close>

definition duration_factor :: "string \<Rightarrow> nat" where
  "duration_factor u =
     (if startsWith ''h'' u then 3600000
      else if startsWith ''min'' u then 60000
      else if startsWith ''s'' u then 1000
      else if startsWith ''ms'' u then 1
      else 0)"

definition join_words :: "string list \<Rightarrow> string" where
  "join_words ws =
     (case ws of [] \<Rightarrow> [] | w # ws' \<Rightarrow> w @ concat (map (\<lambda>x. CHR '' '' # x) ws'))"

definition duration_tokens :: "(string \<times> string) list \<Rightarrow> string list" where
  "duration_tokens pairs = concat (map (\<lambda>(n, u). [n, u]) pairs)"



text \<open>
  Blocks of a report.  The body of a block is what follows its header up to the next blank
  line or header; \<open>sectionBodies name\<close> lists the bodies of the blocks whose header
  carries \<open>name\<close>, in the order of the headers.  \<open>applyVideo\<close>, \<open>applyAudio\<close> and
  \<open>applyText\<close> are what one line of a body does to the track of its block.
\<close>

definition sectionBody :: "string list \<Rightarrow> string list" where
  "sectionBody ls = takeWhile (\<lambda>l. trim l \<noteq> [] \<and> sectionMatch l = None) ls"

fun sectionBodies :: "string \<Rightarrow> string list \<Rightarrow> string list list" where
  "sectionBodies name [] = []"
| "sectionBodies name (l # ls) =
     (if sectionMatch l = Some name then sectionBody ls # sectionBodies name ls
      else sectionBodies name ls)"

definition applyVideo :: "string \<Rightarrow> VideoTrack \<Rightarrow> VideoTrack" where
  "applyVideo l =
     (case keyValueMatch l of
        None \<Rightarrow> id
      | Some (k, v) \<Rightarrow> (case videoAssign k v of None \<Rightarrow> id | Some f \<Rightarrow> f))"

definition applyAudio :: "string \<Rightarrow> AudioTrack \<Rightarrow> AudioTrack" where
  "applyAudio l =
     (case keyValueMatch l of
        None \<Rightarrow> id
      | Some (k, v) \<Rightarrow> (case audioAssign k v of None \<Rightarrow> id | Some f \<Rightarrow> f))"

definition applyText :: "string \<Rightarrow> TextTrack \<Rightarrow> TextTrack" where
  "applyText l =
     (case keyValueMatch l of
        None \<Rightarrow> id
      | Some (k, v) \<Rightarrow> (case textAssign k v of None \<Rightarrow> id | Some f \<Rightarrow> f))"

text \<open>The scan seen from one track sequence: what a line does to the section in effect
  and to the sequence of the tracks of one kind.\<close>

definition upd_last :: "('a \<Rightarrow> 'a) \<Rightarrow> 'a list \<Rightarrow> 'a list" where
  "upd_last f xs = butlast xs @ [f (last xs)]"

definition next_section :: "string \<Rightarrow> string \<Rightarrow> string" where
  "next_section sec l =
     (if trim l = [] then []
      else (case sectionMatch l of None \<Rightarrow> sec | Some n \<Rightarrow> toLowerCase n))"

definition track_step ::
  "string \<Rightarrow> 'a \<Rightarrow> (string \<Rightarrow> 'a \<Rightarrow> 'a) \<Rightarrow> string \<Rightarrow> string \<Rightarrow> 'a list \<Rightarrow> 'a list" where
  "track_step name fresh app sec l ts =
     (if trim l = [] then ts
      else (case sectionMatch l of
              Some n \<Rightarrow> if n = name then ts @ [fresh] else ts
            | None \<Rightarrow> if sec = toLowerCase name then upd_last (app l) ts else ts))"

fun run_tracks ::
  "string \<Rightarrow> 'a \<Rightarrow> (string \<Rightarrow> 'a \<Rightarrow> 'a) \<Rightarrow> string \<Rightarrow> string list \<Rightarrow> 'a list \<Rightarrow> 'a list" where
  "run_tracks name fresh app sec [] ts = ts"
| "run_tracks name fresh app sec (l # ls) ts =
     run_tracks name fresh app (next_section sec l) ls (track_step name fresh app sec l ts)"

text \<open>The scan state after a write to the general record, and after a write to the track
  that the track index points at (\<open>result.video[trackIndex]\<close> and its like).\<close>

definition in_general :: "scan \<Rightarrow> (GeneralTrack \<Rightarrow> GeneralTrack) \<Rightarrow> scan" where
  "in_general s f = s\<lparr>result := (result s)\<lparr>general := f (general (result s))\<rparr>\<rparr>"

definition in_video :: "scan \<Rightarrow> (VideoTrack \<Rightarrow> VideoTrack) \<Rightarrow> scan" where
  "in_video s f =
     s\<lparr>result := (result s)\<lparr>video :=
         (video (result s))[nat (trackIndex s) := f (video (result s) ! nat (trackIndex s))]\<rparr>\<rparr>"

definition in_audio :: "scan \<Rightarrow> (AudioTrack \<Rightarrow> AudioTrack) \<Rightarrow> scan" where
  "in_audio s f =
     s\<lparr>result := (result s)\<lparr>audio :=
         (audio (result s))[nat (trackIndex s) := f (audio (result s) ! nat (trackIndex s))]\<rparr>\<rparr>"

definition in_text :: "scan \<Rightarrow> (TextTrack \<Rightarrow> TextTrack) \<Rightarrow> scan" where
  "in_text s f =
     s\<lparr>result := (result s)\<lparr>text_tracks :=
         (text_tracks (result s))[nat (trackIndex s) :=
            f (text_tracks (result s) ! nat (trackIndex s))]\<rparr>\<rparr>"

section \<open>Basic facts\<close>

subsection \<open>Rounding to a double\<close>

lemma ilog2_bounds:
  assumes "0 < a"
  shows "2 powi ilog2 a \<le> a \<and> a < 2 powi (ilog2 a + 1)"
proof -
  obtain n d where nd: "quotient_of a = (n, d)" by (cases "quotient_of a")
  then have d: "0 < d" and a: "a = of_int n / of_int d"
    using quotient_of_denom_pos quotient_of_div by blast+
  with assms have n: "0 < n" by (simp add: zero_less_divide_iff)
  let ?bn = "floorlog 2 (nat n)" and ?bd = "floorlog 2 (nat d)"
  have bn: "2 ^ (?bn - 1) \<le> nat n" "nat n < 2 ^ ?bn"
    using floorlog_bounds[of "nat n" 2] n by simp_all
  have bd: "2 ^ (?bd - 1) \<le> nat d" "nat d < 2 ^ ?bd"
    using floorlog_bounds[of "nat d" 2] d by simp_all
  have bnp: "0 < ?bn" and bdp: "0 < ?bd"
    using n d floorlog_eq_zero_iff[of 2 "nat n"] floorlog_eq_zero_iff[of 2 "nat d"] by auto
  have rn: "(2::rat) ^ (?bn - 1) \<le> of_int n" "of_int n < (2::rat) ^ ?bn"
  proof -
    have "of_nat (2 ^ (?bn - 1)) \<le> (of_nat (nat n) :: rat)" using bn(1) of_nat_le_iff by blast
    then show "(2::rat) ^ (?bn - 1) \<le> of_int n" using n by simp
    have "(of_nat (nat n) :: rat) < of_nat (2 ^ ?bn)" using bn(2) of_nat_less_iff by blast
    then show "of_int n < (2::rat) ^ ?bn" using n by simp
  qed
  have rd: "(2::rat) ^ (?bd - 1) \<le> of_int d" "of_int d < (2::rat) ^ ?bd"
  proof -
    have "of_nat (2 ^ (?bd - 1)) \<le> (of_nat (nat d) :: rat)" using bd(1) of_nat_le_iff by blast
    then show "(2::rat) ^ (?bd - 1) \<le> of_int d" using d by simp
    have "(of_nat (nat d) :: rat) < of_nat (2 ^ ?bd)" using bd(2) of_nat_less_iff by blast
    then show "of_int d < (2::rat) ^ ?bd" using d by simp
  qed
  let ?e0 = "int ?bn - int ?bd"
  obtain kn where kn: "?bn = Suc kn" using bnp by (cases ?bn) auto
  obtain kd where kd: "?bd = Suc kd" using bdp by (cases ?bd) auto
  have dpos: "(0::rat) < of_int d" using d by simp
  have e1: "?e0 - 1 = int kn - int (Suc kd)" and e2: "?e0 + 1 = int (Suc kn) - int kd"
    by (simp_all add: kn kd)
  have low: "2 powi (?e0 - 1) \<le> a"
  proof -
    have "(2::rat) powi (?e0 - 1) = 2 powi int kn / 2 powi int (Suc kd)"
      unfolding e1 by (rule power_int_diff) simp
    also have "\<dots> = 2 ^ kn / 2 ^ Suc kd"
      by (simp only: power_int_of_nat)
    also have "\<dots> \<le> of_int n / of_int d"
      using rn(1) rd(2) dpos n by (intro frac_le) (simp_all add: kn kd)
    finally show ?thesis by (simp add: a)
  qed
  have high: "a < 2 powi (?e0 + 1)"
  proof -
    have "a = of_int n / of_int d" by (rule a)
    also have "\<dots> < 2 ^ Suc kn / 2 ^ kd"
      using rn(2) rd(1) dpos n by (intro frac_less) (simp_all add: kn kd)
    also have "\<dots> = 2 powi int (Suc kn) / 2 powi int kd"
      by (simp only: power_int_of_nat)
    also have "\<dots> = (2::rat) powi (?e0 + 1)"
      unfolding e2 by (rule power_int_diff [symmetric]) simp
    finally show ?thesis .
  qed
  have il: "ilog2 a = (if a < 2 powi ?e0 then ?e0 - 1 else ?e0)"
    by (simp add: ilog2_def nd Let_def)
  show ?thesis
  proof (cases "a < 2 powi ?e0")
    case True
    then show ?thesis using low by (simp add: il)
  next
    case False
    then show ?thesis using high by (simp add: il)
  qed
qed

lemma ilog2_eqI:
  assumes "0 < a" and "2 powi e \<le> a" and "a < 2 powi (e + 1)"
  shows "ilog2 a = e"
proof (rule ccontr)
  assume ne: "ilog2 a \<noteq> e"
  note b = ilog2_bounds[OF assms(1)]
  show False
  proof (cases "ilog2 a < e")
    case True
    then have "(2::rat) powi (ilog2 a + 1) \<le> 2 powi e"
      by (intro power_int_increasing) simp_all
    then show False using b assms(2) by simp
  next
    case False
    with ne have "e + 1 \<le> ilog2 a" by simp
    then have "(2::rat) powi (e + 1) \<le> 2 powi ilog2 a"
      by (intro power_int_increasing) simp_all
    then show False using b assms(3) by simp
  qed
qed


lemma powi_less_cancel:
  assumes "(2::rat) powi a < 2 powi b"
  shows "a < b"
proof (rule ccontr)
  assume "\<not> a < b"
  then have "(2::rat) powi b \<le> 2 powi a"
    by (intro power_int_increasing) simp_all
  with assms show False by simp
qed

lemma round_even_int: "round_even (of_int z) = z"
  by (simp add: round_even_def)

lemma round_even_near:
  assumes "of_int m - 1 / 2 < x" and "x < of_int m + 1 / 2"
  shows "round_even x = m"
proof (cases "of_int m \<le> x")
  case True
  then have f: "\<lfloor>x\<rfloor> = m" using assms(2) by (simp add: floor_eq_iff)
  show ?thesis using assms(2) by (simp add: round_even_def f)
next
  case False
  then have f: "\<lfloor>x\<rfloor> = m - 1" using assms(1) by (simp add: floor_eq_iff)
  show ?thesis using assms(1) by (simp add: round_even_def f)
qed

lemma round_even_tie:
  assumes "x = of_int m + 1 / 2"
  shows "round_even x = (if even m then m else m + 1)"
proof -
  have f: "\<lfloor>x\<rfloor> = m" using assms by (simp add: floor_eq_iff)
  have d: "x - of_int m = 1 / 2" using assms by simp
  show ?thesis unfolding round_even_def Let_def f d by simp
qed

lemma to_double_dyadic:
  assumes m: "0 < m" "m < 2 ^ 53" and k: "- 1074 \<le> k" "k \<le> 970"
  shows "to_double (of_int m * 2 powi k) = Num (of_int m * 2 powi k)"
proof -
  let ?q = "of_int m * (2::rat) powi k"
  have qpos: "0 < ?q" using m(1) by (simp add: zero_less_mult_iff)
  let ?e = "ilog2 ?q"
  note b = ilog2_bounds[OF qpos]
  have "?q < 2 ^ 53 * 2 powi k"
  proof -
    have "(of_int m :: rat) < of_int (2 ^ 53)" using m(2) by (simp only: of_int_less_iff)
    then show ?thesis by (simp add: mult_strict_right_mono)
  qed
  also have "\<dots> = (2::rat) powi (53 + k)"
    by (subst power_int_add) simp_all
  finally have up: "?q < 2 powi (53 + k)" .
  with b have "(2::rat) powi ?e < 2 powi (53 + k)" by simp
  then have e: "?e < 53 + k" by (rule powi_less_cancel)
  define p where "p = max (?e - 52) (- 1074)"
  have pk: "p \<le> k" using e k(1) by (simp add: p_def)
  have "?q / 2 powi p = of_int m * 2 powi (k - p)"
    by (simp add: power_int_diff)
  also have "\<dots> = of_int m * 2 ^ nat (k - p)"
    using pk by (simp add: power_int_def)
  also have "\<dots> = of_int (m * 2 ^ nat (k - p))" by simp
  finally have quo: "?q / 2 powi p = of_int (m * 2 ^ nat (k - p))" .
  have "of_int (m * 2 ^ nat (k - p)) * (2::rat) powi p = ?q / 2 powi p * 2 powi p"
    by (simp only: quo)
  also have "\<dots> = ?q" by simp
  finally have r: "of_int (round_even (?q / 2 powi p)) * 2 powi p = ?q"
    unfolding quo round_even_int .
  have "(2::rat) powi (53 + k) \<le> 2 powi 1023"
    using k(2) by (intro power_int_increasing) simp_all
  with up have small: "?q < 2 ^ 1024" by simp
  have "to_double ?q = Num ?q"
    unfolding to_double_def Let_def
    using qpos small r by (simp add: p_def abs_of_pos)
  then show ?thesis .
qed

lemma to_double_normal:
  assumes q: "2 powi e \<le> q" "q < 2 powi (e + 1)" and e: "- 1022 \<le> e" "e \<le> 1022"
    and m: "of_int m - 1 / 2 < q / 2 powi (e - 52)" "q / 2 powi (e - 52) < of_int m + 1 / 2"
  shows "to_double q = Num (of_int m * 2 powi (e - 52))"
proof -
  have "(0::rat) < 2 powi e" by (rule zero_less_power_int) simp
  then have qpos: "0 < q" using q(1) by (rule less_le_trans)
  have il: "ilog2 q = e" by (rule ilog2_eqI[OF qpos q])
  have p: "max (e - 52) (- 1074) = e - 52" using e(1) by simp
  have re: "round_even (q / 2 powi (e - 52)) = m" by (rule round_even_near[OF m])
  have "q / 2 powi (e - 52) < 2 powi (e + 1) / 2 powi (e - 52)"
    using q(2) by (simp add: divide_strict_right_mono)
  also have "\<dots> = 2 powi 53"
    by (subst power_int_diff [symmetric]) simp_all
  finally have "of_int m - 1 / 2 < (2::rat) ^ 53" using m(1) by simp
  then have "(of_int m :: rat) < of_int (2 ^ 53 + 1)" by simp
  then have "m < 2 ^ 53 + 1" by (simp only: of_int_less_iff)
  then have "m \<le> 2 ^ 53" by simp
  then have "(of_int m :: rat) \<le> of_int (2 ^ 53)" by (simp only: of_int_le_iff)
  then have "of_int m * (2::rat) powi (e - 52) \<le> 2 ^ 53 * 2 powi (e - 52)"
    by (simp add: mult_right_mono)
  also have "\<dots> = (2::rat) powi (53 + (e - 52))"
    by (subst power_int_add) simp_all
  also have "\<dots> \<le> 2 powi 1023"
    using e(2) by (intro power_int_increasing) simp_all
  finally have small: "of_int m * (2::rat) powi (e - 52) < 2 ^ 1024" by simp
  show ?thesis
    unfolding to_double_def Let_def
    using qpos small by (simp add: abs_of_pos il p re)
qed

lemma to_double_tie:
  assumes q: "2 powi e \<le> q" "q < 2 powi (e + 1)" and e: "- 1022 \<le> e" "e \<le> 1022"
    and m: "q / 2 powi (e - 52) = of_int m + 1 / 2"
  shows "to_double q = Num (of_int (if even m then m else m + 1) * 2 powi (e - 52))"
proof -
  let ?m = "if even m then m else m + 1"
  have "(0::rat) < 2 powi e" by (rule zero_less_power_int) simp
  then have qpos: "0 < q" using q(1) by (rule less_le_trans)
  have il: "ilog2 q = e" by (rule ilog2_eqI[OF qpos q])
  have p: "max (e - 52) (- 1074) = e - 52" using e(1) by simp
  have re: "round_even (q / 2 powi (e - 52)) = ?m" by (rule round_even_tie[OF m])
  have "q / 2 powi (e - 52) < 2 powi (e + 1) / 2 powi (e - 52)"
    using q(2) by (simp add: divide_strict_right_mono)
  also have "\<dots> = 2 powi 53"
    by (subst power_int_diff [symmetric]) simp_all
  finally have "(of_int m :: rat) < 2 ^ 53" using m by simp
  then have "(of_int m :: rat) < of_int (2 ^ 53)" by simp
  then have "m < 2 ^ 53" by (simp only: of_int_less_iff)
  then have "?m \<le> 2 ^ 53" by simp
  then have "(of_int ?m :: rat) \<le> of_int (2 ^ 53)" by (simp only: of_int_le_iff)
  then have "of_int ?m * (2::rat) powi (e - 52) \<le> 2 ^ 53 * 2 powi (e - 52)"
    by (simp add: mult_right_mono)
  also have "\<dots> = (2::rat) powi (53 + (e - 52))"
    by (subst power_int_add) simp_all
  also have "\<dots> \<le> 2 powi 1023"
    using e(2) by (intro power_int_increasing) simp_all
  finally have small: "of_int ?m * (2::rat) powi (e - 52) < 2 ^ 1024" by simp
  show ?thesis
    unfolding to_double_def Let_def
    using qpos small by (simp add: abs_of_pos il p re)
qed

lemma to_double_nat:
  assumes "n \<le> 2 ^ 53"
  shows "to_double (of_nat n) = Num (of_nat n)"
proof -
  consider "n = 0" | "0 < n" "n < 2 ^ 53" | "n = 2 ^ 53" using assms by fastforce
  then show ?thesis
  proof cases
    case 1
    then show ?thesis by (simp add: to_double_def)
  next
    case 2
    then have "0 < int n" "int n < 2 ^ 53" by simp_all
    from to_double_dyadic[OF this, of 0] show ?thesis by simp
  next
    case 3
    from to_double_dyadic[of 1 53] show ?thesis by (simp add: 3)
  qed
qed

lemma to_double_numeral [simp]:
  "numeral k \<le> (9007199254740992::nat) \<Longrightarrow> to_double (numeral k) = Num (numeral k)"
  using to_double_nat[of "numeral k"] by simp

lemma to_double_0 [simp]: "to_double 0 = Num 0"
  by (simp add: to_double_def)

lemma to_double_1 [simp]: "to_double 1 = Num 1"
  using to_double_nat[of 1] by simp

lemma js_mul_nat:
  assumes "a * b \<le> 2 ^ 53"
  shows "js_mul (Num (of_nat a)) (Num (of_nat b)) = Num (of_nat (a * b))"
  using to_double_nat[OF assms] by simp

lemma js_add_nat:
  assumes "a + b \<le> 2 ^ 53"
  shows "js_add (Num (of_nat a)) (Num (of_nat b)) = Num (of_nat (a + b))"
  using to_double_nat[OF assms] by simp

lemma timestamp_exact:
  assumes "H < 100" and "M < 100" and "S < 100" and "X < 1000"
  shows "js_add (js_add (js_add (js_mul (Num (of_nat H)) (Num 3600000))
                                (js_mul (Num (of_nat M)) (Num 60000)))
                        (js_mul (Num (of_nat S)) (Num 1000)))
                (Num (of_nat X)) =
         Num (of_nat H * 3600000 + of_nat M * 60000 + of_nat S * 1000 + of_nat X)"
proof -
  have 1: "js_mul (Num (of_nat H)) (Num 3600000) = Num (of_nat (H * 3600000))"
    using js_mul_nat[of H 3600000] assms(1) by simp
  have 2: "js_mul (Num (of_nat M)) (Num 60000) = Num (of_nat (M * 60000))"
    using js_mul_nat[of M 60000] assms(2) by simp
  have 3: "js_mul (Num (of_nat S)) (Num 1000) = Num (of_nat (S * 1000))"
    using js_mul_nat[of S 1000] assms(3) by simp
  have 4: "js_add (Num (of_nat (H * 3600000))) (Num (of_nat (M * 60000))) =
      Num (of_nat (H * 3600000 + M * 60000))"
    using assms(1,2) by (intro js_add_nat) simp
  have 5: "js_add (Num (of_nat (H * 3600000 + M * 60000))) (Num (of_nat (S * 1000))) =
      Num (of_nat (H * 3600000 + M * 60000 + S * 1000))"
    using assms(1,2,3) by (intro js_add_nat) simp
  have 6: "js_add (Num (of_nat (H * 3600000 + M * 60000 + S * 1000))) (Num (of_nat X)) =
      Num (of_nat (H * 3600000 + M * 60000 + S * 1000 + X))"
    using assms by (intro js_add_nat) simp
  show ?thesis unfolding 1 2 3 4 5 6 by simp
qed

lemma double_values:
  "to_double (3 / 2) = Num (3 / 2)"
  "to_double (2997 / 125) = Num (210895126300459 / 8796093022208)"
  "to_double (61 / 10) = Num (3433994715870003 / 562949953421312)"
  "to_double (1001 / 2000) = Num (2254051613498933 / 4503599627370496)"
  "to_double 9007199254740993 = Num 9007199254740992"
proof -
  show "to_double (3 / 2) = Num (3 / 2)"
    using to_double_dyadic[of 3 "- 1"] by simp
  show "to_double (2997 / 125) = Num (210895126300459 / 8796093022208)"
    using to_double_normal[of 4 "2997 / 125" 6748644041614688] by simp
  show "to_double (61 / 10) = Num (3433994715870003 / 562949953421312)"
    using to_double_normal[of 2 "61 / 10" 6867989431740006] by simp
  show "to_double (1001 / 2000) = Num (2254051613498933 / 4503599627370496)"
    using to_double_normal[of "- 1" "1001 / 2000" 4508103226997866] by simp
  show "to_double 9007199254740993 = Num 9007199254740992"
    using to_double_tie[of 53 9007199254740993 4503599627370496] by simp
qed


subsection \<open>Lists and matches\<close>

lemma split_not_Nil: "split sep s \<noteq> []"
  by (induction s) (auto split: list.splits)

lemma nth_opt_eq: "nth_opt xs i = (if i < length xs then Some (xs ! i) else None)"
proof (induction xs arbitrary: i)
  case Nil
  show ?case by simp
next
  case (Cons x xs)
  show ?case by (cases i) (simp_all add: Cons.IH)
qed

lemma assignAt_last:
  assumes "ts \<noteq> []" and "i = int (length ts) - 1"
  shows "assignAt ts i f = Inr (butlast ts @ [f (last ts)])"
proof -
  from assms have n: "nat i = length ts - 1" and lt: "nat i < length ts"
    by (cases ts; simp)+
  have "ts[length ts - 1 := f (last ts)] = butlast ts @ [f (last ts)]"
    using assms(1) by (induction ts) (auto split: nat.splits)
  moreover have "ts ! (length ts - 1) = last ts"
    using assms(1) by (simp add: last_conv_nth)
  ultimately show ?thesis
    using n lt by (simp add: assignAt_def nth_opt_eq)
qed

lemma parseLine_blank: "trim l = [] \<Longrightarrow> parseLine s l = Inr (s\<lparr>currentSection := []\<rparr>)"
  by (simp add: parseLine_def)

lemma parseLine_header:
  "trim l \<noteq> [] \<Longrightarrow> sectionMatch l = Some n \<Longrightarrow> parseLine s l = Inr (headerLine s n)"
  by (simp add: parseLine_def)

lemma parseLine_menu:
  "trim l \<noteq> [] \<Longrightarrow> sectionMatch l = None \<Longrightarrow> currentSection s = ''menu''
     \<Longrightarrow> parseLine s l = Inr (chapterLine s l)"
  by (simp add: parseLine_def)

lemma parseLine_other:
  "trim l \<noteq> [] \<Longrightarrow> sectionMatch l = None \<Longrightarrow> currentSection s \<noteq> ''menu''
     \<Longrightarrow> parseLine s l =
         (case keyValueMatch l of None \<Rightarrow> Inr s | Some (k, v) \<Rightarrow> keyValueLine s k v)"
  by (simp add: parseLine_def)

subsection \<open>The scan never raises\<close>

lemma lower_names:
  "toLowerCase ''General'' = ''general''" "toLowerCase ''Video'' = ''video''"
  "toLowerCase ''Audio'' = ''audio''" "toLowerCase ''Text'' = ''text''"
  "toLowerCase ''Menu'' = ''menu''"
  by code_simp+

lemma sectionMatch_SomeD:
  assumes "sectionMatch l = Some n"
  shows "n \<in> set section_names" and "startsWith n l" and "ordinal_suffix (drop (length n) l)"
  using assms unfolding sectionMatch_def find_Some_iff by auto

lemma sectionMatch_names:
  assumes "sectionMatch l = Some n"
  shows "n = ''General'' \<or> n = ''Video'' \<or> n = ''Audio'' \<or> n = ''Text'' \<or> n = ''Menu''"
  using sectionMatch_SomeD(1)[OF assms] by (simp add: section_names_def)

lemma headerLine_simps:
  "headerLine s ''General'' = \<lparr>result = result s, currentSection = ''general'', trackIndex = - 1\<rparr>"
  "headerLine s ''Menu'' = \<lparr>result = result s, currentSection = ''menu'', trackIndex = - 1\<rparr>"
  "headerLine s ''Video'' = \<lparr>result = (result s)\<lparr>video := video (result s) @ [emptyVideo]\<rparr>,
       currentSection = ''video'', trackIndex = int (length (video (result s)))\<rparr>"
  "headerLine s ''Audio'' = \<lparr>result = (result s)\<lparr>audio := audio (result s) @ [emptyAudio]\<rparr>,
       currentSection = ''audio'', trackIndex = int (length (audio (result s)))\<rparr>"
  "headerLine s ''Text'' = \<lparr>result = (result s)\<lparr>text_tracks := text_tracks (result s) @ [emptyText]\<rparr>,
       currentSection = ''text'', trackIndex = int (length (text_tracks (result s)))\<rparr>"
  by (simp_all add: headerLine_def lower_names Let_def)

lemma headerLine_wf: "sectionMatch l = Some n \<Longrightarrow> wf_scan (headerLine s n)"
  using sectionMatch_names[of l n] by (auto simp: headerLine_simps wf_scan_def)

lemma chapterLine_section: "currentSection (chapterLine s l) = currentSection s"
  by (simp add: chapterLine_def Let_def split: option.splits prod.splits)

lemma keyValueLine_wf:
  assumes "wf_scan s"
  shows "\<exists>s'. keyValueLine s k v = Inr s' \<and> wf_scan s' \<and> currentSection s' = currentSection s
            \<and> trackIndex s' = trackIndex s"
proof -
  consider (g) "currentSection s = ''general''" | (v) "currentSection s = ''video''"
    | (a) "currentSection s = ''audio''" | (t) "currentSection s = ''text''"
    | (o) "currentSection s \<notin> {''general'', ''video'', ''audio'', ''text''}" by auto
  then show ?thesis
  proof cases
    case g
    then show ?thesis using assms
      by (auto simp: keyValueLine_def Let_def wf_scan_def split: option.splits)
  next
    case v
    with assms have ne: "video (result s) \<noteq> []"
      and ix: "trackIndex s = int (length (video (result s))) - 1"
      by (simp_all add: wf_scan_def)
    from ne ix have "0 \<le> trackIndex s" by (cases "video (result s)") simp_all
    then show ?thesis using v ne ix
      by (auto simp: keyValueLine_def Let_def wf_scan_def assignAt_last split: option.splits)
  next
    case a
    with assms have ne: "audio (result s) \<noteq> []"
      and ix: "trackIndex s = int (length (audio (result s))) - 1"
      by (simp_all add: wf_scan_def)
    from ne ix have "0 \<le> trackIndex s" by (cases "audio (result s)") simp_all
    then show ?thesis using a ne ix
      by (auto simp: keyValueLine_def Let_def wf_scan_def assignAt_last split: option.splits)
  next
    case t
    with assms have ne: "text_tracks (result s) \<noteq> []"
      and ix: "trackIndex s = int (length (text_tracks (result s))) - 1"
      by (simp_all add: wf_scan_def)
    from ne ix have "0 \<le> trackIndex s" by (cases "text_tracks (result s)") simp_all
    then show ?thesis using t ne ix
      by (auto simp: keyValueLine_def Let_def wf_scan_def assignAt_last split: option.splits)
  next
    case o
    then show ?thesis using assms by (simp add: keyValueLine_def Let_def)
  qed
qed

lemma parseLine_wf:
  assumes "wf_scan s"
  shows "\<exists>s'. parseLine s l = Inr s' \<and> wf_scan s'"
proof (cases "trim l = []")
  case True
  then show ?thesis by (simp add: parseLine_blank wf_scan_def)
next
  case nb: False
  show ?thesis
  proof (cases "sectionMatch l")
    case (Some n)
    then show ?thesis using nb by (simp add: parseLine_header headerLine_wf)
  next
    case None
    show ?thesis
    proof (cases "currentSection s = ''menu''")
      case True
      then have "wf_scan (chapterLine s l)"
        by (simp add: wf_scan_def chapterLine_section)
      then show ?thesis using nb None True by (simp add: parseLine_menu)
    next
      case False
      show ?thesis
      proof (cases "keyValueMatch l")
        case None': None
        then show ?thesis using nb None False assms by (simp add: parseLine_other)
      next
        case (Some kv)
        obtain k v where "kv = (k, v)" by (cases kv)
        then show ?thesis using nb None False Some keyValueLine_wf[OF assms, of k v]
          by (auto simp: parseLine_other)
      qed
    qed
  qed
qed

lemma parseLines_wf: "wf_scan s \<Longrightarrow> \<exists>s'. parseLines s ls = Inr s' \<and> wf_scan s'"
proof (induction ls arbitrary: s)
  case Nil
  then show ?case by simp
next
  case (Cons l ls)
  from parseLine_wf[OF Cons.prems] obtain s1 where "parseLine s l = Inr s1" "wf_scan s1" by blast
  then show ?case using Cons.IH[of s1] by simp
qed

lemma wf_initial: "wf_scan initial"
  by (simp add: wf_scan_def initial_def)

lemma parse_total: "\<exists>r. parseMediaInfo t = Inr r"
  using parseLines_wf[OF wf_initial, of "split (CHR 0x0A) t"]
  by (auto simp: parseMediaInfo_def)

subsection \<open>The field mappers, key by key\<close>

lemma generalAssign_keys:
  "generalAssign ''Unique ID'' value = Some (\<lambda>target. target\<lparr>g_uniqueId := Some value\<rparr>)"
  "generalAssign ''Complete name'' value = Some (\<lambda>target. target\<lparr>g_completeName := Some value\<rparr>)"
  "generalAssign ''Format'' value = Some (\<lambda>target. target\<lparr>g_format := Some value\<rparr>)"
  "generalAssign ''Format version'' value = Some (\<lambda>target. target\<lparr>g_formatVersion := Some value\<rparr>)"
  "generalAssign ''File size'' value = Some (\<lambda>target. target\<lparr>g_fileSize := Some (parseSize value)\<rparr>)"
  "generalAssign ''Duration'' value = Some (\<lambda>target. target\<lparr>g_duration := Some (parseDuration value)\<rparr>)"
  "generalAssign ''Overall bit rate mode'' value = Some (\<lambda>target. target\<lparr>g_overallBitRateMode := Some value\<rparr>)"
  "generalAssign ''Overall bit rate'' value = Some (\<lambda>target. target\<lparr>g_overallBitRate := Some (parseBitRate value)\<rparr>)"
  "generalAssign ''Frame rate'' value = Some (\<lambda>target. target\<lparr>g_frameRate := Some (parseFloat value)\<rparr>)"
  "generalAssign ''Encoded date'' value = Some (\<lambda>target. target\<lparr>g_encodedDate := Some (parseDate value)\<rparr>)"
  "generalAssign ''Writing application'' value = Some (\<lambda>target. target\<lparr>g_writingApplication := Some value\<rparr>)"
  "generalAssign ''Writing library'' value = Some (\<lambda>target. target\<lparr>g_writingLibrary := Some value\<rparr>)"
  "generalAssign ''Attachments'' value = Some (\<lambda>target. target\<lparr>g_attachments := Some value\<rparr>)"
  by (simp_all add: generalAssign_def split: option.splits)

lemma generalAssign_unknown: "key \<notin> set general_keys \<Longrightarrow> generalAssign key value = None"
  by (simp add: generalAssign_def general_keys_def)

lemma videoAssign_keys:
  "videoAssign ''ID'' value = Some (\<lambda>target. target\<lparr>v_id := Some (parseInt10 value)\<rparr>)"
  "videoAssign ''Format'' value = Some (\<lambda>target. target\<lparr>v_format := Some value\<rparr>)"
  "videoAssign ''Format/Info'' value = Some (\<lambda>target. target\<lparr>v_formatInfo := Some value\<rparr>)"
  "videoAssign ''Format profile'' value = Some (\<lambda>target. target\<lparr>v_formatProfile := Some value\<rparr>)"
  "videoAssign ''Format settings'' value = Some (\<lambda>target. target\<lparr>v_formatSettings := Some value\<rparr>)"
  "videoAssign ''Format settings, CABAC'' value = Some (\<lambda>target. target\<lparr>v_formatSettingsCabac := Some value\<rparr>)"
  "videoAssign ''Format settings, Reference frames'' value = Some (\<lambda>target. target\<lparr>v_formatSettingsReferenceFrames := Some value\<rparr>)"
  "videoAssign ''Codec ID'' value = Some (\<lambda>target. target\<lparr>v_codecId := Some value\<rparr>)"
  "videoAssign ''Duration'' value = Some (\<lambda>target. target\<lparr>v_duration := Some (parseDuration value)\<rparr>)"
  "videoAssign ''Bit rate mode'' value = Some (\<lambda>target. target\<lparr>v_bitRateMode := Some value\<rparr>)"
  "videoAssign ''Bit rate'' value = Some (\<lambda>target. target\<lparr>v_bitRate := Some (parseBitRate value)\<rparr>)"
  "videoAssign ''Maximum bit rate'' value = Some (\<lambda>target. target\<lparr>v_maximumBitRate := Some (parseBitRate value)\<rparr>)"
  "videoAssign ''Width'' value = Some (\<lambda>target. target\<lparr>v_width := Some (parseInt10 (filter (\<lambda>c. \<not> js_space c) value))\<rparr>)"
  "videoAssign ''Height'' value = Some (\<lambda>target. target\<lparr>v_height := Some (parseInt10 (filter (\<lambda>c. \<not> js_space c) value))\<rparr>)"
  "videoAssign ''Display aspect ratio'' value = Some (\<lambda>target. target\<lparr>v_displayAspectRatio := Some value\<rparr>)"
  "videoAssign ''Frame rate mode'' value = Some (\<lambda>target. target\<lparr>v_frameRateMode := Some value\<rparr>)"
  "videoAssign ''Frame rate'' value = Some (\<lambda>target. target\<lparr>v_frameRate := Some (parseFloat value)\<rparr>)"
  "videoAssign ''Color space'' value = Some (\<lambda>target. target\<lparr>v_colorSpace := Some value\<rparr>)"
  "videoAssign ''Chroma subsampling'' value = Some (\<lambda>target. target\<lparr>v_chromaSubsampling := Some value\<rparr>)"
  "videoAssign ''Bit depth'' value = Some (\<lambda>target. target\<lparr>v_bitDepth := Some (parseInt10 value)\<rparr>)"
  "videoAssign ''Scan type'' value = Some (\<lambda>target. target\<lparr>v_scanType := Some value\<rparr>)"
  "videoAssign ''Bits/(Pixel*Frame)'' value = Some (\<lambda>target. target\<lparr>v_bitsPerPixelFrame := Some (parseFloat value)\<rparr>)"
  "videoAssign ''Stream size'' value =
     map_option (\<lambda>m target. target\<lparr>v_streamSize := Some (parseSize m)\<rparr>) (sizeMatch value)"
  "videoAssign ''Default'' value = Some (\<lambda>target. target\<lparr>v_default := Some (toLowerCase value = ''yes'')\<rparr>)"
  "videoAssign ''Forced'' value = Some (\<lambda>target. target\<lparr>v_forced := Some (toLowerCase value = ''yes'')\<rparr>)"
  by (simp_all add: videoAssign_def split: option.splits)

lemma videoAssign_unknown: "key \<notin> set video_keys \<Longrightarrow> videoAssign key value = None"
  by (simp add: videoAssign_def video_keys_def)

lemma audioAssign_keys:
  "audioAssign ''ID'' value = Some (\<lambda>target. target\<lparr>a_id := Some (parseInt10 value)\<rparr>)"
  "audioAssign ''Format'' value = Some (\<lambda>target. target\<lparr>a_format := Some value\<rparr>)"
  "audioAssign ''Format settings'' value = Some (\<lambda>target. target\<lparr>a_formatSettings := Some value\<rparr>)"
  "audioAssign ''Codec ID'' value = Some (\<lambda>target. target\<lparr>a_codecId := Some value\<rparr>)"
  "audioAssign ''Duration'' value = Some (\<lambda>target. target\<lparr>a_duration := Some (parseDuration value)\<rparr>)"
  "audioAssign ''Bit rate mode'' value = Some (\<lambda>target. target\<lparr>a_bitRateMode := Some value\<rparr>)"
  "audioAssign ''Bit rate'' value = Some (\<lambda>target. target\<lparr>a_bitRate := Some (parseBitRate value)\<rparr>)"
  "audioAssign ''Channel(s)'' value = Some (\<lambda>target. target\<lparr>a_channels := Some (parseInt10 value)\<rparr>)"
  "audioAssign ''Sampling rate'' value = Some (\<lambda>target. target\<lparr>a_samplingRate := Some (parseFrequency value)\<rparr>)"
  "audioAssign ''Frame rate'' value = Some (\<lambda>target. target\<lparr>a_frameRate := Some (parseFloat value)\<rparr>)"
  "audioAssign ''Bit depth'' value = Some (\<lambda>target. target\<lparr>a_bitDepth := Some (parseInt10 value)\<rparr>)"
  "audioAssign ''Stream size'' value =
     map_option (\<lambda>m target. target\<lparr>a_streamSize := Some (parseSize m)\<rparr>) (sizeMatch value)"
  "audioAssign ''Title'' value = Some (\<lambda>target. target\<lparr>a_title := Some value\<rparr>)"
  "audioAssign ''Language'' value = Some (\<lambda>target. target\<lparr>a_language := Some value\<rparr>)"
  "audioAssign ''Default'' value = Some (\<lambda>target. target\<lparr>a_default := Some (toLowerCase value = ''yes'')\<rparr>)"
  "audioAssign ''Forced'' value = Some (\<lambda>target. target\<lparr>a_forced := Some (toLowerCase value = ''yes'')\<rparr>)"
  by (simp_all add: audioAssign_def split: option.splits)

lemma audioAssign_unknown: "key \<notin> set audio_keys \<Longrightarrow> audioAssign key value = None"
  by (simp add: audioAssign_def audio_keys_def)

lemma textAssign_keys:
  "textAssign ''ID'' value = Some (\<lambda>target. target\<lparr>t_id := Some (parseInt10 value)\<rparr>)"
  "textAssign ''Format'' value = Some (\<lambda>target. target\<lparr>t_format := Some value\<rparr>)"
  "textAssign ''Codec ID'' value = Some (\<lambda>target. target\<lparr>t_codecId := Some value\<rparr>)"
  "textAssign ''Codec ID/Info'' value = Some (\<lambda>target. target\<lparr>t_codecIdInfo := Some value\<rparr>)"
  "textAssign ''Duration'' value = Some (\<lambda>target. target\<lparr>t_duration := Some (parseDuration value)\<rparr>)"
  "textAssign ''Bit rate'' value = Some (\<lambda>target. target\<lparr>t_bitRate := Some (parseBitRate value)\<rparr>)"
  "textAssign ''Frame rate'' value = Some (\<lambda>target. target\<lparr>t_frameRate := Some (parseFloat value)\<rparr>)"
  "textAssign ''Count of elements'' value = Some (\<lambda>target. target\<lparr>t_countOfElements := Some (parseInt10 value)\<rparr>)"
  "textAssign ''Compression mode'' value = Some (\<lambda>target. target\<lparr>t_compressionMode := Some value\<rparr>)"
  "textAssign ''Stream size'' value =
     map_option (\<lambda>m target. target\<lparr>t_streamSize := Some (parseSize m)\<rparr>) (sizeMatch value)"
  "textAssign ''Title'' value = Some (\<lambda>target. target\<lparr>t_title := Some value\<rparr>)"
  "textAssign ''Language'' value = Some (\<lambda>target. target\<lparr>t_language := Some value\<rparr>)"
  "textAssign ''Default'' value = Some (\<lambda>target. target\<lparr>t_default := Some (toLowerCase value = ''yes'')\<rparr>)"
  "textAssign ''Forced'' value = Some (\<lambda>target. target\<lparr>t_forced := Some (toLowerCase value = ''yes'')\<rparr>)"
  by (simp_all add: textAssign_def split: option.splits)

lemma textAssign_unknown: "key \<notin> set text_keys \<Longrightarrow> textAssign key value = None"
  by (simp add: textAssign_def text_keys_def)

subsection \<open>Fields of the general record that no key reaches\<close>

lemma generalAssign_frame:
  "generalAssign k v = Some f \<Longrightarrow>
     g_streamSize (f t) = g_streamSize t \<and> g_frameCount (f t) = g_frameCount t"
  by (auto simp: generalAssign_def split: if_splits)

lemma headerLine_general: "general (result (headerLine s n)) = general (result s)"
  by (simp add: headerLine_def Let_def)

lemma chapterLine_general: "general (result (chapterLine s l)) = general (result s)"
  by (simp add: chapterLine_def Let_def split: option.splits prod.splits)

lemma keyValueLine_general:
  assumes "keyValueLine s k v = Inr s'"
  shows "g_streamSize (general (result s')) = g_streamSize (general (result s)) \<and>
         g_frameCount (general (result s')) = g_frameCount (general (result s))"
proof (cases "currentSection s = ''general''")
  case True
  then show ?thesis using assms generalAssign_frame[of k v]
    by (auto simp: keyValueLine_def Let_def split: option.splits)
next
  case False
  then have "general (result s') = general (result s)" using assms
    by (auto simp: keyValueLine_def Let_def split: option.splits sum.splits if_splits)
  then show ?thesis by simp
qed

lemma parseLine_general:
  assumes "parseLine s l = Inr s'"
  shows "g_streamSize (general (result s')) = g_streamSize (general (result s)) \<and>
         g_frameCount (general (result s')) = g_frameCount (general (result s))"
  using assms keyValueLine_general[of s _ _ s']
  by (auto simp: parseLine_def headerLine_general chapterLine_general
           split: if_splits option.splits prod.splits)

lemma parseLines_general:
  "parseLines s ls = Inr s' \<Longrightarrow>
     g_streamSize (general (result s')) = g_streamSize (general (result s)) \<and>
     g_frameCount (general (result s')) = g_frameCount (general (result s))"
proof (induction ls arbitrary: s)
  case Nil
  then show ?case by simp
next
  case (Cons l ls)
  then obtain s1 where 1: "parseLine s l = Inr s1" and 2: "parseLines s1 ls = Inr s'"
    by (auto split: sum.splits)
  from parseLine_general[OF 1] Cons.IH[OF 2] show ?case by simp
qed

subsection \<open>Evaluation on concrete strings\<close>

lemma lower_char_ascii:
  "lower_char (CHR '' '') = CHR '' ''"
  "lower_char (CHR ''!'') = CHR ''!''"
  "lower_char (CHR 0x22) = CHR 0x22"
  "lower_char (CHR ''#'') = CHR ''#''"
  "lower_char (CHR ''$'') = CHR ''$''"
  "lower_char (CHR ''%'') = CHR ''%''"
  "lower_char (CHR ''&'') = CHR ''&''"
  "lower_char (CHR 0x27) = CHR 0x27"
  "lower_char (CHR ''('') = CHR ''(''"
  "lower_char (CHR '')'') = CHR '')''"
  "lower_char (CHR ''*'') = CHR ''*''"
  "lower_char (CHR ''+'') = CHR ''+''"
  "lower_char (CHR '','') = CHR '',''"
  "lower_char (CHR ''-'') = CHR ''-''"
  "lower_char (CHR ''.'') = CHR ''.''"
  "lower_char (CHR ''/'') = CHR ''/''"
  "lower_char (CHR ''0'') = CHR ''0''"
  "lower_char (CHR ''1'') = CHR ''1''"
  "lower_char (CHR ''2'') = CHR ''2''"
  "lower_char (CHR ''3'') = CHR ''3''"
  "lower_char (CHR ''4'') = CHR ''4''"
  "lower_char (CHR ''5'') = CHR ''5''"
  "lower_char (CHR ''6'') = CHR ''6''"
  "lower_char (CHR ''7'') = CHR ''7''"
  "lower_char (CHR ''8'') = CHR ''8''"
  "lower_char (CHR ''9'') = CHR ''9''"
  "lower_char (CHR '':'') = CHR '':''"
  "lower_char (CHR '';'') = CHR '';''"
  "lower_char (CHR ''<'') = CHR ''<''"
  "lower_char (CHR ''='') = CHR ''=''"
  "lower_char (CHR ''>'') = CHR ''>''"
  "lower_char (CHR ''?'') = CHR ''?''"
  "lower_char (CHR ''@'') = CHR ''@''"
  "lower_char (CHR ''A'') = CHR ''a''"
  "lower_char (CHR ''B'') = CHR ''b''"
  "lower_char (CHR ''C'') = CHR ''c''"
  "lower_char (CHR ''D'') = CHR ''d''"
  "lower_char (CHR ''E'') = CHR ''e''"
  "lower_char (CHR ''F'') = CHR ''f''"
  "lower_char (CHR ''G'') = CHR ''g''"
  "lower_char (CHR ''H'') = CHR ''h''"
  "lower_char (CHR ''I'') = CHR ''i''"
  "lower_char (CHR ''J'') = CHR ''j''"
  "lower_char (CHR ''K'') = CHR ''k''"
  "lower_char (CHR ''L'') = CHR ''l''"
  "lower_char (CHR ''M'') = CHR ''m''"
  "lower_char (CHR ''N'') = CHR ''n''"
  "lower_char (CHR ''O'') = CHR ''o''"
  "lower_char (CHR ''P'') = CHR ''p''"
  "lower_char (CHR ''Q'') = CHR ''q''"
  "lower_char (CHR ''R'') = CHR ''r''"
  "lower_char (CHR ''S'') = CHR ''s''"
  "lower_char (CHR ''T'') = CHR ''t''"
  "lower_char (CHR ''U'') = CHR ''u''"
  "lower_char (CHR ''V'') = CHR ''v''"
  "lower_char (CHR ''W'') = CHR ''w''"
  "lower_char (CHR ''X'') = CHR ''x''"
  "lower_char (CHR ''Y'') = CHR ''y''"
  "lower_char (CHR ''Z'') = CHR ''z''"
  "lower_char (CHR ''['') = CHR ''[''"
  "lower_char (CHR 0x5C) = CHR 0x5C"
  "lower_char (CHR '']'') = CHR '']''"
  "lower_char (CHR ''^'') = CHR ''^''"
  "lower_char (CHR ''_'') = CHR ''_''"
  "lower_char (CHR 0x60) = CHR 0x60"
  "lower_char (CHR ''a'') = CHR ''a''"
  "lower_char (CHR ''b'') = CHR ''b''"
  "lower_char (CHR ''c'') = CHR ''c''"
  "lower_char (CHR ''d'') = CHR ''d''"
  "lower_char (CHR ''e'') = CHR ''e''"
  "lower_char (CHR ''f'') = CHR ''f''"
  "lower_char (CHR ''g'') = CHR ''g''"
  "lower_char (CHR ''h'') = CHR ''h''"
  "lower_char (CHR ''i'') = CHR ''i''"
  "lower_char (CHR ''j'') = CHR ''j''"
  "lower_char (CHR ''k'') = CHR ''k''"
  "lower_char (CHR ''l'') = CHR ''l''"
  "lower_char (CHR ''m'') = CHR ''m''"
  "lower_char (CHR ''n'') = CHR ''n''"
  "lower_char (CHR ''o'') = CHR ''o''"
  "lower_char (CHR ''p'') = CHR ''p''"
  "lower_char (CHR ''q'') = CHR ''q''"
  "lower_char (CHR ''r'') = CHR ''r''"
  "lower_char (CHR ''s'') = CHR ''s''"
  "lower_char (CHR ''t'') = CHR ''t''"
  "lower_char (CHR ''u'') = CHR ''u''"
  "lower_char (CHR ''v'') = CHR ''v''"
  "lower_char (CHR ''w'') = CHR ''w''"
  "lower_char (CHR ''x'') = CHR ''x''"
  "lower_char (CHR ''y'') = CHR ''y''"
  "lower_char (CHR ''z'') = CHR ''z''"
  "lower_char (CHR ''{'') = CHR ''{''"
  "lower_char (CHR ''|'') = CHR ''|''"
  "lower_char (CHR ''}'') = CHR ''}''"
  "lower_char (CHR ''~'') = CHR ''~''"
  by code_simp+

lemmas char_defs = js_space_def line_terminator_def is_digit_def is_alpha_def digit_val_def
  nat_of_digits_def startsWith_def trim_def toLowerCase_def lower_char_ascii

lemmas number_defs = strip_sign_def signed_def parseInt10_def exponent_of_def pow10_def
  decimal_value_def parseFloat_def parseSize_def power_of_def powers_def js_pow_def
  parseDuration_def parseBitRate_def parseFrequency_def floor_eq_iff

lemmas match_defs = sectionMatch_def section_names_def ordinal_suffix_def keyValueMatch_def
  chapterAt_def timestamp_shape_def timestamp_pattern_def sizeAt_def Let_def

subsection \<open>One line of a section\<close>

lemma step_general:
  assumes "trim l \<noteq> [] \<and> sectionMatch l = None \<and> keyValueMatch l = Some (k, v)"
    and "generalAssign k v = Some f" and "currentSection s = ''general''"
  shows "parseLine s l = Inr (s\<lparr>result := (result s)\<lparr>general := f (general (result s))\<rparr>\<rparr>)"
  using assms by (simp add: parseLine_other keyValueLine_def Let_def)

lemma step_video:
  assumes "trim l \<noteq> [] \<and> sectionMatch l = None \<and> keyValueMatch l = Some (k, v)"
    and "videoAssign k v = Some f" and "currentSection s = ''video''"
    and "video (result s) \<noteq> []" and "trackIndex s = int (length (video (result s))) - 1"
  shows "parseLine s l =
           Inr (s\<lparr>result := (result s)\<lparr>video := butlast (video (result s)) @
                                              [f (last (video (result s)))]\<rparr>\<rparr>)"
proof -
  from assms(4,5) have "0 \<le> trackIndex s" by (cases "video (result s)") simp_all
  then show ?thesis using assms
    by (simp add: parseLine_other keyValueLine_def Let_def assignAt_last)
qed

lemma parseLines_append:
  "parseLines s (xs @ ys) =
     (case parseLines s xs of Inl e \<Rightarrow> Inl e | Inr s' \<Rightarrow> parseLines s' ys)"
  by (induction xs arbitrary: s) (simp_all split: sum.splits)

subsection \<open>Blank lines, headers and key-value lines exclude one another\<close>

lemma trim_Nil_iff: "trim s = [] \<longleftrightarrow> (\<forall>c\<in>set s. js_space c)"
proof
  assume "trim s = []"
  then have all: "\<forall>c\<in>set (dropWhile js_space s). js_space c"
    by (simp add: trim_def dropWhile_eq_Nil_conv)
  have "dropWhile js_space s = []"
  proof (rule ccontr)
    assume ne: "dropWhile js_space s \<noteq> []"
    then have "\<not> js_space (hd (dropWhile js_space s))" by (rule hd_dropWhile)
    moreover have "hd (dropWhile js_space s) \<in> set (dropWhile js_space s)"
      using ne by simp
    ultimately show False using all by blast
  qed
  then show "\<forall>c\<in>set s. js_space c" by (simp add: dropWhile_eq_Nil_conv)
next
  assume "\<forall>c\<in>set s. js_space c"
  then have "dropWhile js_space s = []" by (simp add: dropWhile_eq_Nil_conv)
  then show "trim s = []" unfolding trim_def by (simp only: rev.simps dropWhile.simps)
qed

lemma if_SomeD: "(if c then Some x else None) = Some y \<Longrightarrow> c \<and> x = y"
  by (simp split: if_splits)

lemma keyValueMatch_colon:
  assumes "keyValueMatch l = Some kv"
  shows "CHR '':'' \<in> set l"
proof -
  from if_SomeD[OF assms[unfolded keyValueMatch_def Let_def]]
  have "dropWhile (\<lambda>c. c \<noteq> CHR '':'') l \<noteq> []" by (rule conjunct1[OF conjunct1])
  then obtain c where "c \<in> set l" and "\<not> c \<noteq> CHR '':''"
    unfolding dropWhile_eq_Nil_conv by blast
  then show ?thesis by simp
qed

lemma colon_not_blank:
  assumes "CHR '':'' \<in> set l"
  shows "trim l \<noteq> []"
proof -
  have "\<not> js_space (CHR '':'')" by (simp add: js_space_def)
  with assms show ?thesis unfolding trim_Nil_iff by blast
qed

lemma sectionMatch_shape:
  assumes "sectionMatch l = Some n"
  shows "l = n \<or> (\<exists>ds. l = n @ '' #'' @ ds \<and> ds \<noteq> [] \<and> list_all is_digit ds)"
proof -
  from sectionMatch_SomeD[OF assms] have st: "take (length n) l = n"
    and os: "ordinal_suffix (drop (length n) l)" by (simp_all add: startsWith_def)
  let ?r = "drop (length n) l"
  have l: "l = n @ ?r" using st append_take_drop_id[of "length n" l] by simp
  show ?thesis
  proof (cases "?r = []")
    case True
    then show ?thesis using l by simp
  next
    case False
    with os have a: "take 2 ?r = '' #''" and ne: "drop 2 ?r \<noteq> []"
      and d: "list_all is_digit (drop 2 ?r)"
      by (simp_all add: ordinal_suffix_def)
    have "?r = '' #'' @ drop 2 ?r" using a append_take_drop_id[of 2 ?r] by simp
    then have "l = n @ '' #'' @ drop 2 ?r" using l by simp
    then show ?thesis using ne d by blast
  qed
qed

lemma sectionMatch_no_colon:
  assumes "sectionMatch l = Some n"
  shows "CHR '':'' \<notin> set l"
proof -
  have n: "CHR '':'' \<notin> set n"
    using sectionMatch_names[OF assms] by auto
  from sectionMatch_shape[OF assms] show ?thesis
  proof
    assume "l = n"
    then show ?thesis using n by simp
  next
    assume "\<exists>ds. l = n @ '' #'' @ ds \<and> ds \<noteq> [] \<and> list_all is_digit ds"
    then obtain ds where l: "l = n @ '' #'' @ ds" and d: "list_all is_digit ds" by blast
    have "\<not> is_digit (CHR '':'')" by (simp add: is_digit_def)
    with d have "CHR '':'' \<notin> set ds" unfolding list_all_iff by blast
    then show ?thesis using n l by simp
  qed
qed

lemma keyValueMatch_not_header: "keyValueMatch l = Some kv \<Longrightarrow> sectionMatch l = None"
  using keyValueMatch_colon sectionMatch_no_colon by (cases "sectionMatch l") blast+

lemma sectionMatch_not_blank:
  assumes "sectionMatch l = Some n"
  shows "trim l \<noteq> []"
proof -
  have "n \<noteq> []" and "\<not> js_space (hd n)"
    using sectionMatch_names[OF assms] by (auto simp: js_space_def)
  moreover have "\<exists>r. l = n @ r" using sectionMatch_shape[OF assms] by auto
  ultimately have "hd n \<in> set l" by auto
  then show ?thesis using \<open>\<not> js_space (hd n)\<close> by (auto simp: trim_Nil_iff)
qed

lemma unknown_key_noop:
  assumes "keyValueMatch l = Some (k, v)" and "k \<notin> set (vocabulary (currentSection s))"
    and "currentSection s = ''menu'' \<longrightarrow> chapterMatch l = None"
  shows "parseLine s l = Inr s"
proof -
  have nb: "trim l \<noteq> []" and nh: "sectionMatch l = None"
    using assms(1) keyValueMatch_colon colon_not_blank keyValueMatch_not_header by blast+
  show ?thesis
  proof (cases "currentSection s = ''menu''")
    case True
    then show ?thesis using nb nh assms(3) by (simp add: parseLine_menu chapterLine_def)
  next
    case False
    have "keyValueLine s k v = Inr s"
      using assms(2) generalAssign_unknown[of k v] videoAssign_unknown[of k v]
        audioAssign_unknown[of k v] textAssign_unknown[of k v]
      by (auto simp: keyValueLine_def Let_def vocabulary_def split: if_splits)
    then show ?thesis using nb nh False assms(1) by (simp add: parseLine_other)
  qed
qed

lemma sectionAt_eq: "parseLines initial pre = Inr s \<Longrightarrow> sectionAt pre = currentSection s"
  by (simp add: sectionAt_def)

lemma unset_noop:
  assumes "currentSection s = []" and "sectionMatch l = None"
  shows "parseLine s l = Inr s"
proof (cases "trim l = []")
  case True
  then show ?thesis using assms(1) by (simp add: parseLine_blank)
next
  case False
  have "keyValueLine s k v = Inr s" for k v
    using assms(1) by (simp add: keyValueLine_def Let_def)
  then show ?thesis using False assms
    by (simp add: parseLine_other split: option.splits)
qed

lemma unset_noop_lines:
  "currentSection s = [] \<Longrightarrow> \<forall>l\<in>set ls. sectionMatch l = None \<Longrightarrow> parseLines s ls = Inr s"
  by (induction ls) (simp_all add: unset_noop)

lemmas chapter_defs = chapterLine_def parseInt_def nth_opt_eq hex_val_def is_hex_digit_def
  nat_of_hex_def

subsection \<open>Digit strings\<close>

lemma not_digit_chars:
  "\<not> is_digit (CHR '':'')" "\<not> is_digit (CHR ''.'')" "\<not> is_digit (CHR ''-'')"
  "\<not> is_digit (CHR ''+'')" "\<not> is_digit (CHR ''x'')" "\<not> is_digit (CHR ''X'')"
  "\<not> is_digit (CHR '' '')" "\<not> is_digit (CHR '','')"
  "\<not> is_digit (CHR 0x09)" "\<not> is_digit (CHR 0x0A)" "\<not> is_digit (CHR 0x0B)"
  "\<not> is_digit (CHR 0x0C)" "\<not> is_digit (CHR 0x0D)" "\<not> is_digit (CHR 0xA0)"
  by (simp_all add: is_digit_def)

lemma digit_not_space: "is_digit c \<Longrightarrow> \<not> js_space c"
  using not_digit_chars unfolding js_space_def by (metis list.set_cases set_ConsD empty_iff empty_set)


lemma digit_neq: "is_digit c \<Longrightarrow> \<not> is_digit d \<Longrightarrow> c \<noteq> d"
  by blast

lemma digit_not_terminator: "is_digit c \<Longrightarrow> \<not> line_terminator c"
  using not_digit_chars unfolding line_terminator_def by blast

lemma takeWhile_all: "list_all P xs \<Longrightarrow> takeWhile P xs = xs"
  by (induction xs) simp_all

lemma dropWhile_stop: "\<not> P y \<Longrightarrow> dropWhile P (xs @ y # ys) = dropWhile P xs @ y # ys"
  by (induction xs) simp_all

lemma takeWhile_stop: "list_all P xs \<Longrightarrow> \<not> P y \<Longrightarrow> takeWhile P (xs @ y # ys) = xs"
  by (induction xs) simp_all

lemma dropWhile_all_stop: "list_all P xs \<Longrightarrow> \<not> P y \<Longrightarrow> dropWhile P (xs @ y # ys) = y # ys"
  by (induction xs) simp_all

lemma digit_val_le: "is_digit c \<Longrightarrow> digit_val c \<le> 9"
  by (auto simp: is_digit_def digit_val_def)

lemma foldl_digits_bound:
  "list_all is_digit ds \<Longrightarrow>
   foldl (\<lambda>acc c. 10 * acc + digit_val c) a ds < (a + 1) * 10 ^ length ds"
proof (induction ds arbitrary: a)
  case Nil
  show ?case by simp
next
  case (Cons d ds)
  then have d: "digit_val d \<le> 9" and ds: "list_all is_digit ds"
    by (simp_all add: digit_val_le)
  have "foldl (\<lambda>acc c. 10 * acc + digit_val c) (10 * a + digit_val d) ds
        < (10 * a + digit_val d + 1) * 10 ^ length ds"
    by (rule Cons.IH[OF ds])
  also have "\<dots> \<le> (10 * a + 10) * 10 ^ length ds"
    using d by (intro mult_right_mono) simp_all
  also have "\<dots> = (a + 1) * 10 ^ length (d # ds)" by (simp add: algebra_simps)
  finally show ?case by simp
qed

lemma nat_of_digits_bound: "list_all is_digit ds \<Longrightarrow> nat_of_digits ds < 10 ^ length ds"
  using foldl_digits_bound[of ds 0] by (simp add: nat_of_digits_def)

lemma nat_of_digits_small:
  assumes "list_all is_digit ds" and "length ds \<le> 15"
  shows "nat_of_digits ds \<le> 2 ^ 53"
proof -
  have "nat_of_digits ds < 10 ^ length ds" by (rule nat_of_digits_bound[OF assms(1)])
  also have "\<dots> \<le> (10::nat) ^ 15" using assms(2) by (intro power_increasing) simp_all
  also have "\<dots> \<le> 2 ^ 53" by simp
  finally show ?thesis by simp
qed

lemma parseInt_digits:
  assumes "ds \<noteq> []" and "list_all is_digit ds"
  shows "parseInt (Some ds) = to_double (of_nat (nat_of_digits ds))"
proof -
  obtain d ds' where ds: "ds = d # ds'" using assms(1) by (cases ds) auto
  with assms(2) have d: "is_digit d" and ds': "list_all is_digit ds'" by simp_all
  have sp: "dropWhile js_space ds = ds" using ds digit_not_space[OF d] by simp
  have sg: "strip_sign ds = (False, ds)"
    using ds digit_neq[OF d not_digit_chars(3)] digit_neq[OF d not_digit_chars(4)]
    by (simp add: strip_sign_def)
  have hx: "\<not> startsWith ''0x'' ds" "\<not> startsWith ''0X'' ds"
  proof -
    show "\<not> startsWith ''0x'' ds"
    proof (cases ds')
      case Nil
      then show ?thesis using ds by (simp add: startsWith_def)
    next
      case (Cons e es)
      with ds' have "is_digit e" by simp
      then show ?thesis using ds Cons digit_neq[OF _ not_digit_chars(5)]
        by (simp add: startsWith_def)
    qed
    show "\<not> startsWith ''0X'' ds"
    proof (cases ds')
      case Nil
      then show ?thesis using ds by (simp add: startsWith_def)
    next
      case (Cons e es)
      with ds' have "is_digit e" by simp
      then show ?thesis using ds Cons digit_neq[OF _ not_digit_chars(6)]
        by (simp add: startsWith_def)
    qed
  qed
  show ?thesis
    using assms(1) by (simp add: parseInt_def sp sg hx takeWhile_all[OF assms(2)] signed_def)
qed

lemma parseInt10_digits:
  assumes "ds \<noteq> []" and "list_all is_digit ds"
  shows "parseInt10 ds = to_double (of_nat (nat_of_digits ds))"
proof -
  obtain d ds' where ds: "ds = d # ds'" using assms(1) by (cases ds) auto
  with assms(2) have d: "is_digit d" by simp
  have sp: "dropWhile js_space ds = ds" using ds digit_not_space[OF d] by simp
  have sg: "strip_sign ds = (False, ds)"
    using ds digit_neq[OF d not_digit_chars(3)] digit_neq[OF d not_digit_chars(4)]
    by (simp add: strip_sign_def)
  show ?thesis
    using assms(1) by (simp add: parseInt10_def sp sg takeWhile_all[OF assms(2)] signed_def)
qed

lemma split_time_digits: "list_all is_digit ds \<Longrightarrow> split_time ds = [ds]"
proof (induction ds)
  case Nil
  show ?case by simp
next
  case (Cons d ds)
  then have "is_digit d" by simp
  then have "d \<noteq> CHR '':''" "d \<noteq> CHR ''.''"
    using digit_neq not_digit_chars(1,2) by blast+
  then show ?case using Cons by simp
qed

lemma split_time_sep:
  assumes "list_all is_digit ds" and "c = CHR '':'' \<or> c = CHR ''.''"
  shows "split_time (ds @ c # rest) = ds # split_time rest"
  using assms(1)
proof (induction ds)
  case Nil
  show ?case using assms(2) by auto
next
  case (Cons d ds)
  then have "is_digit d" by simp
  then have "d \<noteq> CHR '':''" "d \<noteq> CHR ''.''"
    using digit_neq not_digit_chars(1,2) by blast+
  then show ?case using Cons by simp
qed

subsection \<open>The chapter pattern on a well-formed line\<close>

lemma dropWhile_skip: "list_all P xs \<Longrightarrow> dropWhile P (xs @ ys) = dropWhile P ys"
  by (induction xs) simp_all

lemma length2E:
  assumes "length xs = 2"
  obtains a b where "xs = [a, b]"
  using assms by (cases xs; cases "tl xs"; cases "tl (tl xs)") auto

lemma length3E:
  assumes "length xs = 3"
  obtains a b c where "xs = [a, b, c]"
  using assms by (cases xs; cases "tl xs"; cases "tl (tl xs)"; cases "tl (tl (tl xs))") auto

lemma space_facts: "\<not> js_space (CHR '':'')" "\<not> line_terminator (CHR ''.'')"
  by (simp_all add: js_space_def line_terminator_def)

lemma chapterAt_shape:
  assumes len: "length h = 2" "length m = 2" "length sec = 2" "length ms = 3"
    and dig: "list_all is_digit (h @ m @ sec @ ms)"
    and w1: "w1 \<noteq> []" "list_all js_space w1"
    and w2: "w2 \<noteq> []" "list_all js_space w2"
    and lab: "CHR '':'' \<notin> set label" "\<not> list_ex line_terminator label"
    and tit: "\<not> list_ex line_terminator title"
  shows "chapterAt (h @ '':'' @ m @ '':'' @ sec @ ''.'' @ ms @ w1 @ '':'' @ w2 @ label @ '':'' @ title)
         = Some (h @ '':'' @ m @ '':'' @ sec @ ''.'' @ ms, title)"
proof -
  obtain h1 h2 where h: "h = [h1, h2]" using len(1) by (rule length2E)
  obtain m1 m2 where m: "m = [m1, m2]" using len(2) by (rule length2E)
  obtain s1 s2 where s: "sec = [s1, s2]" using len(3) by (rule length2E)
  obtain x1 x2 x3 where x: "ms = [x1, x2, x3]" using len(4) by (rule length3E)
  let ?T = "[h1, h2, CHR '':'', m1, m2, CHR '':'', s1, s2, CHR ''.'', x1, x2, x3]"
  let ?R = "w2 @ label @ CHR '':'' # title"
  let ?line = "h @ '':'' @ m @ '':'' @ sec @ ''.'' @ ms @ w1 @ '':'' @ w2 @ label @ '':'' @ title"
  have line: "?line = ?T @ w1 @ CHR '':'' # ?R" by (simp add: h m s x)
  have T: "h @ '':'' @ m @ '':'' @ sec @ ''.'' @ ms = ?T" by (simp add: h m s x)
  have tk: "take 12 ?line = ?T" and dr: "drop 12 ?line = w1 @ CHR '':'' # ?R"
    unfolding line by simp_all
  have shape: "timestamp_shape ?T"
    using dig by (simp add: h m s x timestamp_shape_def timestamp_pattern_def space_facts)
  have t1: "takeWhile js_space (w1 @ CHR '':'' # ?R) = w1"
    by (rule takeWhile_stop[of js_space, OF w1(2) space_facts(1)])
  have d1: "dropWhile js_space (w1 @ CHR '':'' # ?R) = CHR '':'' # ?R"
    by (rule dropWhile_all_stop[of js_space, OF w1(2) space_facts(1)])
  obtain a w2' where w2c: "w2 = a # w2'" using w2(1) by (cases w2) auto
  with w2(2) have "js_space a" by simp
  then have t2: "takeWhile js_space ?R \<noteq> []" by (simp add: w2c)
  let ?L = "dropWhile js_space label"
  have "dropWhile js_space ?R = dropWhile js_space (label @ CHR '':'' # title)"
    by (rule dropWhile_skip[OF w2(2)])
  also have "\<dots> = ?L @ CHR '':'' # title"
    by (rule dropWhile_stop[of js_space, OF space_facts(1)])
  finally have d2: "dropWhile js_space ?R = ?L @ CHR '':'' # title" .
  have Lsub: "set ?L \<subseteq> set label" by (auto dest: set_dropWhileD)
  then have Lc: "list_all (\<lambda>c. c \<noteq> CHR '':'') ?L" using lab(1) by (auto simp: list_all_iff)
  have Lt: "\<not> list_ex line_terminator ?L" using Lsub lab(2) by (auto simp: list_ex_iff)
  have pre: "takeWhile (\<lambda>c. c \<noteq> CHR '':'') (?L @ CHR '':'' # title) = ?L"
    by (rule takeWhile_stop[OF Lc]) simp
  have r4: "dropWhile (\<lambda>c. c \<noteq> CHR '':'') (?L @ CHR '':'' # title) = CHR '':'' # title"
    by (rule dropWhile_all_stop[OF Lc]) simp
  have tt: "takeWhile (\<lambda>c. \<not> line_terminator c) title = title"
    using tit by (intro takeWhile_all) (simp add: list_all_iff list_ex_iff)
  show ?thesis
    unfolding chapterAt_def tk dr Let_def t1 d1 T
    using shape w1(1) t2 Lt
    by (simp add: startsWith_def d2 pre r4 tt)
qed

lemma chapterAt_Nil: "chapterAt [] = None"
  by (simp add: chapterAt_def timestamp_shape_def timestamp_pattern_def)

lemma chapterMatch_at: "chapterAt l = Some g \<Longrightarrow> chapterMatch l = Some g"
  by (cases l) (simp_all add: chapterAt_Nil)

subsection \<open>Splitting at blanks; the duration loop\<close>

lemma split_no_sep: "sep \<notin> set w \<Longrightarrow> split sep w = [w]"
  by (induction w) auto

lemma split_word: "sep \<notin> set w \<Longrightarrow> split sep (w @ sep # r) = w # split sep r"
  by (induction w) auto

lemma split_join_words:
  assumes "ws \<noteq> []" and "\<forall>w\<in>set ws. CHR '' '' \<notin> set w"
  shows "split (CHR '' '') (join_words ws) = ws"
proof -
  have "split (CHR '' '') (w @ concat (map (\<lambda>x. CHR '' '' # x) ws')) = w # ws'"
    if "\<forall>x\<in>set (w # ws'). CHR '' '' \<notin> set x" for w ws'
    using that
  proof (induction ws' arbitrary: w)
    case Nil
    then show ?case by (simp add: split_no_sep)
  next
    case (Cons v vs)
    then have "split (CHR '' '') (v @ concat (map (\<lambda>x. CHR '' '' # x) vs)) = v # vs"
      by simp
    then show ?case using Cons.prems by (simp add: split_word)
  qed
  then show ?thesis using assms by (cases ws) (simp_all add: join_words_def)
qed

lemma duration_step:
  assumes "ds \<noteq> []" and "list_all is_digit ds"
    and "a + nat_of_digits ds * duration_factor u \<le> 2 ^ 53"
  shows "durationLoop (ds # u # rest) (Num (of_nat a)) =
         durationLoop rest (Num (of_nat (a + nat_of_digits ds * duration_factor u)))"
proof -
  let ?n = "nat_of_digits ds"
  note pi = parseInt10_digits[OF assms(1,2)]
  show ?thesis
  proof (cases "duration_factor u = 0")
    case True
    then have no: "\<not> startsWith ''h'' u" "\<not> startsWith ''min'' u" "\<not> startsWith ''s'' u"
      "\<not> startsWith ''ms'' u"
      by (simp_all add: duration_factor_def split: if_splits)
    show ?thesis by (simp add: no True)
  next
    case False
    then have "1 \<le> duration_factor u" by simp
    then have "?n * 1 \<le> ?n * duration_factor u" by (rule mult_le_mono2)
    then have nle: "?n \<le> ?n * duration_factor u" by (simp only: mult_1_right)
    have prod: "?n * duration_factor u \<le> 2 ^ 53" using assms(3) by linarith
    have n: "?n \<le> 2 ^ 53" using nle prod by (rule order_trans)
    have v: "parseInt10 ds = Num (of_nat ?n)" by (simp add: pi to_double_nat[OF n])
    have m: "js_mul (Num (of_nat ?n)) (Num (of_nat (duration_factor u))) =
        Num (of_nat (?n * duration_factor u))"
      by (rule js_mul_nat[OF prod])
    have ad: "js_add (Num (of_nat a)) (Num (of_nat (?n * duration_factor u))) =
        Num (of_nat (a + ?n * duration_factor u))"
      by (rule js_add_nat[OF assms(3)])
    have e: "(let value = parseInt10 ds
           in if startsWith ''h'' u then js_add (Num (of_nat a)) (js_mul value (Num 3600000))
              else if startsWith ''min'' u then js_add (Num (of_nat a)) (js_mul value (Num 60000))
              else if startsWith ''s'' u then js_add (Num (of_nat a)) (js_mul value (Num 1000))
              else if startsWith ''ms'' u then js_add (Num (of_nat a)) value
              else Num (of_nat a)) =
          js_add (Num (of_nat a)) (js_mul (Num (of_nat ?n)) (Num (of_nat (duration_factor u))))"
      using False by (simp add: v duration_factor_def to_double_nat[OF n] split: if_splits)
    show ?thesis unfolding durationLoop.simps e m ad ..
  qed
qed

lemma durationLoop_pairs:
  assumes "\<forall>(ds, u)\<in>set pairs. ds \<noteq> [] \<and> list_all is_digit ds"
    and "a + (\<Sum>(ds, u)\<leftarrow>pairs. nat_of_digits ds * duration_factor u) \<le> 2 ^ 53"
  shows "durationLoop (duration_tokens pairs) (Num (of_nat a)) =
         Num (of_nat (a + (\<Sum>(ds, u)\<leftarrow>pairs. nat_of_digits ds * duration_factor u)))"
  using assms
proof (induction pairs arbitrary: a)
  case Nil
  show ?case by (simp add: duration_tokens_def)
next
  case (Cons p ps)
  obtain ds u where p: "p = (ds, u)" by (cases p)
  with Cons.prems have d: "ds \<noteq> []" "list_all is_digit ds" by simp_all
  let ?t = "nat_of_digits ds * duration_factor u"
  let ?r = "\<Sum>(ds, u)\<leftarrow>ps. nat_of_digits ds * duration_factor u"
  from Cons.prems(2) have tot: "a + ?t + ?r \<le> 2 ^ 53" by (simp add: p)
  then have one: "a + ?t \<le> 2 ^ 53" by simp
  have tk: "duration_tokens (p # ps) = ds # u # duration_tokens ps"
    by (simp add: duration_tokens_def p)
  have ih: "durationLoop (duration_tokens ps) (Num (of_nat (a + ?t))) =
      Num (of_nat (a + ?t + ?r))"
    using Cons.prems(1) tot by (intro Cons.IH) simp_all
  show ?case
    unfolding tk duration_step[OF d one] ih by (simp add: p)
qed

subsection \<open>Decimal numerals and size units\<close>






subsection \<open>Track sequences along the scan\<close>

lemma upd_last_id: "xs \<noteq> [] \<Longrightarrow> upd_last id xs = xs"
  by (simp add: upd_last_def)

lemma upd_last_snoc: "upd_last f (xs @ [x]) = xs @ [f x]"
  by (simp add: upd_last_def)

lemma upd_last_twice: "xs \<noteq> [] \<Longrightarrow> upd_last g (upd_last f xs) = upd_last (g \<circ> f) xs"
  by (simp add: upd_last_def)

lemma upd_last_not_Nil: "upd_last f xs \<noteq> []"
  by (simp add: upd_last_def)

lemma lower_names_inj:
  assumes "n \<in> set section_names" and "m \<in> set section_names"
    and "toLowerCase n = toLowerCase m"
  shows "n = m"
  using assms by (auto simp: section_names_def lower_names)

lemma lower_name_not_Nil: "n \<in> set section_names \<Longrightarrow> toLowerCase n \<noteq> []"
  by (auto simp: section_names_def lower_names)

lemma blank_not_header: "trim l = [] \<Longrightarrow> sectionMatch l = None"
  using sectionMatch_not_blank by (cases "sectionMatch l") auto

lemma run_tracks_bodies:
  assumes "name \<in> set section_names"
  shows "sec = toLowerCase name \<longrightarrow> ts \<noteq> [] \<Longrightarrow>
    run_tracks name fresh app sec ls ts =
      (if sec = toLowerCase name then upd_last (fold app (sectionBody ls)) ts else ts) @
      map (\<lambda>b. fold app b fresh) (sectionBodies name ls)"
proof (induction ls arbitrary: sec ts)
  case Nil
  then show ?case by (simp add: sectionBody_def upd_last_def)
next
  case (Cons l ls)
  let ?rest = "map (\<lambda>b. fold app b fresh) (sectionBodies name ls)"
  have step: "run_tracks name fresh app sec (l # ls) ts =
      run_tracks name fresh app (next_section sec l) ls (track_step name fresh app sec l ts)"
    by simp
  show ?case
  proof (cases "trim l = []")
    case True
    have ns: "next_section sec l = []" and st: "track_step name fresh app sec l ts = ts"
      using True by (simp_all add: next_section_def track_step_def)
    have ih: "run_tracks name fresh app [] ls ts = ts @ ?rest"
      using Cons.IH[of "[]" ts] lower_name_not_Nil[OF assms] by auto
    have body: "sectionBody (l # ls) = []" using True by (simp add: sectionBody_def)
    have bodies: "sectionBodies name (l # ls) = sectionBodies name ls"
      using blank_not_header[OF True] by simp
    have old: "(if sec = toLowerCase name then upd_last (fold app (sectionBody (l # ls))) ts
                else ts) = ts"
      using Cons.prems by (simp add: body upd_last_def)
    show ?thesis unfolding step ns st ih old bodies ..
  next
    case nb: False
    show ?thesis
    proof (cases "sectionMatch l")
      case None
      have ns: "next_section sec l = sec" using nb None by (simp add: next_section_def)
      have body: "sectionBody (l # ls) = l # sectionBody ls"
        using nb None by (simp add: sectionBody_def)
      have bodies: "sectionBodies name (l # ls) = sectionBodies name ls" using None by simp
      show ?thesis
      proof (cases "sec = toLowerCase name")
        case True
        with Cons.prems have ne: "ts \<noteq> []" by simp
        have st: "track_step name fresh app sec l ts = upd_last (app l) ts"
          using nb None True by (simp add: track_step_def)
        have ih: "run_tracks name fresh app sec ls (upd_last (app l) ts) =
            upd_last (fold app (sectionBody ls)) (upd_last (app l) ts) @ ?rest"
          using Cons.IH[of sec "upd_last (app l) ts"] True by (simp add: upd_last_not_Nil)
        have new: "upd_last (fold app (sectionBody ls)) (upd_last (app l) ts) =
            (if sec = toLowerCase name then upd_last (fold app (sectionBody (l # ls))) ts
             else ts)"
          using True by (simp add: body upd_last_twice[OF ne])
        show ?thesis unfolding step ns st ih new bodies ..
      next
        case False
        have st: "track_step name fresh app sec l ts = ts"
          using nb None False by (simp add: track_step_def)
        have ih: "run_tracks name fresh app sec ls ts = ts @ ?rest"
          using Cons.IH[of sec ts] False by simp
        have old: "(if sec = toLowerCase name
                    then upd_last (fold app (sectionBody (l # ls))) ts else ts) = ts"
          using False by simp
        show ?thesis unfolding step ns st ih old bodies ..
      qed
    next
      case (Some n)
      have nn: "n \<in> set section_names" by (rule sectionMatch_SomeD(1)[OF Some])
      have ns: "next_section sec l = toLowerCase n" using nb Some by (simp add: next_section_def)
      have body: "sectionBody (l # ls) = []" using Some by (simp add: sectionBody_def)
      have old: "(if sec = toLowerCase name then upd_last (fold app (sectionBody (l # ls))) ts
                  else ts) = ts"
        using Cons.prems by (simp add: body upd_last_def)
      show ?thesis
      proof (cases "n = name")
        case True
        have st: "track_step name fresh app sec l ts = ts @ [fresh]"
          using nb Some True by (simp add: track_step_def)
        have bodies: "sectionBodies name (l # ls) = sectionBody ls # sectionBodies name ls"
          using Some True by simp
        have ih: "run_tracks name fresh app (toLowerCase n) ls (ts @ [fresh]) =
            ts @ [fold app (sectionBody ls) fresh] @ ?rest"
          using Cons.IH[of "toLowerCase name" "ts @ [fresh]"] True
          by (simp add: upd_last_snoc)
        show ?thesis unfolding step ns st ih old bodies by simp
      next
        case False
        have st: "track_step name fresh app sec l ts = ts"
          using nb Some False by (simp add: track_step_def)
        have bodies: "sectionBodies name (l # ls) = sectionBodies name ls"
          using Some False by simp
        have "toLowerCase n \<noteq> toLowerCase name"
          using lower_names_inj[OF nn assms] False by blast
        then have ih: "run_tracks name fresh app (toLowerCase n) ls ts = ts @ ?rest"
          using Cons.IH[of "toLowerCase n" ts] by simp
        show ?thesis unfolding step ns st ih old bodies ..
      qed
    qed
  qed
qed

lemma length_sectionBodies:
  "length (sectionBodies name ls) = length (filter (\<lambda>l. sectionMatch l = Some name) ls)"
  by (induction ls) simp_all

lemma chapterLine_tracks:
  "video (result (chapterLine s l)) = video (result s)"
  "audio (result (chapterLine s l)) = audio (result s)"
  "text_tracks (result (chapterLine s l)) = text_tracks (result s)"
  by (simp_all add: chapterLine_def Let_def split: option.splits prod.splits)

lemma wf_scanD:
  assumes "wf_scan s"
  shows "currentSection s = ''video'' \<Longrightarrow>
           video (result s) \<noteq> [] \<and> trackIndex s = int (length (video (result s))) - 1 \<and>
           0 \<le> trackIndex s"
    and "currentSection s = ''audio'' \<Longrightarrow>
           audio (result s) \<noteq> [] \<and> trackIndex s = int (length (audio (result s))) - 1 \<and>
           0 \<le> trackIndex s"
    and "currentSection s = ''text'' \<Longrightarrow>
           text_tracks (result s) \<noteq> [] \<and>
           trackIndex s = int (length (text_tracks (result s))) - 1 \<and> 0 \<le> trackIndex s"
proof -
  have pos: "xs \<noteq> [] \<Longrightarrow> 0 \<le> int (length xs) - 1" for xs :: "'b list"
    by (cases xs) simp_all
  show "currentSection s = ''video'' \<Longrightarrow>
           video (result s) \<noteq> [] \<and> trackIndex s = int (length (video (result s))) - 1 \<and>
           0 \<le> trackIndex s"
    using assms pos[of "video (result s)"] by (simp add: wf_scan_def)
  show "currentSection s = ''audio'' \<Longrightarrow>
           audio (result s) \<noteq> [] \<and> trackIndex s = int (length (audio (result s))) - 1 \<and>
           0 \<le> trackIndex s"
    using assms pos[of "audio (result s)"] by (simp add: wf_scan_def)
  show "currentSection s = ''text'' \<Longrightarrow>
           text_tracks (result s) \<noteq> [] \<and>
           trackIndex s = int (length (text_tracks (result s))) - 1 \<and> 0 \<le> trackIndex s"
    using assms pos[of "text_tracks (result s)"] by (simp add: wf_scan_def)
qed

lemma assignAt_upd_last:
  "ts \<noteq> [] \<Longrightarrow> i = int (length ts) - 1 \<Longrightarrow> assignAt ts i f = Inr (upd_last f ts)"
  by (simp add: assignAt_last upd_last_def)

lemma keyValueLine_tracks:
  assumes wf: "wf_scan s" and kv: "keyValueMatch l = Some (k, v)"
  shows "\<exists>s'. keyValueLine s k v = Inr s' \<and>
     currentSection s' = currentSection s \<and>
     video (result s') = (if currentSection s = ''video''
        then upd_last (applyVideo l) (video (result s)) else video (result s)) \<and>
     audio (result s') = (if currentSection s = ''audio''
        then upd_last (applyAudio l) (audio (result s)) else audio (result s)) \<and>
     text_tracks (result s') = (if currentSection s = ''text''
        then upd_last (applyText l) (text_tracks (result s)) else text_tracks (result s))"
proof -
  consider (g) "currentSection s = ''general''" | (v) "currentSection s = ''video''"
    | (a) "currentSection s = ''audio''" | (t) "currentSection s = ''text''"
    | (o) "currentSection s \<notin> {''general'', ''video'', ''audio'', ''text''}" by auto
  then show ?thesis
  proof cases
    case g
    then show ?thesis
      by (auto simp: keyValueLine_def Let_def split: option.splits)
  next
    case v
    note w = wf_scanD(1)[OF wf v]
    show ?thesis
    proof (cases "videoAssign k v")
      case None
      then show ?thesis using v w
        by (simp add: keyValueLine_def Let_def applyVideo_def kv upd_last_id)
    next
      case (Some f)
      then show ?thesis using v w
        by (simp add: keyValueLine_def Let_def applyVideo_def kv assignAt_upd_last)
    qed
  next
    case a
    note w = wf_scanD(2)[OF wf a]
    show ?thesis
    proof (cases "audioAssign k v")
      case None
      then show ?thesis using a w
        by (simp add: keyValueLine_def Let_def applyAudio_def kv upd_last_id)
    next
      case (Some f)
      then show ?thesis using a w
        by (simp add: keyValueLine_def Let_def applyAudio_def kv assignAt_upd_last)
    qed
  next
    case t
    note w = wf_scanD(3)[OF wf t]
    show ?thesis
    proof (cases "textAssign k v")
      case None
      then show ?thesis using t w
        by (simp add: keyValueLine_def Let_def applyText_def kv upd_last_id)
    next
      case (Some f)
      then show ?thesis using t w
        by (simp add: keyValueLine_def Let_def applyText_def kv assignAt_upd_last)
    qed
  next
    case o
    then show ?thesis by (simp add: keyValueLine_def Let_def)
  qed
qed

lemma parseLine_tracks:
  assumes wf: "wf_scan s"
  shows "\<exists>s'. parseLine s l = Inr s' \<and> wf_scan s' \<and>
     currentSection s' = next_section (currentSection s) l \<and>
     video (result s') =
       track_step ''Video'' emptyVideo applyVideo (currentSection s) l (video (result s)) \<and>
     audio (result s') =
       track_step ''Audio'' emptyAudio applyAudio (currentSection s) l (audio (result s)) \<and>
     text_tracks (result s') =
       track_step ''Text'' emptyText applyText (currentSection s) l (text_tracks (result s))"
proof -
  from parseLine_wf[OF wf] obtain s' where s': "parseLine s l = Inr s'" and wf': "wf_scan s'"
    by blast
  have "currentSection s' = next_section (currentSection s) l \<and>
     video (result s') =
       track_step ''Video'' emptyVideo applyVideo (currentSection s) l (video (result s)) \<and>
     audio (result s') =
       track_step ''Audio'' emptyAudio applyAudio (currentSection s) l (audio (result s)) \<and>
     text_tracks (result s') =
       track_step ''Text'' emptyText applyText (currentSection s) l (text_tracks (result s))"
  proof (cases "trim l = []")
    case True
    then show ?thesis using s'
      by (auto simp: parseLine_blank next_section_def track_step_def)
  next
    case nb: False
    show ?thesis
    proof (cases "sectionMatch l")
      case (Some n)
      then have eq: "s' = headerLine s n" using s' nb by (simp add: parseLine_header)
      from sectionMatch_names[OF Some] show ?thesis
      proof (elim disjE)
        assume n: "n = ''General''"
        show ?thesis using nb Some
          by (simp add: eq n headerLine_simps next_section_def track_step_def lower_names)
      next
        assume n: "n = ''Video''"
        show ?thesis using nb Some
          by (simp add: eq n headerLine_simps next_section_def track_step_def lower_names)
      next
        assume n: "n = ''Audio''"
        show ?thesis using nb Some
          by (simp add: eq n headerLine_simps next_section_def track_step_def lower_names)
      next
        assume n: "n = ''Text''"
        show ?thesis using nb Some
          by (simp add: eq n headerLine_simps next_section_def track_step_def lower_names)
      next
        assume n: "n = ''Menu''"
        show ?thesis using nb Some
          by (simp add: eq n headerLine_simps next_section_def track_step_def lower_names)
      qed
    next
      case None
      show ?thesis
      proof (cases "currentSection s = ''menu''")
        case True
        then have "s' = chapterLine s l" using s' nb None by (simp add: parseLine_menu)
        then show ?thesis using nb None True
          by (simp add: chapterLine_tracks chapterLine_section next_section_def
              track_step_def lower_names)
      next
        case False
        show ?thesis
        proof (cases "keyValueMatch l")
          case None': None
          then have eq: "s' = s" using s' nb None False by (simp add: parseLine_other)
          have "applyVideo l = id" "applyAudio l = id" "applyText l = id"
            using None' by (simp_all add: applyVideo_def applyAudio_def applyText_def)
          then show ?thesis using nb None wf_scanD[OF wf]
            by (auto simp: eq next_section_def track_step_def lower_names upd_last_id)
        next
          case (Some kv)
          obtain k v where kv: "kv = (k, v)" by (cases kv)
          from keyValueLine_tracks[OF wf Some[unfolded kv]] s' nb None False Some kv
          show ?thesis
            by (auto simp: parseLine_other next_section_def track_step_def lower_names)
        qed
      qed
    qed
  qed
  then show ?thesis using s' wf' by blast
qed

lemma parseLines_tracks:
  "wf_scan s \<Longrightarrow> \<exists>s'. parseLines s ls = Inr s' \<and>
     video (result s') =
       run_tracks ''Video'' emptyVideo applyVideo (currentSection s) ls (video (result s)) \<and>
     audio (result s') =
       run_tracks ''Audio'' emptyAudio applyAudio (currentSection s) ls (audio (result s)) \<and>
     text_tracks (result s') =
       run_tracks ''Text'' emptyText applyText (currentSection s) ls (text_tracks (result s))"
proof (induction ls arbitrary: s)
  case Nil
  then show ?case by simp
next
  case (Cons l ls)
  from parseLine_tracks[OF Cons.prems, of l] obtain s1 where
    1: "parseLine s l = Inr s1" and w1: "wf_scan s1"
    and e: "currentSection s1 = next_section (currentSection s) l"
      "video (result s1) =
         track_step ''Video'' emptyVideo applyVideo (currentSection s) l (video (result s))"
      "audio (result s1) =
         track_step ''Audio'' emptyAudio applyAudio (currentSection s) l (audio (result s))"
      "text_tracks (result s1) =
         track_step ''Text'' emptyText applyText (currentSection s) l (text_tracks (result s))"
    by blast
  from Cons.IH[OF w1] show ?case by (simp add: 1 e)
qed

subsection \<open>A key-value line after a scanned prefix\<close>

lemma assignAt_in:
  "0 \<le> i \<Longrightarrow> nat i < length ts \<Longrightarrow> assignAt ts i f = Inr (ts[nat i := f (ts ! nat i)])"
  by (simp add: assignAt_def nth_opt_eq)

lemma reach_wf: "parseLines initial pre = Inr s \<Longrightarrow> wf_scan s"
  using parseLines_wf[OF wf_initial, of pre] by auto

lemma reach_track:
  assumes "parseLines initial pre = Inr s"
  shows "currentSection s = ''video'' \<Longrightarrow>
           0 \<le> trackIndex s \<and> nat (trackIndex s) < length (video (result s)) \<and>
           trackIndex s = int (length (video (result s))) - 1"
    and "currentSection s = ''audio'' \<Longrightarrow>
           0 \<le> trackIndex s \<and> nat (trackIndex s) < length (audio (result s)) \<and>
           trackIndex s = int (length (audio (result s))) - 1"
    and "currentSection s = ''text'' \<Longrightarrow>
           0 \<le> trackIndex s \<and> nat (trackIndex s) < length (text_tracks (result s)) \<and>
           trackIndex s = int (length (text_tracks (result s))) - 1"
proof -
  note wf = wf_scanD[OF reach_wf[OF assms]]
  have lt: "xs \<noteq> [] \<Longrightarrow> i = int (length xs) - 1 \<Longrightarrow> nat i < length xs" for xs :: "'b list" and i
    by (cases xs) simp_all
  show "currentSection s = ''video'' \<Longrightarrow>
           0 \<le> trackIndex s \<and> nat (trackIndex s) < length (video (result s)) \<and>
           trackIndex s = int (length (video (result s))) - 1"
    using wf(1) lt[of "video (result s)" "trackIndex s"] by blast
  show "currentSection s = ''audio'' \<Longrightarrow>
           0 \<le> trackIndex s \<and> nat (trackIndex s) < length (audio (result s)) \<and>
           trackIndex s = int (length (audio (result s))) - 1"
    using wf(2) lt[of "audio (result s)" "trackIndex s"] by blast
  show "currentSection s = ''text'' \<Longrightarrow>
           0 \<le> trackIndex s \<and> nat (trackIndex s) < length (text_tracks (result s)) \<and>
           trackIndex s = int (length (text_tracks (result s))) - 1"
    using wf(3) lt[of "text_tracks (result s)" "trackIndex s"] by blast
qed

lemma key_value_step:
  assumes "parseLines initial pre = Inr s" and "keyValueMatch l = Some (k, v)"
    and "currentSection s \<noteq> ''menu''"
  shows "parseLines initial (pre @ [l]) = keyValueLine s k v"
proof -
  have nb: "trim l \<noteq> []" and nh: "sectionMatch l = None"
    using assms(2) keyValueMatch_colon colon_not_blank keyValueMatch_not_header by blast+
  have "parseLine s l = keyValueLine s k v"
    by (simp add: parseLine_other[OF nb nh assms(3)] assms(2))
  then show ?thesis
    by (cases "keyValueLine s k v") (simp_all add: parseLines_append assms(1))
qed

lemma key_value_general:
  assumes "parseLines initial pre = Inr s" and "keyValueMatch l = Some (k, v)"
    and "currentSection s = ''general''"
  shows "parseLines initial (pre @ [l]) =
         Inr (case generalAssign k v of None \<Rightarrow> s | Some f \<Rightarrow> in_general s f)"
proof -
  have "parseLines initial (pre @ [l]) = keyValueLine s k v"
    using assms by (intro key_value_step) simp_all
  then show ?thesis
    by (simp add: keyValueLine_def Let_def assms(3) in_general_def split: option.split)
qed

lemma key_value_video:
  assumes "parseLines initial pre = Inr s" and "keyValueMatch l = Some (k, v)"
    and "currentSection s = ''video''"
  shows "parseLines initial (pre @ [l]) =
         Inr (case videoAssign k v of None \<Rightarrow> s | Some f \<Rightarrow> in_video s f)"
proof -
  from reach_track(1)[OF assms(1,3)]
  have i0: "0 \<le> trackIndex s" and lt: "nat (trackIndex s) < length (video (result s))"
    by blast+
  have "parseLines initial (pre @ [l]) = keyValueLine s k v"
    using assms by (intro key_value_step) simp_all
  then show ?thesis
    by (simp add: keyValueLine_def Let_def assms(3) i0 in_video_def assignAt_in[OF i0 lt]
        split: option.split)
qed

lemma key_value_audio:
  assumes "parseLines initial pre = Inr s" and "keyValueMatch l = Some (k, v)"
    and "currentSection s = ''audio''"
  shows "parseLines initial (pre @ [l]) =
         Inr (case audioAssign k v of None \<Rightarrow> s | Some f \<Rightarrow> in_audio s f)"
proof -
  from reach_track(2)[OF assms(1,3)]
  have i0: "0 \<le> trackIndex s" and lt: "nat (trackIndex s) < length (audio (result s))"
    by blast+
  have "parseLines initial (pre @ [l]) = keyValueLine s k v"
    using assms by (intro key_value_step) simp_all
  then show ?thesis
    by (simp add: keyValueLine_def Let_def assms(3) i0 in_audio_def assignAt_in[OF i0 lt]
        split: option.split)
qed

lemma key_value_text:
  assumes "parseLines initial pre = Inr s" and "keyValueMatch l = Some (k, v)"
    and "currentSection s = ''text''"
  shows "parseLines initial (pre @ [l]) =
         Inr (case textAssign k v of None \<Rightarrow> s | Some f \<Rightarrow> in_text s f)"
proof -
  from reach_track(3)[OF assms(1,3)]
  have i0: "0 \<le> trackIndex s" and lt: "nat (trackIndex s) < length (text_tracks (result s))"
    by blast+
  have "parseLines initial (pre @ [l]) = keyValueLine s k v"
    using assms by (intro key_value_step) simp_all
  then show ?thesis
    by (simp add: keyValueLine_def Let_def assms(3) i0 in_text_def assignAt_in[OF i0 lt]
        split: option.split)
qed

subsection \<open>Unknown keys outside the chapter pattern\<close>

lemma unknown_key_insertion:
  assumes "split (CHR 0x0A) text = pre @ post"
    and "split (CHR 0x0A) text' = pre @ l # post"
    and "keyValueMatch l = Some (k, v)"
    and "k \<notin> set (vocabulary (sectionAt pre))"
    and "sectionAt pre = ''menu'' \<longrightarrow> chapterMatch l = None"
  shows "parseMediaInfo text' = parseMediaInfo text"
proof -
  obtain s where s: "parseLines initial pre = Inr s"
    using parseLines_wf[OF wf_initial] by blast
  have "parseLine s l = Inr s"
    using unknown_key_noop[OF assms(3)] assms(4,5) sectionAt_eq[OF s] by simp
  then have "parseLines initial (pre @ l # post) = parseLines initial (pre @ post)"
    by (simp add: parseLines_append s)
  then show ?thesis
    by (simp add: parseMediaInfo_def assms(1,2))
qed

text \<open>A line that the key-value pattern matches is not matched by the chapter pattern at
  its start: the chapter pattern needs a digit right before the first colon of the line,
  the key-value pattern a blank.\<close>

lemma key_value_not_chapter_at_start:
  assumes "keyValueMatch l = Some kv"
  shows "chapterAt l = None"
proof (rule ccontr)
  assume "chapterAt l \<noteq> None"
  then have sh: "timestamp_shape (take 12 l)"
    by (auto simp: chapterAt_def Let_def split: if_splits)
  then have "length (take 12 l) = 12"
    by (auto simp: timestamp_shape_def timestamp_pattern_def dest: list_all2_lengthD)
  then obtain d1 d2 c r where l: "l = d1 # d2 # c # r"
    by (cases l; cases "tl l"; cases "tl (tl l)") auto
  from sh have d: "is_digit d1" "is_digit d2" "c = CHR '':''"
    by (simp_all add: l timestamp_shape_def timestamp_pattern_def list_all2_Cons1)
  have ne: "d1 \<noteq> CHR '':''" "d2 \<noteq> CHR '':''"
    using digit_neq[OF d(1) not_digit_chars(1)] digit_neq[OF d(2) not_digit_chars(1)] by simp_all
  have front: "takeWhile (\<lambda>c. c \<noteq> CHR '':'') l = [d1, d2]"
    by (simp add: l ne d(3))
  from if_SomeD[OF assms[unfolded keyValueMatch_def Let_def]]
  have "js_space (last (takeWhile (\<lambda>c. c \<noteq> CHR '':'') l))" by blast
  then have "js_space d2" by (simp add: front)
  with digit_not_space[OF d(2)] show False by simp
qed

subsection \<open>Nearest integers and size units\<close>





section \<open>Properties\<close>

subsection \<open>The end-to-end scenario\<close>

text \<open>
  Claim C1.  The report with one \<open>General\<close> block (complete name, file size \<open>1.50 GiB\<close>,
  duration \<open>1 h 45 min 30 s\<close>) and one \<open>Video\<close> block (width \<open>1 920 pixels\<close>, height
  \<open>1 080 pixels\<close>, frame rate \<open>23.976 FPS\<close>) parses without error to a record whose
  general part has the complete name \<open>/path/to/video.mp4\<close>, the file size 1610612736 and
  the duration 6330000, and whose only video track has width 1920 and height 1080
  (and as frame rate the double nearest to 23.976, which is \<open>210895126300459 / 2^43\<close>);
  nothing else is set.
\<close>

theorem C1_end_to_end:
  "parseMediaInfo sample_text =
     Inr \<lparr>general = emptyGeneral\<lparr>g_completeName := Some ''/path/to/video.mp4'',
             g_fileSize := Some (Num 1610612736), g_duration := Some (Num 6330000)\<rparr>,
          video = [emptyVideo\<lparr>v_width := Some (Num 1920), v_height := Some (Num 1080),
             v_frameRate := Some (Num (210895126300459 / 8796093022208))\<rparr>],
          audio = [], text_tracks = [], menu = []\<rparr>"
proof -
  have sp: "split (CHR 0x0A) sample_text =
     [''General'', ''Complete name : /path/to/video.mp4'', ''File size : 1.50 GiB'',
      ''Duration : 1 h 45 min 30 s'', []] @ [''Video'', ''Width : 1 920 pixels'',
      ''Height : 1 080 pixels'', ''Frame rate : 23.976 FPS'', []]"
    by (simp add: sample_text_def unlines_def)
  have h1: "trim ''General'' \<noteq> [] \<and> sectionMatch ''General'' = Some ''General''"
    and h2: "trim ''Video'' \<noteq> [] \<and> sectionMatch ''Video'' = Some ''Video''"
    and b: "trim [] = []"
    by (simp_all add: char_defs match_defs)
  have k1: "trim ''Complete name : /path/to/video.mp4'' \<noteq> [] \<and>
      sectionMatch ''Complete name : /path/to/video.mp4'' = None \<and>
      keyValueMatch ''Complete name : /path/to/video.mp4'' =
        Some (''Complete name'', ''/path/to/video.mp4'')"
    by (simp add: char_defs match_defs)
  have k2: "trim ''File size : 1.50 GiB'' \<noteq> [] \<and>
      sectionMatch ''File size : 1.50 GiB'' = None \<and>
      keyValueMatch ''File size : 1.50 GiB'' = Some (''File size'', ''1.50 GiB'')"
    by (simp add: char_defs match_defs)
  have k3: "trim ''Duration : 1 h 45 min 30 s'' \<noteq> [] \<and>
      sectionMatch ''Duration : 1 h 45 min 30 s'' = None \<and>
      keyValueMatch ''Duration : 1 h 45 min 30 s'' = Some (''Duration'', ''1 h 45 min 30 s'')"
    by (simp add: char_defs match_defs)
  have k4: "trim ''Width : 1 920 pixels'' \<noteq> [] \<and>
      sectionMatch ''Width : 1 920 pixels'' = None \<and>
      keyValueMatch ''Width : 1 920 pixels'' = Some (''Width'', ''1 920 pixels'')"
    by (simp add: char_defs match_defs)
  have k5: "trim ''Height : 1 080 pixels'' \<noteq> [] \<and>
      sectionMatch ''Height : 1 080 pixels'' = None \<and>
      keyValueMatch ''Height : 1 080 pixels'' = Some (''Height'', ''1 080 pixels'')"
    by (simp add: char_defs match_defs)
  have k6: "trim ''Frame rate : 23.976 FPS'' \<noteq> [] \<and>
      sectionMatch ''Frame rate : 23.976 FPS'' = None \<and>
      keyValueMatch ''Frame rate : 23.976 FPS'' = Some (''Frame rate'', ''23.976 FPS'')"
    by (simp add: char_defs match_defs)
  have n: "parseSize ''1.50 GiB'' = Num 1610612736"
    "parseDuration ''1 h 45 min 30 s'' = Num 6330000"
    "parseInt10 (filter (\<lambda>c. \<not> js_space c) ''1 920 pixels'') = Num 1920"
    "parseInt10 (filter (\<lambda>c. \<not> js_space c) ''1 080 pixels'') = Num 1080"
    "parseFloat ''23.976 FPS'' = Num (210895126300459 / 8796093022208)"
    by (simp_all add: char_defs number_defs double_values)
  have a2: "generalAssign ''File size'' ''1.50 GiB'' =
      Some (\<lambda>target. target\<lparr>g_fileSize := Some (Num 1610612736)\<rparr>)"
    and a3: "generalAssign ''Duration'' ''1 h 45 min 30 s'' =
      Some (\<lambda>target. target\<lparr>g_duration := Some (Num 6330000)\<rparr>)"
    and a4: "videoAssign ''Width'' ''1 920 pixels'' =
      Some (\<lambda>target. target\<lparr>v_width := Some (Num 1920)\<rparr>)"
    and a5: "videoAssign ''Height'' ''1 080 pixels'' =
      Some (\<lambda>target. target\<lparr>v_height := Some (Num 1080)\<rparr>)"
    and a6: "videoAssign ''Frame rate'' ''23.976 FPS'' =
      Some (\<lambda>target. target\<lparr>v_frameRate := Some (Num (210895126300459 / 8796093022208))\<rparr>)"
    by (simp_all only: generalAssign_keys videoAssign_keys n)
  note hd1 = parseLine_header[OF conjunct1[OF h1] conjunct2[OF h1]]
  note hd2 = parseLine_header[OF conjunct1[OF h2] conjunct2[OF h2]]
  note bl = parseLine_blank[OF b]
  note g1 = step_general[OF k1 generalAssign_keys(2)]
  note g2 = step_general[OF k2 a2]
  note g3 = step_general[OF k3 a3]
  note v1 = step_video[OF k4 a4]
  note v2 = step_video[OF k5 a5]
  note v3 = step_video[OF k6 a6]
  have 1: "parseLines initial [''General'', ''Complete name : /path/to/video.mp4'',
      ''File size : 1.50 GiB'', ''Duration : 1 h 45 min 30 s'', []] =
    Inr \<lparr>result = \<lparr>general = emptyGeneral\<lparr>g_completeName := Some ''/path/to/video.mp4'',
             g_fileSize := Some (Num 1610612736), g_duration := Some (Num 6330000)\<rparr>,
          video = [], audio = [], text_tracks = [], menu = []\<rparr>,
         currentSection = [], trackIndex = - 1\<rparr>"
    by (simp add: hd1 headerLine_simps g1 g2 g3 bl initial_def)
  have 2: "parseLines
      \<lparr>result = \<lparr>general = g, video = [], audio = [], text_tracks = [], menu = []\<rparr>,
         currentSection = [], trackIndex = - 1\<rparr>
      [''Video'', ''Width : 1 920 pixels'', ''Height : 1 080 pixels'',
       ''Frame rate : 23.976 FPS'', []] =
    Inr \<lparr>result = \<lparr>general = g,
          video = [emptyVideo\<lparr>v_width := Some (Num 1920), v_height := Some (Num 1080),
             v_frameRate := Some (Num (210895126300459 / 8796093022208))\<rparr>],
          audio = [], text_tracks = [], menu = []\<rparr>,
         currentSection = [], trackIndex = 0\<rparr>" for g
    by (simp add: hd2 headerLine_simps v1 v2 v3 bl)
  show ?thesis
    unfolding parseMediaInfo_def sp parseLines_append 1 by (simp only: sum.case 2 scan.simps)
qed

subsection \<open>Fields of the general record that are never set\<close>

text \<open>
  Claim C10.  For every input string the parse returns a record, and in its general part
  neither \<open>streamSize\<close> nor \<open>frameCount\<close> is populated: the general mapper has no case
  that assigns them.
\<close>

theorem C10_general_never_streamSize_frameCount:
  "\<exists>r. parseMediaInfo text = Inr r \<and> g_streamSize (general r) = None
        \<and> g_frameCount (general r) = None"
proof -
  obtain s where s: "parseLines initial (split (CHR 0x0A) text) = Inr s"
    using parseLines_wf[OF wf_initial] by blast
  from parseLines_general[OF s] have
    "g_streamSize (general (result s)) = None \<and> g_frameCount (general (result s)) = None"
    by (simp add: initial_def emptyGeneral_def)
  then show ?thesis using s by (simp add: parseMediaInfo_def)
qed

subsection \<open>Unknown keys\<close>

text \<open>
  Claim C5 says that a key-value line whose key is outside the vocabulary of the section in
  effect changes nothing in the result, wherever it is inserted, and that the parse never
  raises.  The second half holds (\<open>parse_total\<close>), and so does the first outside a
  \<open>Menu\<close> section (\<open>unknown_key_insertion\<close>).  Inside a \<open>Menu\<close> section the source tries
  every line against the chapter pattern, and that pattern lacks the anchor at the start
  of the line (the defect of claim C6): it finds a chapter entry in the value of a
  key-value line and appends a chapter.  Anchored at the start, the chapter pattern matches
  no key-value line (\<open>key_value_not_chapter_at_start\<close>).
\<close>

theorem C5_unknown_key_line_appends_chapter:
  "keyValueMatch ''UnknownKey : 00:00:01.000 : en:X'' =
     Some (''UnknownKey'', ''00:00:01.000 : en:X'') \<and>
   ''UnknownKey'' \<notin> set (general_keys @ video_keys @ audio_keys @ text_keys) \<and>
   chapterAt ''UnknownKey : 00:00:01.000 : en:X'' = None \<and>
   parseMediaInfo (unlines [''Menu'']) =
     Inr \<lparr>general = emptyGeneral, video = [], audio = [], text_tracks = [], menu = []\<rparr> \<and>
   parseMediaInfo (unlines [''Menu'', ''UnknownKey : 00:00:01.000 : en:X'']) =
     Inr \<lparr>general = emptyGeneral, video = [], audio = [], text_tracks = [],
          menu = [\<lparr>c_timestamp = Num 1000, c_title = ''X''\<rparr>]\<rparr>"
proof -
  have kv: "keyValueMatch ''UnknownKey : 00:00:01.000 : en:X'' =
     Some (''UnknownKey'', ''00:00:01.000 : en:X'')"
    by (simp add: char_defs match_defs)
  have un: "''UnknownKey'' \<notin> set (general_keys @ video_keys @ audio_keys @ text_keys)"
    by (simp add: general_keys_def video_keys_def audio_keys_def text_keys_def)
  have at: "chapterAt ''UnknownKey : 00:00:01.000 : en:X'' = None"
    by (simp add: char_defs match_defs)
  have h: "trim ''Menu'' \<noteq> [] \<and> sectionMatch ''Menu'' = Some ''Menu''"
    and b: "trim [] = []"
    and l: "trim ''UnknownKey : 00:00:01.000 : en:X'' \<noteq> [] \<and>
      sectionMatch ''UnknownKey : 00:00:01.000 : en:X'' = None"
    by (simp_all add: char_defs match_defs)
  have c: "chapterLine s ''UnknownKey : 00:00:01.000 : en:X'' =
      s\<lparr>result := (result s)\<lparr>menu := menu (result s) @
        [\<lparr>c_timestamp = Num 1000, c_title = ''X''\<rparr>]\<rparr>\<rparr>" for s
    by (simp add: chapter_defs char_defs match_defs number_defs Let_def)
  note hd = parseLine_header[OF conjunct1[OF h] conjunct2[OF h]]
  note bl = parseLine_blank[OF b]
  note mn = parseLine_menu[OF conjunct1[OF l] conjunct2[OF l]]
  have 1: "parseMediaInfo (unlines [''Menu'']) =
     Inr \<lparr>general = emptyGeneral, video = [], audio = [], text_tracks = [], menu = []\<rparr>"
    by (simp add: parseMediaInfo_def unlines_def hd headerLine_simps bl initial_def)
  have 2: "parseMediaInfo (unlines [''Menu'', ''UnknownKey : 00:00:01.000 : en:X'']) =
     Inr \<lparr>general = emptyGeneral, video = [], audio = [], text_tracks = [],
          menu = [\<lparr>c_timestamp = Num 1000, c_title = ''X''\<rparr>]\<rparr>"
    by (simp add: parseMediaInfo_def unlines_def hd headerLine_simps bl mn c initial_def)
  from kv un at 1 2 show ?thesis by blast
qed

subsection \<open>Blank lines\<close>

text \<open>
  Claim C8.  A blank (whitespace-only) line sets the current section to the unset state,
  whatever the scan state was; and all the lines that stand between a blank line and the
  next section header are no-ops: the report parses to the same result as the report
  without them.
\<close>

theorem C8_blank_line_resets_section:
  assumes "split (CHR 0x0A) text = pre @ b # mid @ post"
    and "split (CHR 0x0A) text' = pre @ b # post"
    and "\<forall>c\<in>set b. js_space c"
    and "\<forall>l\<in>set mid. sectionMatch l = None"
  shows "(\<forall>s. parseLine s b = Inr (s\<lparr>currentSection := []\<rparr>)) \<and>
         parseMediaInfo text = parseMediaInfo text'"
proof -
  have bl: "parseLine s b = Inr (s\<lparr>currentSection := []\<rparr>)" for s
    using assms(3) by (simp add: parseLine_blank trim_Nil_iff)
  obtain s where s: "parseLines initial pre = Inr s"
    using parseLines_wf[OF wf_initial] by blast
  have "parseLines (s\<lparr>currentSection := []\<rparr>) mid = Inr (s\<lparr>currentSection := []\<rparr>)"
    using unset_noop_lines[OF _ assms(4)] by simp
  then have "parseLines initial (pre @ b # mid @ post) = parseLines initial (pre @ b # post)"
    by (simp add: parseLines_append s bl)
  then have "parseMediaInfo text = parseMediaInfo text'"
    by (simp add: parseMediaInfo_def assms(1,2))
  then show ?thesis using bl by blast
qed

theorem C8_blank_line_resets_section_witness:
  "split (CHR 0x0A) (unlines [''General'', '' '', ''Format : MPEG-4'', ''Video'']) =
     [''General''] @ '' '' # [''Format : MPEG-4''] @ [''Video'', []] \<and>
   split (CHR 0x0A) (unlines [''General'', '' '', ''Video'']) =
     [''General''] @ '' '' # [''Video'', []] \<and>
   js_space (CHR '' '') \<and>
   sectionMatch ''Format : MPEG-4'' = None \<and>
   (\<forall>s. parseLine s '' '' = Inr (s\<lparr>currentSection := []\<rparr>)) \<and>
   parseMediaInfo (unlines [''General'', '' '', ''Format : MPEG-4'', ''Video'']) =
     parseMediaInfo (unlines [''General'', '' '', ''Video''])"
proof -
  have 1: "split (CHR 0x0A) (unlines [''General'', '' '', ''Format : MPEG-4'', ''Video'']) =
     [''General''] @ '' '' # [''Format : MPEG-4''] @ [''Video'', []]"
    and 2: "split (CHR 0x0A) (unlines [''General'', '' '', ''Video'']) =
     [''General''] @ '' '' # [''Video'', []]"
    by (simp_all add: unlines_def)
  have 3: "\<forall>c\<in>set '' ''. js_space c"
    by (simp add: js_space_def)
  have 4: "\<forall>l\<in>set [''Format : MPEG-4'']. sectionMatch l = None"
    by (simp add: char_defs match_defs)
  have 5: "js_space (CHR '' '')" and 6: "sectionMatch ''Format : MPEG-4'' = None"
    using 3 4 by simp_all
  from C8_blank_line_resets_section[OF 1 2 3 4] 1 2 5 6 show ?thesis by blast
qed

subsection \<open>Malformed values of recognized keys\<close>

text \<open>
  Claim C9, as stated: for every recognized key with a normalizer, the field is assigned
  whatever the normalizer computes on the value, also for the \<open>Stream size\<close> key of the
  video, audio and text sections.  For \<open>Stream size\<close> this fails: the source assigns only
  under \<open>if (sizeMatch)\<close>, so a value that the size pattern does not match (here
  \<open>unknown\<close>, on which \<open>parseSize\<close> would give \<open>NaN\<close>) leaves the field unset.
\<close>

theorem C9_counterexample:
  "sizeMatch ''unknown'' = None \<and> parseSize ''unknown'' = NaN \<and>
   parseMediaInfo (unlines [''Video'', ''Stream size : unknown'']) =
     Inr \<lparr>general = emptyGeneral, video = [emptyVideo], audio = [], text_tracks = [],
          menu = []\<rparr> \<and>
   v_streamSize emptyVideo = None"
proof -
  have sm: "sizeMatch ''unknown'' = None"
    by (simp add: char_defs match_defs)
  have ps: "parseSize ''unknown'' = NaN"
    by (simp add: char_defs number_defs)
  have h: "trim ''Video'' \<noteq> [] \<and> sectionMatch ''Video'' = Some ''Video''"
    and b: "trim [] = []"
    and l: "trim ''Stream size : unknown'' \<noteq> [] \<and>
      sectionMatch ''Stream size : unknown'' = None"
    and kv: "keyValueMatch ''Stream size : unknown'' = Some (''Stream size'', ''unknown'')"
    by (simp_all add: char_defs match_defs)
  have va: "videoAssign ''Stream size'' ''unknown'' = None"
    by (simp only: videoAssign_keys sm option.map)
  have st: "parseLine s ''Stream size : unknown'' = Inr s" if "currentSection s = ''video''" for s
    using that by (simp add: parseLine_other[OF conjunct1[OF l] conjunct2[OF l]] kv
        keyValueLine_def va Let_def)
  note hd = parseLine_header[OF conjunct1[OF h] conjunct2[OF h]]
  note bl = parseLine_blank[OF b]
  have "parseMediaInfo (unlines [''Video'', ''Stream size : unknown'']) =
     Inr \<lparr>general = emptyGeneral, video = [emptyVideo], audio = [], text_tracks = [],
          menu = []\<rparr>"
    by (simp add: parseMediaInfo_def unlines_def hd headerLine_simps st bl initial_def)
  then show ?thesis using sm ps by (simp add: emptyVideo_def)
qed

text \<open>
  Claim C9, amended.  The parse is never aborted: it returns a record for every input.
  Let a line that the key-value pattern matches, with key \<open>k\<close> and value \<open>v\<close> of whatever
  shape, follow a scanned prefix of a report.  In a \<open>General\<close> section each normalized key
  stores in its field of the general record what its normalizer computes on \<open>v\<close>.  In a
  \<open>Video\<close>, \<open>Audio\<close> or \<open>Text\<close> section the track index points at the last track of the
  section's sequence, and each normalized key other than \<open>Stream size\<close> stores in its
  field of that track what its normalizer computes on \<open>v\<close> (a size, a duration, a bit
  rate, a frequency, an integer, a float or a boolean; possibly \<open>NaN\<close>).  \<open>Stream size\<close>
  stores \<open>parseSize\<close> of the part of \<open>v\<close> that the size pattern matches, and leaves the
  state as it is when the pattern matches no part.  Nothing else of the scan state
  changes.
\<close>

theorem C9_normalized_fields_assigned:
  assumes "parseLines initial pre = Inr s" and "keyValueMatch l = Some (k, v)"
  shows "(\<forall>text. \<exists>r. parseMediaInfo text = Inr r) \<and>
   (currentSection s = ''general'' \<longrightarrow>
      (k = ''File size'' \<longrightarrow>
         parseLines initial (pre @ [l]) =
           Inr (in_general s
              (\<lambda>target. target\<lparr>g_fileSize := Some (parseSize v)\<rparr>))) \<and>
      (k = ''Duration'' \<longrightarrow>
         parseLines initial (pre @ [l]) =
           Inr (in_general s
              (\<lambda>target. target\<lparr>g_duration := Some (parseDuration v)\<rparr>))) \<and>
      (k = ''Overall bit rate'' \<longrightarrow>
         parseLines initial (pre @ [l]) =
           Inr (in_general s
              (\<lambda>target. target\<lparr>g_overallBitRate := Some (parseBitRate v)\<rparr>))) \<and>
      (k = ''Frame rate'' \<longrightarrow>
         parseLines initial (pre @ [l]) =
           Inr (in_general s
              (\<lambda>target. target\<lparr>g_frameRate := Some (parseFloat v)\<rparr>))) \<and>
      (k = ''Encoded date'' \<longrightarrow>
         parseLines initial (pre @ [l]) =
           Inr (in_general s
              (\<lambda>target. target\<lparr>g_encodedDate := Some (parseDate v)\<rparr>)))) \<and>
   (currentSection s = ''video'' \<longrightarrow>
      0 \<le> trackIndex s \<and> nat (trackIndex s) < length (video (result s)) \<and>
      trackIndex s = int (length (video (result s))) - 1 \<and>
      (k = ''ID'' \<longrightarrow>
         parseLines initial (pre @ [l]) =
           Inr (in_video s
              (\<lambda>target. target\<lparr>v_id := Some (parseInt10 v)\<rparr>))) \<and>
      (k = ''Duration'' \<longrightarrow>
         parseLines initial (pre @ [l]) =
           Inr (in_video s
              (\<lambda>target. target\<lparr>v_duration := Some (parseDuration v)\<rparr>))) \<and>
      (k = ''Bit rate'' \<longrightarrow>
         parseLines initial (pre @ [l]) =
           Inr (in_video s
              (\<lambda>target. target\<lparr>v_bitRate := Some (parseBitRate v)\<rparr>))) \<and>
      (k = ''Maximum bit rate'' \<longrightarrow>
         parseLines initial (pre @ [l]) =
           Inr (in_video s
              (\<lambda>target. target\<lparr>v_maximumBitRate := Some (parseBitRate v)\<rparr>))) \<and>
      (k = ''Width'' \<longrightarrow>
         parseLines initial (pre @ [l]) =
           Inr (in_video s
              (\<lambda>target. target\<lparr>v_width := Some (parseInt10 (filter (\<lambda>c. \<not> js_space c) v))\<rparr>))) \<and>
      (k = ''Height'' \<longrightarrow>
         parseLines initial (pre @ [l]) =
           Inr (in_video s
              (\<lambda>target. target\<lparr>v_height := Some (parseInt10 (filter (\<lambda>c. \<not> js_space c) v))\<rparr>))) \<and>
      (k = ''Frame rate'' \<longrightarrow>
         parseLines initial (pre @ [l]) =
           Inr (in_video s
              (\<lambda>target. target\<lparr>v_frameRate := Some (parseFloat v)\<rparr>))) \<and>
      (k = ''Bit depth'' \<longrightarrow>
         parseLines initial (pre @ [l]) =
           Inr (in_video s
              (\<lambda>target. target\<lparr>v_bitDepth := Some (parseInt10 v)\<rparr>))) \<and>
      (k = ''Bits/(Pixel*Frame)'' \<longrightarrow>
         parseLines initial (pre @ [l]) =
           Inr (in_video s
              (\<lambda>target. target\<lparr>v_bitsPerPixelFrame := Some (parseFloat v)\<rparr>))) \<and>
      (k = ''Stream size'' \<longrightarrow>
         parseLines initial (pre @ [l]) =
           Inr ((case sizeMatch v of None \<Rightarrow> s
              | Some m \<Rightarrow> in_video s (\<lambda>target. target\<lparr>v_streamSize := Some (parseSize m)\<rparr>)))) \<and>
      (k = ''Default'' \<longrightarrow>
         parseLines initial (pre @ [l]) =
           Inr (in_video s
              (\<lambda>target. target\<lparr>v_default := Some (toLowerCase v = ''yes'')\<rparr>))) \<and>
      (k = ''Forced'' \<longrightarrow>
         parseLines initial (pre @ [l]) =
           Inr (in_video s
              (\<lambda>target. target\<lparr>v_forced := Some (toLowerCase v = ''yes'')\<rparr>)))) \<and>
   (currentSection s = ''audio'' \<longrightarrow>
      0 \<le> trackIndex s \<and> nat (trackIndex s) < length (audio (result s)) \<and>
      trackIndex s = int (length (audio (result s))) - 1 \<and>
      (k = ''ID'' \<longrightarrow>
         parseLines initial (pre @ [l]) =
           Inr (in_audio s
              (\<lambda>target. target\<lparr>a_id := Some (parseInt10 v)\<rparr>))) \<and>
      (k = ''Duration'' \<longrightarrow>
         parseLines initial (pre @ [l]) =
           Inr (in_audio s
              (\<lambda>target. target\<lparr>a_duration := Some (parseDuration v)\<rparr>))) \<and>
      (k = ''Bit rate'' \<longrightarrow>
         parseLines initial (pre @ [l]) =
           Inr (in_audio s
              (\<lambda>target. target\<lparr>a_bitRate := Some (parseBitRate v)\<rparr>))) \<and>
      (k = ''Channel(s)'' \<longrightarrow>
         parseLines initial (pre @ [l]) =
           Inr (in_audio s
              (\<lambda>target. target\<lparr>a_channels := Some (parseInt10 v)\<rparr>))) \<and>
      (k = ''Sampling rate'' \<longrightarrow>
         parseLines initial (pre @ [l]) =
           Inr (in_audio s
              (\<lambda>target. target\<lparr>a_samplingRate := Some (parseFrequency v)\<rparr>))) \<and>
      (k = ''Frame rate'' \<longrightarrow>
         parseLines initial (pre @ [l]) =
           Inr (in_audio s
              (\<lambda>target. target\<lparr>a_frameRate := Some (parseFloat v)\<rparr>))) \<and>
      (k = ''Bit depth'' \<longrightarrow>
         parseLines initial (pre @ [l]) =
           Inr (in_audio s
              (\<lambda>target. target\<lparr>a_bitDepth := Some (parseInt10 v)\<rparr>))) \<and>
      (k = ''Stream size'' \<longrightarrow>
         parseLines initial (pre @ [l]) =
           Inr ((case sizeMatch v of None \<Rightarrow> s
              | Some m \<Rightarrow> in_audio s (\<lambda>target. target\<lparr>a_streamSize := Some (parseSize m)\<rparr>)))) \<and>
      (k = ''Default'' \<longrightarrow>
         parseLines initial (pre @ [l]) =
           Inr (in_audio s
              (\<lambda>target. target\<lparr>a_default := Some (toLowerCase v = ''yes'')\<rparr>))) \<and>
      (k = ''Forced'' \<longrightarrow>
         parseLines initial (pre @ [l]) =
           Inr (in_audio s
              (\<lambda>target. target\<lparr>a_forced := Some (toLowerCase v = ''yes'')\<rparr>)))) \<and>
   (currentSection s = ''text'' \<longrightarrow>
      0 \<le> trackIndex s \<and> nat (trackIndex s) < length (text_tracks (result s)) \<and>
      trackIndex s = int (length (text_tracks (result s))) - 1 \<and>
      (k = ''ID'' \<longrightarrow>
         parseLines initial (pre @ [l]) =
           Inr (in_text s
              (\<lambda>target. target\<lparr>t_id := Some (parseInt10 v)\<rparr>))) \<and>
      (k = ''Duration'' \<longrightarrow>
         parseLines initial (pre @ [l]) =
           Inr (in_text s
              (\<lambda>target. target\<lparr>t_duration := Some (parseDuration v)\<rparr>))) \<and>
      (k = ''Bit rate'' \<longrightarrow>
         parseLines initial (pre @ [l]) =
           Inr (in_text s
              (\<lambda>target. target\<lparr>t_bitRate := Some (parseBitRate v)\<rparr>))) \<and>
      (k = ''Frame rate'' \<longrightarrow>
         parseLines initial (pre @ [l]) =
           Inr (in_text s
              (\<lambda>target. target\<lparr>t_frameRate := Some (parseFloat v)\<rparr>))) \<and>
      (k = ''Count of elements'' \<longrightarrow>
         parseLines initial (pre @ [l]) =
           Inr (in_text s
              (\<lambda>target. target\<lparr>t_countOfElements := Some (parseInt10 v)\<rparr>))) \<and>
      (k = ''Stream size'' \<longrightarrow>
         parseLines initial (pre @ [l]) =
           Inr ((case sizeMatch v of None \<Rightarrow> s
              | Some m \<Rightarrow> in_text s (\<lambda>target. target\<lparr>t_streamSize := Some (parseSize m)\<rparr>)))) \<and>
      (k = ''Default'' \<longrightarrow>
         parseLines initial (pre @ [l]) =
           Inr (in_text s
              (\<lambda>target. target\<lparr>t_default := Some (toLowerCase v = ''yes'')\<rparr>))) \<and>
      (k = ''Forced'' \<longrightarrow>
         parseLines initial (pre @ [l]) =
           Inr (in_text s
              (\<lambda>target. target\<lparr>t_forced := Some (toLowerCase v = ''yes'')\<rparr>))))"
proof (intro conjI impI allI)
  show "\<exists>r. parseMediaInfo t = Inr r" for t by (rule parse_total)
  show "0 \<le> trackIndex s" and "nat (trackIndex s) < length (video (result s))"
    and "trackIndex s = int (length (video (result s))) - 1" if "currentSection s = ''video''"
    using reach_track(1)[OF assms(1) that] by blast+
  show "0 \<le> trackIndex s" and "nat (trackIndex s) < length (audio (result s))"
    and "trackIndex s = int (length (audio (result s))) - 1" if "currentSection s = ''audio''"
    using reach_track(2)[OF assms(1) that] by blast+
  show "0 \<le> trackIndex s" and "nat (trackIndex s) < length (text_tracks (result s))"
    and "trackIndex s = int (length (text_tracks (result s))) - 1" if "currentSection s = ''text''"
    using reach_track(3)[OF assms(1) that] by blast+
qed (simp_all add: key_value_general[OF assms] key_value_video[OF assms]
      key_value_audio[OF assms] key_value_text[OF assms]
      generalAssign_keys videoAssign_keys audioAssign_keys textAssign_keys split: option.split)

theorem C9_normalized_fields_assigned_witness:
  "parseLines initial [''Video'', ''Bit rate : fast''] =
     Inr \<lparr>result = \<lparr>general = emptyGeneral, video = [emptyVideo\<lparr>v_bitRate := Some NaN\<rparr>],
                     audio = [], text_tracks = [], menu = []\<rparr>,
          currentSection = ''video'', trackIndex = 0\<rparr> \<and>
   parseLines initial [''Audio'', ''Stream size : 1.50 GiB (3%)''] =
     Inr \<lparr>result = \<lparr>general = emptyGeneral, video = [],
                     audio = [emptyAudio\<lparr>a_streamSize := Some (Num 1610612736)\<rparr>],
                     text_tracks = [], menu = []\<rparr>,
          currentSection = ''audio'', trackIndex = 0\<rparr> \<and>
   parseLines initial [''General'', ''File size : big''] =
     Inr \<lparr>result = \<lparr>general = emptyGeneral\<lparr>g_fileSize := Some NaN\<rparr>, video = [],
                     audio = [], text_tracks = [], menu = []\<rparr>,
          currentSection = ''general'', trackIndex = - 1\<rparr>"
proof -
  define val where "val = ''1.50 GiB (3%)''"
  have h: "trim ''Video'' \<noteq> [] \<and> sectionMatch ''Video'' = Some ''Video''"
    "trim ''Audio'' \<noteq> [] \<and> sectionMatch ''Audio'' = Some ''Audio''"
    "trim ''General'' \<noteq> [] \<and> sectionMatch ''General'' = Some ''General''"
    by (simp_all add: char_defs match_defs)
  have p1: "parseLines initial [''Video''] =
      Inr \<lparr>result = \<lparr>general = emptyGeneral, video = [emptyVideo], audio = [],
                      text_tracks = [], menu = []\<rparr>,
           currentSection = ''video'', trackIndex = 0\<rparr>"
    by (simp add: parseLine_header[OF conjunct1[OF h(1)] conjunct2[OF h(1)]] headerLine_simps
        initial_def)
  have p2: "parseLines initial [''Audio''] =
      Inr \<lparr>result = \<lparr>general = emptyGeneral, video = [], audio = [emptyAudio],
                      text_tracks = [], menu = []\<rparr>,
           currentSection = ''audio'', trackIndex = 0\<rparr>"
    by (simp add: parseLine_header[OF conjunct1[OF h(2)] conjunct2[OF h(2)]] headerLine_simps
        initial_def)
  have p3: "parseLines initial [''General''] =
      Inr \<lparr>result = \<lparr>general = emptyGeneral, video = [], audio = [],
                      text_tracks = [], menu = []\<rparr>,
           currentSection = ''general'', trackIndex = - 1\<rparr>"
    by (simp add: parseLine_header[OF conjunct1[OF h(3)] conjunct2[OF h(3)]] headerLine_simps
        initial_def)
  have k1: "keyValueMatch ''Bit rate : fast'' = Some (''Bit rate'', ''fast'')"
    and k2: "keyValueMatch ''Stream size : 1.50 GiB (3%)'' = Some (''Stream size'', val)"
    and k3: "keyValueMatch ''File size : big'' = Some (''File size'', ''big'')"
    by (simp_all add: val_def char_defs match_defs)
  have n1: "parseBitRate ''fast'' = NaN"
    and n2: "sizeMatch val = Some ''1.50 GiB''"
    and n3: "parseSize ''1.50 GiB'' = Num 1610612736"
    and n4: "parseSize ''big'' = NaN"
    by (simp_all add: val_def char_defs number_defs match_defs double_values)
  have 1: "parseLines initial [''Video'', ''Bit rate : fast''] =
     Inr \<lparr>result = \<lparr>general = emptyGeneral, video = [emptyVideo\<lparr>v_bitRate := Some NaN\<rparr>],
                     audio = [], text_tracks = [], menu = []\<rparr>,
          currentSection = ''video'', trackIndex = 0\<rparr>"
    using C9_normalized_fields_assigned[OF p1 k1] by (simp add: in_video_def n1)
  have 2: "parseLines initial [''Audio'', ''Stream size : 1.50 GiB (3%)''] =
     Inr \<lparr>result = \<lparr>general = emptyGeneral, video = [],
                     audio = [emptyAudio\<lparr>a_streamSize := Some (Num 1610612736)\<rparr>],
                     text_tracks = [], menu = []\<rparr>,
          currentSection = ''audio'', trackIndex = 0\<rparr>"
    using C9_normalized_fields_assigned[OF p2 k2] by (simp add: in_audio_def n2 n3)
  have 3: "parseLines initial [''General'', ''File size : big''] =
     Inr \<lparr>result = \<lparr>general = emptyGeneral\<lparr>g_fileSize := Some NaN\<rparr>, video = [],
                     audio = [], text_tracks = [], menu = []\<rparr>,
          currentSection = ''general'', trackIndex = - 1\<rparr>"
    using C9_normalized_fields_assigned[OF p3 k3] by (simp add: in_general_def n4)
  from 1 2 3 show ?thesis by blast
qed

subsection \<open>Chapter lines\<close>

text \<open>
  Claim C6 says that inside a \<open>Menu\<close> section a line appends a chapter only if it has the
  exact shape \<open>HH:MM:SS.mmm\<close> (two, two, two and three digits, colon and full stop as
  separators) followed by the separator and a colon-delimited tail.  The source's pattern
  has an unescaped dot between seconds and milliseconds and no anchor at the start, so it
  accepts other shapes: a line with \<open>x\<close> in place of the full stop appends a chapter
  whose timestamp is \<open>NaN\<close> (the separator-splitting that follows expects \<open>:\<close> or \<open>.\<close>
  and finds only three pieces), and a line with three hour digits appends a chapter whose
  timestamp drops the first digit.
\<close>

theorem C6_malformed_chapter_accepted:
  "parseMediaInfo (unlines [''Menu'', ''00:23:50x000 : en:Chapter 5'']) =
     Inr \<lparr>general = emptyGeneral, video = [], audio = [], text_tracks = [],
          menu = [\<lparr>c_timestamp = NaN, c_title = ''Chapter 5''\<rparr>]\<rparr> \<and>
   parseMediaInfo (unlines [''Menu'', ''100:23:50.000 : en:Chapter 5'']) =
     Inr \<lparr>general = emptyGeneral, video = [], audio = [], text_tracks = [],
          menu = [\<lparr>c_timestamp = Num 1430000, c_title = ''Chapter 5''\<rparr>]\<rparr>"
proof -
  have h: "trim ''Menu'' \<noteq> [] \<and> sectionMatch ''Menu'' = Some ''Menu''"
    and b: "trim [] = []"
    and l1: "trim ''00:23:50x000 : en:Chapter 5'' \<noteq> [] \<and>
      sectionMatch ''00:23:50x000 : en:Chapter 5'' = None"
    and l2: "trim ''100:23:50.000 : en:Chapter 5'' \<noteq> [] \<and>
      sectionMatch ''100:23:50.000 : en:Chapter 5'' = None"
    by (simp_all add: char_defs match_defs)
  have c1: "chapterLine s ''00:23:50x000 : en:Chapter 5'' =
      s\<lparr>result := (result s)\<lparr>menu := menu (result s) @
        [\<lparr>c_timestamp = NaN, c_title = ''Chapter 5''\<rparr>]\<rparr>\<rparr>" for s
    by (simp add: chapter_defs char_defs match_defs number_defs Let_def)
  have c2: "chapterLine s ''100:23:50.000 : en:Chapter 5'' =
      s\<lparr>result := (result s)\<lparr>menu := menu (result s) @
        [\<lparr>c_timestamp = Num 1430000, c_title = ''Chapter 5''\<rparr>]\<rparr>\<rparr>" for s
    by (simp add: chapter_defs char_defs match_defs number_defs Let_def)
  note hd = parseLine_header[OF conjunct1[OF h] conjunct2[OF h]]
  note bl = parseLine_blank[OF b]
  note m1 = parseLine_menu[OF conjunct1[OF l1] conjunct2[OF l1]]
  note m2 = parseLine_menu[OF conjunct1[OF l2] conjunct2[OF l2]]
  have 1: "parseMediaInfo (unlines [''Menu'', ''00:23:50x000 : en:Chapter 5'']) =
     Inr \<lparr>general = emptyGeneral, video = [], audio = [], text_tracks = [],
          menu = [\<lparr>c_timestamp = NaN, c_title = ''Chapter 5''\<rparr>]\<rparr>"
    by (simp add: parseMediaInfo_def unlines_def hd headerLine_simps bl m1 c1 initial_def)
  have 2: "parseMediaInfo (unlines [''Menu'', ''100:23:50.000 : en:Chapter 5'']) =
     Inr \<lparr>general = emptyGeneral, video = [], audio = [], text_tracks = [],
          menu = [\<lparr>c_timestamp = Num 1430000, c_title = ''Chapter 5''\<rparr>]\<rparr>"
    by (simp add: parseMediaInfo_def unlines_def hd headerLine_simps bl m2 c2 initial_def)
  from 1 2 show ?thesis by blast
qed

text \<open>
  Claim C7, as stated: the title of the chapter is the text after the last colon of the
  matched line.  With two colons in the tail this fails: the lazy \<open>.*?\<close> of the pattern
  stops at the first colon after the separator, so the title is everything after that
  colon.
\<close>

theorem C7_counterexample:
  "parseMediaInfo (unlines [''Menu'', ''00:00:01.000 : en:A:B'']) =
     Inr \<lparr>general = emptyGeneral, video = [], audio = [], text_tracks = [],
          menu = [\<lparr>c_timestamp = Num 1000, c_title = ''A:B''\<rparr>]\<rparr> \<and>
   trim (after_last_colon ''00:00:01.000 : en:A:B'') = ''B''"
proof -
  have h: "trim ''Menu'' \<noteq> [] \<and> sectionMatch ''Menu'' = Some ''Menu''"
    and b: "trim [] = []"
    and l: "trim ''00:00:01.000 : en:A:B'' \<noteq> [] \<and>
      sectionMatch ''00:00:01.000 : en:A:B'' = None"
    by (simp_all add: char_defs match_defs)
  have c: "chapterLine s ''00:00:01.000 : en:A:B'' =
      s\<lparr>result := (result s)\<lparr>menu := menu (result s) @
        [\<lparr>c_timestamp = Num 1000, c_title = ''A:B''\<rparr>]\<rparr>\<rparr>" for s
    by (simp add: chapter_defs char_defs match_defs number_defs Let_def)
  note hd = parseLine_header[OF conjunct1[OF h] conjunct2[OF h]]
  note bl = parseLine_blank[OF b]
  note mn = parseLine_menu[OF conjunct1[OF l] conjunct2[OF l]]
  have 1: "parseMediaInfo (unlines [''Menu'', ''00:00:01.000 : en:A:B'']) =
     Inr \<lparr>general = emptyGeneral, video = [], audio = [], text_tracks = [],
          menu = [\<lparr>c_timestamp = Num 1000, c_title = ''A:B''\<rparr>]\<rparr>"
    by (simp add: parseMediaInfo_def unlines_def hd headerLine_simps bl mn c initial_def)
  have 2: "trim (after_last_colon ''00:00:01.000 : en:A:B'') = ''B''"
    by (simp add: after_last_colon_def char_defs)
  from 1 2 show ?thesis by blast
qed

text \<open>
  Claim C7, amended.  A \<open>Menu\<close> line made of a timestamp \<open>HH:MM:SS.mmm\<close> (two, two, two
  and three digits), blanks, a colon, blanks, a label without colon, a colon and a title
  appends one chapter.  Its timestamp is hours times 3600000 plus minutes times 60000 plus
  seconds times 1000 plus milliseconds; its title is the text after the first colon that
  follows the separator (the colon closing the label), trimmed, whether or not that text
  holds further colons.  In particular \<open>00:23:50.000 : en:Chapter 5\<close> gives the timestamp
  1430000 and the title \<open>Chapter 5\<close>.
\<close>

theorem C7_chapter_timestamp_and_title:
  assumes "length h = 2" and "length m = 2" and "length sec = 2" and "length ms = 3"
    and "list_all is_digit (h @ m @ sec @ ms)"
    and "w1 \<noteq> []" and "list_all js_space w1"
    and "w2 \<noteq> []" and "list_all js_space w2"
    and "CHR '':'' \<notin> set label" and "\<not> list_ex line_terminator label"
    and "\<not> list_ex line_terminator title"
    and "currentSection s = ''menu''"
  shows "parseLine s (h @ '':'' @ m @ '':'' @ sec @ ''.'' @ ms @ w1 @ '':'' @ w2 @ label @ '':'' @ title) =
     Inr (s\<lparr>result := (result s)\<lparr>menu := menu (result s) @
       [\<lparr>c_timestamp = Num (of_nat (nat_of_digits h) * 3600000 +
                              of_nat (nat_of_digits m) * 60000 +
                              of_nat (nat_of_digits sec) * 1000 +
                              of_nat (nat_of_digits ms)),
         c_title = trim title\<rparr>]\<rparr>\<rparr>)"
proof -
  let ?line = "h @ '':'' @ m @ '':'' @ sec @ ''.'' @ ms @ w1 @ '':'' @ w2 @ label @ '':'' @ title"
  have colon: "CHR '':'' \<in> set ?line" by simp
  have nb: "trim ?line \<noteq> []" by (rule colon_not_blank[OF colon])
  have nh: "sectionMatch ?line = None"
    using sectionMatch_no_colon[of ?line] colon by (cases "sectionMatch ?line") blast+
  have cm: "chapterMatch ?line = Some (h @ '':'' @ m @ '':'' @ sec @ ''.'' @ ms, title)"
    by (rule chapterMatch_at[OF chapterAt_shape[OF assms(1-12)]])
  from assms(5) have d: "list_all is_digit h" "list_all is_digit m" "list_all is_digit sec"
    "list_all is_digit ms" by simp_all
  have ne: "h \<noteq> []" "m \<noteq> []" "sec \<noteq> []" "ms \<noteq> []"
    using assms(1-4) by auto
  have bd: "nat_of_digits h < 100" "nat_of_digits m < 100" "nat_of_digits sec < 100"
    "nat_of_digits ms < 1000"
    using nat_of_digits_bound[OF d(1)] nat_of_digits_bound[OF d(2)]
      nat_of_digits_bound[OF d(3)] nat_of_digits_bound[OF d(4)] assms(1-4) by simp_all
  have pi: "parseInt (Some h) = Num (of_nat (nat_of_digits h))"
    "parseInt (Some m) = Num (of_nat (nat_of_digits m))"
    "parseInt (Some sec) = Num (of_nat (nat_of_digits sec))"
    "parseInt (Some ms) = Num (of_nat (nat_of_digits ms))"
    using assms(1-4)
    by (simp_all add: parseInt_digits[OF ne(1) d(1)] parseInt_digits[OF ne(2) d(2)]
        parseInt_digits[OF ne(3) d(3)] parseInt_digits[OF ne(4) d(4)]
        to_double_nat[OF nat_of_digits_small[OF d(1)]]
        to_double_nat[OF nat_of_digits_small[OF d(2)]]
        to_double_nat[OF nat_of_digits_small[OF d(3)]]
        to_double_nat[OF nat_of_digits_small[OF d(4)]])
  note ts = timestamp_exact[OF bd]
  have tp0: "split_time (h @ CHR '':'' # m @ CHR '':'' # sec @ CHR ''.'' # ms) = [h, m, sec, ms]"
    by (simp add: split_time_sep[OF d(1)] split_time_sep[OF d(2)] split_time_sep[OF d(3)]
        split_time_digits[OF d(4)])
  have "chapterLine s ?line =
     s\<lparr>result := (result s)\<lparr>menu := menu (result s) @
       [\<lparr>c_timestamp = Num (of_nat (nat_of_digits h) * 3600000 +
                              of_nat (nat_of_digits m) * 60000 +
                              of_nat (nat_of_digits sec) * 1000 +
                              of_nat (nat_of_digits ms)),
         c_title = trim title\<rparr>]\<rparr>\<rparr>"
    unfolding chapterLine_def cm
    by (simp add: tp0 nth_opt_eq Let_def pi ts del: js_mul.simps js_add.simps)
  then show ?thesis using parseLine_menu[OF nb nh assms(13)] by simp
qed

theorem C7_chapter_timestamp_and_title_witness:
  "parseLine \<lparr>result = result initial, currentSection = ''menu'', trackIndex = - 1\<rparr>
     ''00:23:50.000 : en:Chapter 5'' =
   Inr \<lparr>result = (result initial)\<lparr>menu := [\<lparr>c_timestamp = Num 1430000,
                                                  c_title = ''Chapter 5''\<rparr>]\<rparr>,
        currentSection = ''menu'', trackIndex = - 1\<rparr>"
proof -
  have "list_all is_digit (''00'' @ ''23'' @ ''50'' @ ''000'')"
    and "list_all js_space '' ''"
    and "CHR '':'' \<notin> set ''en''" and "\<not> list_ex line_terminator ''en''"
    and "\<not> list_ex line_terminator ''Chapter 5''"
    by (simp_all add: is_digit_def js_space_def line_terminator_def)
  from C7_chapter_timestamp_and_title[of "''00''" "''23''" "''50''" "''000''" "'' ''" "'' ''"
      "''en''" "''Chapter 5''"
      "\<lparr>result = result initial, currentSection = ''menu'', trackIndex = - 1\<rparr>", OF _ _ _ _ this(1) _ this(2) _ this(2,3,4,5)]
  show ?thesis
    by (simp add: nat_of_digits_def digit_val_def trim_def js_space_def initial_def)
qed

subsection \<open>Durations\<close>

text \<open>
  Claim C3, as stated: the duration of a sequence of (integer, unit token) pairs is the sum
  over the pairs of the integer times the factor of its unit.  The source adds doubles, and
  the integer of a pair is itself read as a double, so the claim fails once a number
  exceeds \<open>2^53\<close>: \<open>9007199254740993 ms\<close>, whose sum of components is
  \<open>2^53 + 1\<close>, gives \<open>2^53\<close>.
\<close>

theorem C3_counterexample:
  "parseDuration ''9007199254740993 ms'' = Num 9007199254740992 \<and>
   (\<Sum>(ds, u)\<leftarrow>[(''9007199254740993'', ''ms'')]. nat_of_digits ds * duration_factor u) =
     9007199254740993 \<and>
   join_words (duration_tokens [(''9007199254740993'', ''ms'')]) = ''9007199254740993 ms''"
proof -
  have 1: "parseDuration ''9007199254740993 ms'' = Num 9007199254740992"
    by (simp add: char_defs number_defs double_values)
  have 2: "(\<Sum>(ds, u)\<leftarrow>[(''9007199254740993'', ''ms'')]. nat_of_digits ds * duration_factor u) =
     9007199254740993"
    by (simp add: char_defs duration_factor_def)
  have 3: "join_words (duration_tokens [(''9007199254740993'', ''ms'')]) = ''9007199254740993 ms''"
    by (simp add: join_words_def duration_tokens_def)
  from 1 2 3 show ?thesis by blast
qed

text \<open>
  Claim C3, amended.  A duration string that is a space-separated sequence of (integer,
  unit token) pairs, the integers written as digits and the unit tokens free of spaces, is
  converted exactly to the sum over the pairs of the integer times the factor of its unit,
  provided that this sum does not exceed \<open>2^53 = 9007199254740992\<close>.  The factor is
  3600000 for a unit starting with \<open>h\<close>, 60000 for \<open>min\<close>, 1000 for \<open>s\<close>, 1 for \<open>ms\<close>, and
  0 for any other token.  In particular \<open>1 h 45 min 30 s\<close> gives 6330000.
\<close>

theorem C3_duration_is_sum_of_components:
  assumes "\<forall>(ds, u)\<in>set pairs. ds \<noteq> [] \<and> list_all is_digit ds \<and> CHR '' '' \<notin> set u"
    and "(\<Sum>(ds, u)\<leftarrow>pairs. nat_of_digits ds * duration_factor u) \<le> 9007199254740992"
  shows "parseDuration (join_words (duration_tokens pairs)) =
         Num (of_nat (\<Sum>(ds, u)\<leftarrow>pairs. nat_of_digits ds * duration_factor u))"
proof (cases pairs)
  case Nil
  then show ?thesis
    by (simp add: parseDuration_def join_words_def duration_tokens_def)
next
  case (Cons p ps)
  then have ne: "duration_tokens pairs \<noteq> []"
    by (cases p) (simp add: duration_tokens_def)
  have "CHR '' '' \<notin> set ds" if "list_all is_digit ds" for ds
    using that digit_neq[OF _ not_digit_chars(7)] by (auto simp: list_all_iff)
  then have "\<forall>w\<in>set (duration_tokens pairs). CHR '' '' \<notin> set w"
    using assms(1) by (fastforce simp: duration_tokens_def)
  from split_join_words[OF ne this] have
    "parseDuration (join_words (duration_tokens pairs)) =
       durationLoop (duration_tokens pairs) (Num (of_nat 0))"
    by (simp add: parseDuration_def)
  also have "\<dots> = Num (of_nat (0 + (\<Sum>(ds, u)\<leftarrow>pairs. nat_of_digits ds * duration_factor u)))"
    using assms by (intro durationLoop_pairs) auto
  finally show ?thesis by simp
qed

theorem C3_duration_is_sum_of_components_witness:
  "parseDuration ''1 h 45 min 30 s'' = Num 6330000"
proof -
  have 1: "\<forall>(ds, u)\<in>set [(''1'', ''h''), (''45'', ''min''), (''30'', ''s'')].
          ds \<noteq> [] \<and> list_all is_digit ds \<and> CHR '' '' \<notin> set u"
    by (simp add: is_digit_def)
  have 2: "(\<Sum>(ds, u)\<leftarrow>[(''1'', ''h''), (''45'', ''min''), (''30'', ''s'')].
          nat_of_digits ds * duration_factor u) \<le> 9007199254740992"
    by (simp add: duration_factor_def startsWith_def nat_of_digits_def digit_val_def)
  from C3_duration_is_sum_of_components[OF 1 2] show ?thesis
    by (simp add: join_words_def duration_tokens_def duration_factor_def startsWith_def
        nat_of_digits_def digit_val_def)
qed

subsection \<open>Sizes\<close>




subsection \<open>One track per header\<close>

text \<open>
  Claim C4.  For every input text and each of the three track kinds, the parse returns a
  record whose sequence of that kind has exactly as many tracks as the text has lines
  matching the header pattern with that kind's name (the name alone or followed by an
  ordinal suffix).  The tracks stand in the order of the headers: the i-th track is the
  empty track filled, line by line, from the body of the i-th such header.
\<close>

theorem C4_one_track_per_header:
  "\<exists>r. parseMediaInfo text = Inr r \<and>
     length (video r) =
       length (filter (\<lambda>l. sectionMatch l = Some ''Video'') (split (CHR 0x0A) text)) \<and>
     length (audio r) =
       length (filter (\<lambda>l. sectionMatch l = Some ''Audio'') (split (CHR 0x0A) text)) \<and>
     length (text_tracks r) =
       length (filter (\<lambda>l. sectionMatch l = Some ''Text'') (split (CHR 0x0A) text)) \<and>
     video r = map (\<lambda>b. fold applyVideo b emptyVideo)
                 (sectionBodies ''Video'' (split (CHR 0x0A) text)) \<and>
     audio r = map (\<lambda>b. fold applyAudio b emptyAudio)
                 (sectionBodies ''Audio'' (split (CHR 0x0A) text)) \<and>
     text_tracks r = map (\<lambda>b. fold applyText b emptyText)
                 (sectionBodies ''Text'' (split (CHR 0x0A) text))"
proof -
  let ?ls = "split (CHR 0x0A) text"
  from parseLines_tracks[OF wf_initial, of ?ls] obtain s where
    s: "parseLines initial ?ls = Inr s"
    and v: "video (result s) = run_tracks ''Video'' emptyVideo applyVideo [] ?ls []"
    and a: "audio (result s) = run_tracks ''Audio'' emptyAudio applyAudio [] ?ls []"
    and t: "text_tracks (result s) = run_tracks ''Text'' emptyText applyText [] ?ls []"
    by (auto simp: initial_def)
  have names: "''Video'' \<in> set section_names" "''Audio'' \<in> set section_names"
    "''Text'' \<in> set section_names"
    by (simp_all add: section_names_def)
  have v': "video (result s) = map (\<lambda>b. fold applyVideo b emptyVideo)
      (sectionBodies ''Video'' ?ls)"
    unfolding v by (subst run_tracks_bodies[OF names(1)]) (simp_all add: lower_names)
  have a': "audio (result s) = map (\<lambda>b. fold applyAudio b emptyAudio)
      (sectionBodies ''Audio'' ?ls)"
    unfolding a by (subst run_tracks_bodies[OF names(2)]) (simp_all add: lower_names)
  have t': "text_tracks (result s) = map (\<lambda>b. fold applyText b emptyText)
      (sectionBodies ''Text'' ?ls)"
    unfolding t by (subst run_tracks_bodies[OF names(3)]) (simp_all add: lower_names)
  have "parseMediaInfo text = Inr (result s)" by (simp add: parseMediaInfo_def s)
  then show ?thesis
    using v' a' t' by (simp add: length_sectionBodies)
qed

end
